theory Spec2Isabelle
  imports Main "HOL-Library.AList" "HOL-Library.Word"
begin

section \<open>JavaScript values\<close>

text \<open>
  The parser builds its syntax tree from untyped dictionaries (\<^verbatim>\<open>/** @dict */ var msg = {}\<close>)
  and arrays, so the tree is modelled as a tree of JavaScript values. An object is an
  association list in insertion order: assigning to an existing key keeps its place,
  assigning to a new key appends it.

  A number is a double. The integer-valued finite doubles are \<open>Fin\<close>, the two infinities
  are \<open>PInf\<close> and \<open>NInf\<close>, and \<open>Flt neg s\<close> is the double \<^verbatim>\<open>sign * parseFloat(s)\<close>
  with \<^verbatim>\<open>sign = -1\<close> exactly when \<open>neg\<close> holds: the binary value of a decimal fraction
  is not computed. Negative zero is identified with zero.
\<close>

datatype jsnum = Fin int | PInf | NInf | Flt bool string

datatype jsval =
    Undefined
  | Null
  | Bool bool
  | Num jsnum
  | Str string
  | Arr "jsval list"
  | Obj "(string \<times> jsval) list"

datatype error = Error string | TypeError

type_synonym 'a result = "error + 'a"

text \<open>
  String conversion as \<^verbatim>\<open>+\<close> and \<^verbatim>\<open>RegExp.test\<close> apply it. The parser converts only
  tokens (strings or \<^verbatim>\<open>null\<close>) and \<^verbatim>\<open>name\<close> properties (strings, \<^verbatim>\<open>null\<close> or
  \<^verbatim>\<open>undefined\<close>); the conversion of numbers and arrays is left out.
\<close>

fun ToString :: "jsval \<Rightarrow> string" where
  "ToString Undefined = ''undefined''"
| "ToString Null = ''null''"
| "ToString (Bool b) = (if b then ''true'' else ''false'')"
| "ToString (Str s) = s"
| "ToString (Obj ps) = ''[object Object]''"

text \<open>The decimal rendering of a line number.\<close>

fun show_nat :: "nat \<Rightarrow> string" where
  "show_nat n =
     (if n < 10 then [''0123456789'' ! n] else show_nat (n div 10) @ [''0123456789'' ! (n mod 10)])"

declare show_nat.simps [simp del]

text \<open>
  Property read \<^verbatim>\<open>o[k]\<close>, property write \<^verbatim>\<open>o[k] = v\<close> and \<^verbatim>\<open>delete o[k]\<close>. An object is the
  list of its own properties in insertion order. The entry under the key \<^verbatim>\<open>__proto__\<close>, if
  there is one, is not an own property: it is the prototype that an assignment to
  \<^verbatim>\<open>o["__proto__"]\<close> has given the object (with no such entry the prototype is
  \<^verbatim>\<open>Object.prototype\<close>, none of whose properties the parser reads). A read looks at the own
  properties and then along the prototype chain. A write to \<^verbatim>\<open>__proto__\<close> creates no own
  property: it replaces the prototype when the value is an object or \<^verbatim>\<open>null\<close>, and does
  nothing otherwise. \<^verbatim>\<open>delete\<close> removes an own property and leaves the prototype alone.
\<close>

lemma map_of_size: "map_of ps k = Some p \<Longrightarrow> size p < size (Obj ps)"
  by (induction ps) (auto split: if_splits)

function (sequential) js_get :: "jsval \<Rightarrow> string \<Rightarrow> jsval" where
  "js_get (Obj ps) k =
     (case map_of ps k of
        Some v \<Rightarrow> v
      | None \<Rightarrow> (case map_of ps ''__proto__'' of None \<Rightarrow> Undefined | Some p \<Rightarrow> js_get p k))"
| "js_get v k = Undefined"
  by pat_completeness auto
termination js_get
  by (relation "measure (\<lambda>(v, k). size v)") (auto dest: map_of_size)

fun is_object :: "jsval \<Rightarrow> bool" where
  "is_object (Obj ps) = True"
| "is_object (Arr xs) = True"
| "is_object v = False"

fun js_set :: "jsval \<Rightarrow> string \<Rightarrow> jsval \<Rightarrow> jsval" where
  "js_set (Obj ps) k v =
     (if k = ''__proto__'' \<and> \<not> is_object v \<and> v \<noteq> Null then Obj ps
      else Obj (AList.update k v ps))"
| "js_set w k v = w"

fun js_delete :: "jsval \<Rightarrow> string \<Rightarrow> jsval" where
  "js_delete (Obj ps) k = (if k = ''__proto__'' then Obj ps else Obj (AList.delete k ps))"
| "js_delete w k = w"

text \<open>
  \<^verbatim>\<open>o[k].push(v)\<close>: appends to the array under \<open>k\<close>; a \<^verbatim>\<open>TypeError\<close> when \<open>o[k]\<close> is
  \<^verbatim>\<open>undefined\<close> (or anything else without a \<^verbatim>\<open>push\<close> method).
\<close>

definition js_push :: "jsval \<Rightarrow> string \<Rightarrow> jsval \<Rightarrow> jsval result" where
  "js_push obj k v =
     (case js_get obj k of
        Arr xs \<Rightarrow> Inr (js_set obj k (Arr (xs @ [v])))
      | _ \<Rightarrow> Inl TypeError)"

text \<open>\<^verbatim>\<open>o[k][k2] = v\<close> on an object held under \<open>k\<close>.\<close>

definition js_set2 :: "jsval \<Rightarrow> string \<Rightarrow> string \<Rightarrow> jsval \<Rightarrow> jsval result" where
  "js_set2 obj k k2 v =
     (case js_get obj k of
        Obj ps \<Rightarrow> Inr (js_set obj k (js_set (Obj ps) k2 v))
      | Undefined \<Rightarrow> Inl TypeError
      | Null \<Rightarrow> Inl TypeError
      | _ \<Rightarrow> Inr obj)"

text \<open>\<^verbatim>\<open>String.prototype.toLowerCase\<close> on the letters \<^verbatim>\<open>A\<close> to \<^verbatim>\<open>Z\<close>.\<close>

definition lower_char :: "char \<Rightarrow> char" where
  "lower_char c =
     (case map_of (zip ''ABCDEFGHIJKLMNOPQRSTUVWXYZ'' ''abcdefghijklmnopqrstuvwxyz'') c of
        None \<Rightarrow> c
      | Some l \<Rightarrow> l)"

definition toLowerCase :: "string \<Rightarrow> string" where
  "toLowerCase s = map lower_char s"

text \<open>The method call \<^verbatim>\<open>v.toLowerCase()\<close>: a \<^verbatim>\<open>TypeError\<close> unless \<open>v\<close> is a string.\<close>

definition js_toLowerCase :: "jsval \<Rightarrow> string result" where
  "js_toLowerCase v = (case v of Str s \<Rightarrow> Inr (toLowerCase s) | _ \<Rightarrow> Inl TypeError)"

section \<open>Lexical grammar\<close>

text \<open>
  Modelled from the spec: the table \<^verbatim>\<open>Lang\<close> of structural tokens and token patterns is not
  among the sources. The structural tokens are the ones the spec's examples use and the
  parser's own messages name (\<^verbatim>\<open>'=' expected\<close>, \<^verbatim>\<open>')' expected\<close>); the patterns follow the
  spec's section 4.1.
\<close>

definition OPEN :: string where "OPEN = ''{''"
definition CLOSE :: string where "CLOSE = ''}''"
definition OPTOPEN :: string where "OPTOPEN = ''[''"
definition OPTCLOSE :: string where "OPTCLOSE = '']''"
definition OPTEND :: string where "OPTEND = '',''"
definition EQUAL :: string where "EQUAL = ''=''"
definition END :: string where "END = '';''"
definition COPTOPEN :: string where "COPTOPEN = ''(''"
definition COPTCLOSE :: string where "COPTCLOSE = '')''"
definition STRINGOPEN :: string where "STRINGOPEN = [CHR 0x22]"
definition STRINGOPEN_SQ :: string where "STRINGOPEN_SQ = [CHR 0x27]"

lemmas Lang_tokens = OPEN_def CLOSE_def OPTOPEN_def OPTCLOSE_def OPTEND_def EQUAL_def END_def
  COPTOPEN_def COPTCLOSE_def STRINGOPEN_def STRINGOPEN_SQ_def

definition is_digit :: "char \<Rightarrow> bool" where
  "is_digit c = (let n = (of_char c :: nat) in 48 \<le> n \<and> n \<le> 57)"

definition is_octal :: "char \<Rightarrow> bool" where
  "is_octal c = (let n = (of_char c :: nat) in 48 \<le> n \<and> n \<le> 55)"

definition is_hex :: "char \<Rightarrow> bool" where
  "is_hex c = (let n = (of_char c :: nat) in
     (48 \<le> n \<and> n \<le> 57) \<or> (97 \<le> n \<and> n \<le> 102) \<or> (65 \<le> n \<and> n \<le> 70))"

definition is_name_start :: "char \<Rightarrow> bool" where
  "is_name_start c = (let n = (of_char c :: nat) in
     (97 \<le> n \<and> n \<le> 122) \<or> (65 \<le> n \<and> n \<le> 90) \<or> n = 95)"

definition is_upper :: "char \<Rightarrow> bool" where
  "is_upper c = (let n = (of_char c :: nat) in 65 \<le> n \<and> n \<le> 90)"

text \<open>Decimal integer: \<^verbatim>\<open>0\<close>, or a non-zero digit followed by digits.\<close>

definition NUMBER_DEC :: "string \<Rightarrow> bool" where
  "NUMBER_DEC s =
     (case s of
        [] \<Rightarrow> False
      | c # cs \<Rightarrow> (c = CHR ''0'' \<and> cs = []) \<or> (is_digit c \<and> c \<noteq> CHR ''0'' \<and> list_all is_digit cs))"

text \<open>Hex integer: the prefix \<^verbatim>\<open>0x\<close> and at least one hex digit.\<close>

definition NUMBER_HEX :: "string \<Rightarrow> bool" where
  "NUMBER_HEX s = (take 2 s = ''0x'' \<and> drop 2 s \<noteq> [] \<and> list_all is_hex (drop 2 s))"

text \<open>Octal integer: a leading \<^verbatim>\<open>0\<close> and at least one octal digit.\<close>

definition NUMBER_OCT :: "string \<Rightarrow> bool" where
  "NUMBER_OCT s = (take 1 s = ''0'' \<and> drop 1 s \<noteq> [] \<and> list_all is_octal (drop 1 s))"

text \<open>
  Floating point: digits (possibly none), a decimal point, at least one digit and an
  optional exponent (\<^verbatim>\<open>e\<close> or \<^verbatim>\<open>E\<close>, an optional sign, at least one digit).
\<close>

definition is_exponent :: "string \<Rightarrow> bool" where
  "is_exponent s =
     (case s of
        [] \<Rightarrow> False
      | c # cs \<Rightarrow> (c = CHR ''e'' \<or> c = CHR ''E'') \<and>
          (let ds = (if take 1 cs = ''+'' \<or> take 1 cs = ''-'' then drop 1 cs else cs)
           in ds \<noteq> [] \<and> list_all is_digit ds))"

definition NUMBER_FLT :: "string \<Rightarrow> bool" where
  "NUMBER_FLT s =
     (let r = dropWhile is_digit s in
      take 1 r = ''.'' \<and>
      (let f = takeWhile is_digit (drop 1 r); e = dropWhile is_digit (drop 1 r)
       in f \<noteq> [] \<and> (e = [] \<or> is_exponent e)))"

text \<open>General number: an optional \<^verbatim>\<open>-\<close> and one of the four forms.\<close>

definition NUMBER :: "string \<Rightarrow> bool" where
  "NUMBER s =
     (let v = (if take 1 s = ''-'' then drop 1 s else s)
      in NUMBER_DEC v \<or> NUMBER_HEX v \<or> NUMBER_OCT v \<or> NUMBER_FLT v)"

text \<open>Simple name: a letter or underscore, then letters, digits and underscores.\<close>

definition NAME :: "string \<Rightarrow> bool" where
  "NAME s =
     (case s of
        [] \<Rightarrow> False
      | c # cs \<Rightarrow> is_name_start c \<and> list_all (\<lambda>d. is_name_start d \<or> is_digit d) cs)"

text \<open>
  \<open>dotted s\<close>: \<open>s\<close> is one or more simple names, each preceded by a dot. A type reference
  is a simple name optionally followed by such a continuation; the fully qualified
  continuation of a custom option name is the continuation alone.
\<close>

fun split_dot :: "string \<Rightarrow> string list" where
  "split_dot [] = [[]]"
| "split_dot (c # cs) =
     (if c = CHR ''.'' then [] # split_dot cs
      else (case split_dot cs of [] \<Rightarrow> [[c]] | p # ps \<Rightarrow> (c # p) # ps))"

definition TYPEREF :: "string \<Rightarrow> bool" where
  "TYPEREF s = list_all NAME (split_dot s)"

definition FQTYPEREF :: "string \<Rightarrow> bool" where
  "FQTYPEREF s = (take 1 s = ''.'' \<and> list_all NAME (split_dot (drop 1 s)))"

definition RULE :: "string \<Rightarrow> bool" where
  "RULE s = (s = ''required'' \<or> s = ''optional'' \<or> s = ''repeated'')"

definition TYPE_pat :: "string \<Rightarrow> bool" where
  "TYPE_pat s = (s \<in> set [''double'', ''float'', ''int32'', ''uint32'', ''sint32'', ''int64'',
     ''uint64'', ''sint64'', ''fixed32'', ''sfixed32'', ''fixed64'', ''sfixed64'', ''bool'',
     ''string'', ''bytes''])"

text \<open>Boolean literal, in any case.\<close>

definition BOOL :: "string \<Rightarrow> bool" where
  "BOOL s = (toLowerCase s = ''true'' \<or> toLowerCase s = ''false'')"

text \<open>\<^verbatim>\<open>pattern.test(token)\<close> converts its argument to a string first.\<close>

definition test :: "(string \<Rightarrow> bool) \<Rightarrow> jsval \<Rightarrow> bool" where
  "test pat v = pat (ToString v)"

section \<open>Numbers and ids\<close>

text \<open>
  \<^verbatim>\<open>parseInt(digits, radix)\<close> on a string of digits of the radix: the integer the digits
  denote, rounded to the nearest double (ties to even), \<^verbatim>\<open>Infinity\<close> from \<open>2 ^ 1024\<close> on.
  Below \<open>2 ^ 53\<close> every integer is a double and nothing is rounded.
\<close>

definition digit_value :: "char \<Rightarrow> nat" where
  "digit_value c = (let n = (of_char c :: nat) in
     if 48 \<le> n \<and> n \<le> 57 then n - 48
     else if 97 \<le> n \<and> n \<le> 102 then n - 87
     else n - 55)"

definition digits_value :: "nat \<Rightarrow> string \<Rightarrow> nat" where
  "digits_value radix s = foldl (\<lambda>acc c. acc * radix + digit_value c) 0 s"

fun bit_length :: "nat \<Rightarrow> nat" where
  "bit_length n = (if n = 0 then 0 else Suc (bit_length (n div 2)))"

declare bit_length.simps [simp del]

definition round53 :: "nat \<Rightarrow> nat" where
  "round53 n =
     (if n < 2 ^ 53 then n
      else let e = bit_length n - 53; q = n div 2 ^ e; r = n mod 2 ^ e; h = 2 ^ (e - 1)
           in if r < h \<or> (r = h \<and> even q) then q * 2 ^ e else (q + 1) * 2 ^ e)"

definition to_double :: "nat \<Rightarrow> jsnum" where
  "to_double n = (let r = round53 n in if r < 2 ^ 1024 then Fin (int r) else PInf)"

definition parseInt :: "string \<Rightarrow> nat \<Rightarrow> jsnum" where
  "parseInt s radix = to_double (digits_value radix s)"

definition parseFloat :: "string \<Rightarrow> jsnum" where
  "parseFloat s = Flt False s"

text \<open>\<^verbatim>\<open>sign * x\<close> for \<open>sign\<close> one of \<open>1\<close> and \<open>-1\<close>.\<close>

fun times_sign :: "int \<Rightarrow> jsnum \<Rightarrow> jsnum" where
  "times_sign sign (Fin i) = Fin (sign * i)"
| "times_sign sign PInf = (if sign < 0 then NInf else PInf)"
| "times_sign sign NInf = (if sign < 0 then PInf else NInf)"
| "times_sign sign (Flt neg s) = Flt (if sign < 0 then \<not> neg else neg) s"

text \<open>
  \<^verbatim>\<open>x|0\<close>: the value modulo \<open>2 ^ 32\<close>, read as a signed 32-bit integer; zero for the
  infinities. The parser applies it to results of \<^verbatim>\<open>parseInt\<close> only.
\<close>

fun ToInt32 :: "jsnum \<Rightarrow> int" where
  "ToInt32 (Fin i) = sint (word_of_int i :: 32 word)"
| "ToInt32 PInf = 0"
| "ToInt32 NInf = 0"

text \<open>
  Truthiness, as \<^verbatim>\<open>while (token = next())\<close>, \<^verbatim>\<open>parent ? .. : ..\<close> and \<^verbatim>\<open>&& fld\<close> test it. The
  parser tests tokens and objects only.
\<close>

fun truthy :: "jsval \<Rightarrow> bool" where
  "truthy Undefined = False"
| "truthy Null = False"
| "truthy (Bool b) = b"
| "truthy (Str s) = (s \<noteq> [])"
| "truthy (Arr xs) = True"
| "truthy (Obj ps) = True"

definition throw :: "string \<Rightarrow> 'a result" where
  "throw msg = Inl (Error msg)"

definition quoted :: "string \<Rightarrow> string" where
  "quoted s = [CHR 0x27] @ s @ [CHR 0x27]"

section \<open>Tokenizer\<close>

text \<open>
  Modelled from the spec: the class \<^verbatim>\<open>Tokenizer\<close> is not among the sources. The parser
  is verified against the tokenizer's contract (the spec's section 4.2), with the token
  stream as a parameter: \<open>source\<close> holds the tokens still to come, each with the line it
  stands on, and \<open>eof_line\<close> is the line the counter has reached at the end of the input.
  \<^verbatim>\<open>next()\<close> returns the next token and moves the line counter to it, \<^verbatim>\<open>null\<close> at the
  end of the input. After a string-open delimiter the two following tokens (the string
  body and the closing delimiter) are returned as they are, and \<open>stringEndsWith\<close> holds
  the delimiter that was opened. \<^verbatim>\<open>peek()\<close> returns the token \<^verbatim>\<open>next()\<close> would return
  and changes nothing.
\<close>

record tokenizer =
  source :: "(string \<times> nat) list"
  line :: nat
  stringEndsWith :: string
  readingString :: nat
  eof_line :: nat

definition Tokenizer :: "(string \<times> nat) list \<Rightarrow> nat \<Rightarrow> tokenizer" where
  "Tokenizer ts eof =
     \<lparr>source = ts, line = 1, stringEndsWith = STRINGOPEN, readingString = 0, eof_line = eof\<rparr>"

text \<open>A token stream whose tokens all stand on line \<open>l\<close>.\<close>

definition on_line :: "nat \<Rightarrow> string list \<Rightarrow> (string \<times> nat) list" where
  "on_line l ts = map (\<lambda>t. (t, l)) ts"

definition tn_next :: "tokenizer \<Rightarrow> jsval \<times> tokenizer" where
  "tn_next tn =
     (case source tn of
        [] \<Rightarrow> (Null, tn\<lparr>line := eof_line tn\<rparr>)
      | (t, l) # rest \<Rightarrow>
          if 0 < readingString tn
          then (Str t, tn\<lparr>source := rest, line := l, readingString := readingString tn - 1\<rparr>)
          else if t = STRINGOPEN \<or> t = STRINGOPEN_SQ
          then (Str t, tn\<lparr>source := rest, line := l, stringEndsWith := t, readingString := 2\<rparr>)
          else (Str t, tn\<lparr>source := rest, line := l\<rparr>))"

definition tn_peek :: "tokenizer \<Rightarrow> jsval" where
  "tn_peek tn = (case source tn of [] \<Rightarrow> Null | (t, l) # rest \<Rightarrow> Str t)"

definition remaining :: "tokenizer \<Rightarrow> nat" where
  "remaining tn = length (source tn)"

text \<open>
  The idiom \<^verbatim>\<open>if (this.tn.peek() === Lang.END) this.tn.next();\<close> that skips a redundant
  terminator after a closing brace.
\<close>

definition skip_END :: "tokenizer \<Rightarrow> tokenizer" where
  "skip_END tn = (if tn_peek tn = Str END then snd (tn_next tn) else tn)"

section \<open>Parser\<close>

text \<open>
  Every method of \<^verbatim>\<open>Parser.prototype\<close> is a function of the same name, without the
  leading underscore. A method takes the tokenizer state and the objects it mutates and
  returns them updated; a \<^verbatim>\<open>throw\<close> is the result \<open>Inl\<close>. A \<^verbatim>\<open>do .. while\<close> loop inside
  a method is a recursive function named after the method.
\<close>

definition parseNumber :: "tokenizer \<Rightarrow> jsval \<Rightarrow> jsnum result" where
  "parseNumber tn val0 =
     (case val0 of
        Str v0 \<Rightarrow>
          (let sign = (if take 1 v0 = ''-'' then - 1 else 1 :: int);
               val = (if take 1 v0 = ''-'' then drop 1 v0 else v0)
           in if NUMBER_DEC val then Inr (times_sign sign (parseInt val 10))
              else if NUMBER_HEX val then Inr (times_sign sign (parseInt (drop 2 val) 16))
              else if NUMBER_OCT val then Inr (times_sign sign (parseInt (drop 1 val) 8))
              else if NUMBER_FLT val then Inr (times_sign sign (parseFloat val))
              else throw (''Illegal number at line '' @ show_nat (line tn) @ '': '' @
                     (if sign < 0 then ''-'' else []) @ val))
      | _ \<Rightarrow> Inl TypeError)"

definition parseId :: "tokenizer \<Rightarrow> jsval \<Rightarrow> bool \<Rightarrow> int result" where
  "parseId tn val0 neg =
     (case val0 of
        Str v0 \<Rightarrow>
          (let sign = (if take 1 v0 = ''-'' then - 1 else 1 :: int);
               val = (if take 1 v0 = ''-'' then drop 1 v0 else v0);
               illegal = throw (''Illegal ID at line '' @ show_nat (line tn) @ '': '' @
                     (if sign < 0 then ''-'' else []) @ val)
           in if NUMBER_DEC val \<or> NUMBER_HEX val \<or> NUMBER_OCT val
              then (let id' = (if NUMBER_DEC val then parseInt val 10
                               else if NUMBER_HEX val then parseInt (drop 2 val) 16
                               else parseInt (drop 1 val) 8);
                        id' = ToInt32 (times_sign sign id')
                    in if \<not> neg \<and> id' < 0 then illegal else Inr id')
              else illegal)
      | _ \<Rightarrow> Inl TypeError)"

definition parsePackage :: "jsval \<Rightarrow> tokenizer \<Rightarrow> (jsval \<times> tokenizer) result" where
  "parsePackage token0 tn0 =
     (let (token, tn) = tn_next tn0 in
      if \<not> test TYPEREF token
      then throw (''Illegal package at line '' @ show_nat (line tn) @ '': '' @ ToString token)
      else
        let pkg = token; (token, tn) = tn_next tn in
        if token \<noteq> Str END
        then throw (''Illegal end of package at line '' @ show_nat (line tn) @ '': '' @ ToString token @
               '' ('' @ quoted END @ '' expected)'')
        else Inr (pkg, tn))"

definition parseImport :: "jsval \<Rightarrow> tokenizer \<Rightarrow> (jsval \<times> tokenizer) result" where
  "parseImport token0 tn0 =
     (let (token, tn) = tn_next tn0;
          (token, tn) = (if token = Str ''public'' then tn_next tn else (token, tn)) in
      if token \<noteq> Str STRINGOPEN \<and> token \<noteq> Str STRINGOPEN_SQ
      then throw (''Illegal import at line '' @ show_nat (line tn) @ '': '' @ ToString token @
             '' ('' @ quoted STRINGOPEN @ '' or '' @ quoted STRINGOPEN_SQ @ '' expected)'')
      else
        let (imported, tn) = tn_next tn; (token, tn) = tn_next tn in
        if token \<noteq> Str (stringEndsWith tn)
        then throw (''Illegal import at line '' @ show_nat (line tn) @ '': '' @ ToString token @
               '' ('' @ quoted (stringEndsWith tn) @ '' expected)'')
        else
          let (token, tn) = tn_next tn in
          if token \<noteq> Str END
          then throw (''Illegal import at line '' @ show_nat (line tn) @ '': '' @ ToString token @
                 '' ('' @ quoted END @ '' expected)'')
          else Inr (imported, tn))"

text \<open>\<^verbatim>\<open>/google\.protobuf\./.test(token)\<close>: the text occurs somewhere in the token.\<close>

fun contains :: "string \<Rightarrow> string \<Rightarrow> bool" where
  "contains p [] = (p = [])"
| "contains p (c # cs) = (take (length p) (c # cs) = p \<or> contains p cs)"

definition parseOption :: "jsval \<Rightarrow> jsval \<Rightarrow> tokenizer \<Rightarrow> (jsval \<times> tokenizer) result" where
  "parseOption parent token0 tn0 =
     (let pname = ToString (js_get parent ''name'');
          (token, tn) = tn_next tn0;
          custom = (token = Str COPTOPEN);
          (token, tn) = (if custom then tn_next tn else (token, tn)) in
      if \<not> test TYPEREF token \<and> \<not> contains ''google.protobuf.'' (ToString token)
      then throw (''Illegal option in message '' @ pname @ '' at line '' @ show_nat (line tn) @ '': '' @
             ToString token)
      else
        let name = token; (token, tn) = tn_next tn in
        if custom \<and> token \<noteq> Str COPTCLOSE
        then throw (''Illegal option in message '' @ pname @ '', option '' @ ToString name @
               '' at line '' @ show_nat (line tn) @ '': '' @ ToString token @
               '' ('' @ quoted COPTCLOSE @ '' expected)'')
        else
          let (name, token, tn) =
                (if custom
                 then (let name = Str (''('' @ ToString name @ '')''); (token, tn) = tn_next tn in
                       if test FQTYPEREF token
                       then (let name = Str (ToString name @ ToString token); (token, tn) = tn_next tn
                             in (name, token, tn))
                       else (name, token, tn))
                 else (name, token, tn)) in
          if token \<noteq> Str EQUAL
          then throw (''Illegal option operator in message '' @ pname @ '', option '' @ ToString name @
                 '' at line '' @ show_nat (line tn) @ '': '' @ ToString token @
                 '' ('' @ quoted EQUAL @ '' expected)'')
          else
            let (token, tn) = tn_next tn in
            case
              (if token = Str STRINGOPEN \<or> token = Str STRINGOPEN_SQ
               then (let (val, tn) = tn_next tn; (token, tn) = tn_next tn in
                     if token \<noteq> Str (stringEndsWith tn)
                     then throw (''Illegal end of option value in message '' @ pname @ '', option '' @
                            ToString name @ '' at line '' @ show_nat (line tn) @ '': '' @ ToString token @
                            '' ('' @ quoted (stringEndsWith tn) @ '' expected)'')
                     else Inr (val, tn))
               else if test NUMBER token
               then (case parseNumber tn token of Inl e \<Rightarrow> Inl e | Inr n \<Rightarrow> Inr (Num n, tn))
               else if test BOOL token then Inr (Bool (token = Str ''true''), tn)
               else if test TYPEREF token then Inr (token, tn)
               else throw (''Illegal option value in message '' @ pname @ '', option '' @ ToString name @
                      '' at line '' @ show_nat (line tn) @ '': '' @ ToString token))
            of
              Inl e \<Rightarrow> Inl e
            | Inr (val, tn) \<Rightarrow>
                let (token, tn) = tn_next tn in
                if token \<noteq> Str END
                then throw (''Illegal end of option in message '' @ pname @ '', option '' @ ToString name @
                       '' at line '' @ show_nat (line tn) @ '': '' @ ToString token @
                       '' ('' @ quoted END @ '' expected)'')
                else
                  (case js_set2 parent ''options'' (ToString name) val of
                     Inl e \<Rightarrow> Inl e
                   | Inr parent \<Rightarrow> Inr (parent, tn)))"

subsection \<open>The tokenizer only moves forward\<close>

lemma tn_next_le: "tn_next tn = (t, tn') \<Longrightarrow> remaining tn' \<le> remaining tn"
  by (auto simp: tn_next_def remaining_def split: list.splits if_splits)

lemma tn_next_less: "tn_next tn = (t, tn') \<Longrightarrow> t \<noteq> Null \<Longrightarrow> remaining tn' < remaining tn"
  by (auto simp: tn_next_def remaining_def split: list.splits if_splits)

lemma tn_next_Str_less: "tn_next tn = (Str s, tn') \<Longrightarrow> remaining tn' < remaining tn"
  by (erule tn_next_less) simp

lemma tn_next_le_sym: "(t, tn') = tn_next tn \<Longrightarrow> remaining tn' \<le> remaining tn"
  by (rule tn_next_le [OF sym])

lemma tn_next_less_sym: "(t, tn') = tn_next tn \<Longrightarrow> t \<noteq> Null \<Longrightarrow> remaining tn' < remaining tn"
  by (rule tn_next_less [OF sym])

lemma tn_next_Str_less_sym: "(Str s, tn') = tn_next tn \<Longrightarrow> remaining tn' < remaining tn"
  by (rule tn_next_Str_less [OF sym])

lemma skip_END_le: "remaining (skip_END tn) \<le> remaining tn"
  by (cases "tn_next tn") (auto simp: skip_END_def dest: tn_next_le)

lemma parseOption_less:
  assumes "parseOption parent token0 tn0 = Inr (parent', tn')"
  shows "remaining tn' < remaining tn0"
  using assms unfolding parseOption_def Let_def throw_def
  by (auto split: prod.splits if_splits sum.splits dest!: tn_next_le tn_next_Str_less)

subsection \<open>Ignored statements, services and RPC methods\<close>

function parseIgnoredStatement :: "jsval \<Rightarrow> jsval \<Rightarrow> tokenizer \<Rightarrow> tokenizer result" where
  "parseIgnoredStatement parent keyword tn0 =
     (let (token, tn) = tn_next tn0 in
      if token = Null
      then throw (''Unexpected EOF in '' @ ToString (js_get parent ''name'') @ '', '' @ ToString keyword @
             '' (ignored) at line '' @ show_nat (line tn))
      else if token = Str END then Inr tn
      else parseIgnoredStatement parent keyword tn)"
  by pat_completeness auto
termination
  by (relation "measure (\<lambda>(parent, keyword, tn). remaining tn)") (auto dest: tn_next_less_sym)

declare parseIgnoredStatement.simps [simp del]

text \<open>
  The loop over the options block of an RPC method. \<open>sname\<close> and \<open>name\<close> are the texts
  \<^verbatim>\<open>svc["name"]\<close> and \<^verbatim>\<open>name\<close> of the messages.
\<close>

function parseServiceRPC_loop ::
  "string \<Rightarrow> string \<Rightarrow> jsval \<Rightarrow> tokenizer \<Rightarrow> (jsval \<times> tokenizer) result" where
  "parseServiceRPC_loop sname name method tn0 =
     (let (token, tn) = tn_next tn0 in
      if token = Str ''option''
      then (case parseOption method token tn of
              Inl e \<Rightarrow> Inl e
            | Inr (method, tn) \<Rightarrow> parseServiceRPC_loop sname name method tn)
      else if token \<noteq> Str CLOSE
      then throw (''Illegal start of option in RPC service '' @ sname @ ''#'' @ name @ '' at line '' @
             show_nat (line tn) @ '': '' @ ToString token @ '' ('' @ quoted ''option'' @ '' expected)'')
      else Inr (method, tn))"
  by pat_completeness auto
termination
  by (relation "measure (\<lambda>(sname, name, method, tn). remaining tn)")
    (auto dest!: tn_next_Str_less_sym parseOption_less)

declare parseServiceRPC_loop.simps [simp del]

definition parseServiceRPC :: "jsval \<Rightarrow> jsval \<Rightarrow> tokenizer \<Rightarrow> (jsval \<times> tokenizer) result" where
  "parseServiceRPC svc token0 tn0 =
     (let sname = ToString (js_get svc ''name'');
          type = token0;
          (token, tn) = tn_next tn0 in
      if \<not> test NAME token
      then throw (''Illegal RPC method name in service '' @ sname @ '' at line '' @ show_nat (line tn) @
             '': '' @ ToString token)
      else
        let name = token;
            method = Obj [(''request'', Null), (''response'', Null), (''options'', Obj [])];
            (token, tn) = tn_next tn in
        if token \<noteq> Str COPTOPEN
        then throw (''Illegal start of request type in RPC service '' @ sname @ ''#'' @ ToString name @
               '' at line '' @ show_nat (line tn) @ '': '' @ ToString token @
               '' ('' @ quoted COPTOPEN @ '' expected)'')
        else
          let (token, tn) = tn_next tn in
          if \<not> test TYPEREF token
          then throw (''Illegal request type in RPC service '' @ sname @ ''#'' @ ToString name @
                 '' at line '' @ show_nat (line tn) @ '': '' @ ToString token)
          else
            let method = js_set method ''request'' token;
                (token, tn) = tn_next tn in
            if token \<noteq> Str COPTCLOSE
            then throw (''Illegal end of request type in RPC service '' @ sname @ ''#'' @ ToString name @
                   '' at line '' @ show_nat (line tn) @ '': '' @ ToString token @
                   '' ('' @ quoted COPTCLOSE @ '' expected)'')
            else
              let (token, tn) = tn_next tn in
              case js_toLowerCase token of
                Inl e \<Rightarrow> Inl e
              | Inr t \<Rightarrow>
                 (if t \<noteq> ''returns''
                  then throw (''Illegal request/response delimiter in RPC service '' @ sname @ ''#'' @
                         ToString name @ '' at line '' @ show_nat (line tn) @ '': '' @ ToString token @
                         '' ('' @ quoted ''returns'' @ '' expected)'')
                  else
                    let (token, tn) = tn_next tn in
                    if token \<noteq> Str COPTOPEN
                    then throw (''Illegal start of response type in RPC service '' @ sname @ ''#'' @
                           ToString name @ '' at line '' @ show_nat (line tn) @ '': '' @ ToString token @
                           '' ('' @ quoted COPTOPEN @ '' expected)'')
                    else
                      let (token, tn) = tn_next tn;
                          method = js_set method ''response'' token;
                          (token, tn) = tn_next tn in
                      if token \<noteq> Str COPTCLOSE
                      then throw (''Illegal end of response type in RPC service '' @ sname @ ''#'' @
                             ToString name @ '' at line '' @ show_nat (line tn) @ '': '' @ ToString token @
                             '' ('' @ quoted COPTCLOSE @ '' expected)'')
                      else
                        let (token, tn) = tn_next tn in
                        case
                          (if token = Str OPEN
                           then (case parseServiceRPC_loop sname (ToString name) method tn of
                                   Inl e \<Rightarrow> Inl e
                                 | Inr (method, tn) \<Rightarrow> Inr (method, skip_END tn))
                           else if token \<noteq> Str END
                           then throw (''Illegal method delimiter in RPC service '' @ sname @ ''#'' @
                                  ToString name @ '' at line '' @ show_nat (line tn) @ '': '' @
                                  ToString token @ '' ('' @ quoted END @ '' or '' @ quoted OPEN @
                                  '' expected)'')
                           else Inr (method, tn))
                        of
                          Inl e \<Rightarrow> Inl e
                        | Inr (method, tn) \<Rightarrow>
                            let svc = (if js_get svc (ToString type) = Undefined
                                       then js_set svc (ToString type) (Obj []) else svc) in
                            (case js_set2 svc (ToString type) (ToString name) method of
                               Inl e \<Rightarrow> Inl e
                             | Inr svc \<Rightarrow> Inr (svc, tn))))"

lemma parseServiceRPC_loop_le:
  "parseServiceRPC_loop sname name m tn0 = Inr (m', tn') \<Longrightarrow> remaining tn' \<le> remaining tn0"
proof (induction sname name m tn0 rule: parseServiceRPC_loop.induct)
  case (1 sname name m tn0)
  obtain token tn where nx: "tn_next tn0 = (token, tn)" by (cases "tn_next tn0")
  show ?case
  proof (cases "token = Str ''option''")
    case True
    with "1.prems" nx obtain m1 tn1 where po: "parseOption m token tn = Inr (m1, tn1)"
      and rest: "parseServiceRPC_loop sname name m1 tn1 = Inr (m', tn')"
      by (subst (asm) parseServiceRPC_loop.simps) (auto split: sum.splits)
    have "remaining tn' \<le> remaining tn1"
      using "1.IH" nx True po rest by auto
    with parseOption_less [OF po] tn_next_le [OF nx] show ?thesis by simp
  next
    case False
    with "1.prems" nx have "tn' = tn"
      by (subst (asm) parseServiceRPC_loop.simps) (auto simp: throw_def split: if_splits)
    with tn_next_le [OF nx] show ?thesis by simp
  qed
qed

lemma parseServiceRPC_le:
  assumes "parseServiceRPC svc token0 tn0 = Inr (svc', tn')"
  shows "remaining tn' \<le> remaining tn0"
  using assms unfolding parseServiceRPC_def Let_def throw_def
  by (auto split: prod.splits if_splits sum.splits jsval.splits
      dest!: tn_next_le parseServiceRPC_loop_le intro: order_trans [OF skip_END_le])

function parseService_loop :: "string \<Rightarrow> jsval \<Rightarrow> tokenizer \<Rightarrow> (jsval \<times> tokenizer) result" where
  "parseService_loop name svc tn0 =
     (let (token, tn) = tn_next tn0 in
      if token = Str ''option''
      then (case parseOption svc token tn of
              Inl e \<Rightarrow> Inl e
            | Inr (svc, tn) \<Rightarrow> parseService_loop name svc tn)
      else if token = Str ''rpc''
      then (case parseServiceRPC svc token tn of
              Inl e \<Rightarrow> Inl e
            | Inr (svc, tn) \<Rightarrow> parseService_loop name svc tn)
      else if token \<noteq> Str CLOSE
      then throw (''Illegal type for service '' @ name @ '' at line '' @ show_nat (line tn) @ '': '' @
             ToString token)
      else Inr (svc, tn))"
  by pat_completeness auto
termination
  by (relation "measure (\<lambda>(name, svc, tn). remaining tn)")
    (auto dest!: tn_next_Str_less_sym parseOption_less parseServiceRPC_le)

declare parseService_loop.simps [simp del]

definition parseService :: "jsval \<Rightarrow> jsval \<Rightarrow> tokenizer \<Rightarrow> (jsval \<times> tokenizer) result" where
  "parseService parent token0 tn0 =
     (let (token, tn) = tn_next tn0 in
      if \<not> test NAME token
      then throw (''Illegal service name at line '' @ show_nat (line tn) @ '': '' @ ToString token)
      else
        let name = token;
            svc = Obj [(''name'', name), (''rpc'', Obj []), (''options'', Obj [])];
            (token, tn) = tn_next tn in
        if token \<noteq> Str OPEN
        then throw (''Illegal OPEN after service '' @ ToString name @ '' at line '' @ show_nat (line tn) @
               '': '' @ ToString token @ '' ('' @ quoted OPEN @ '' expected)'')
        else
          (case parseService_loop (ToString name) svc tn of
             Inl e \<Rightarrow> Inl e
           | Inr (svc, tn) \<Rightarrow>
               (case js_push parent ''services'' svc of
                  Inl e \<Rightarrow> Inl e
                | Inr parent \<Rightarrow> Inr (parent, tn))))"

subsection \<open>Field options, enums and extension ranges\<close>

definition parseFieldOption ::
  "jsval \<Rightarrow> jsval \<Rightarrow> jsval \<Rightarrow> tokenizer \<Rightarrow> (jsval \<times> tokenizer) result" where
  "parseFieldOption msg fld token0 tn0 =
     (let owner = ToString (js_get msg ''name'') @ ''#'' @ ToString (js_get fld ''name'');
          custom = (token0 = Str COPTOPEN);
          (token, tn) = (if custom then tn_next tn0 else (token0, tn0)) in
      if \<not> test TYPEREF token
      then throw (''Illegal field option in message '' @ owner @ '' at line '' @ show_nat (line tn) @
             '': '' @ ToString token)
      else
        let name = token; (token, tn) = tn_next tn in
        if custom \<and> token \<noteq> Str COPTCLOSE
        then throw (''Illegal custom field option name delimiter in message '' @ owner @ '' at line '' @
               show_nat (line tn) @ '': '' @ ToString token @ '' ('' @ quoted '')'' @ '' expected)'')
        else
          let (name, token, tn) =
                (if custom
                 then (let name = Str (''('' @ ToString name @ '')''); (token, tn) = tn_next tn in
                       if test FQTYPEREF token
                       then (let name = Str (ToString name @ ToString token); (token, tn) = tn_next tn
                             in (name, token, tn))
                       else (name, token, tn))
                 else (name, token, tn)) in
          if token \<noteq> Str EQUAL
          then throw (''Illegal field option operation in message '' @ owner @ '' at line '' @
                 show_nat (line tn) @ '': '' @ ToString token @ '' ('' @ quoted ''='' @ '' expected)'')
          else
            let (token, tn) = tn_next tn in
            case
              (if token = Str STRINGOPEN \<or> token = Str STRINGOPEN_SQ
               then (let (val, tn) = tn_next tn; (token, tn) = tn_next tn in
                     if token \<noteq> Str (stringEndsWith tn)
                     then throw (''Illegal end of field value in message '' @ owner @ '', option '' @
                            ToString name @ '' at line '' @ show_nat (line tn) @ '': '' @ ToString token @
                            '' ('' @ quoted (stringEndsWith tn) @ '' expected)'')
                     else Inr (val, tn))
               else if test NUMBER token
               then (case parseNumber tn token of Inl e \<Rightarrow> Inl e | Inr n \<Rightarrow> Inr (Num n, tn))
               else if test BOOL token
               then (case js_toLowerCase token of
                       Inl e \<Rightarrow> Inl e
                     | Inr t \<Rightarrow> Inr (Bool (t = ''true''), tn))
               else if test TYPEREF token then Inr (token, tn)
               else throw (''Illegal field option value in message '' @ owner @ '', option '' @
                      ToString name @ '' at line '' @ show_nat (line tn) @ '': '' @ ToString token))
            of
              Inl e \<Rightarrow> Inl e
            | Inr (val, tn) \<Rightarrow>
                (case js_set2 fld ''options'' (ToString name) val of
                   Inl e \<Rightarrow> Inl e
                 | Inr fld \<Rightarrow> Inr (fld, tn)))"

lemma parseFieldOption_less:
  assumes "parseFieldOption msg fld token0 tn0 = Inr (fld', tn')"
  shows "remaining tn' < remaining tn0"
  using assms unfolding parseFieldOption_def Let_def throw_def
  by (auto split: prod.splits if_splits sum.splits dest!: tn_next_le tn_next_Str_less)

function parseFieldOptions_loop ::
  "jsval \<Rightarrow> jsval \<Rightarrow> bool \<Rightarrow> tokenizer \<Rightarrow> (jsval \<times> tokenizer) result" where
  "parseFieldOptions_loop msg fld first tn0 =
     (let (token, tn) = tn_next tn0 in
      if token = Str OPTCLOSE then Inr (fld, tn)
      else
        case
          (if token = Str OPTEND
           then (if first
                 then throw (''Illegal start of message field options in message '' @
                        ToString (js_get msg ''name'') @ ''#'' @ ToString (js_get fld ''name'') @
                        '' at line '' @ show_nat (line tn) @ '': '' @ ToString token)
                 else Inr (tn_next tn))
           else Inr (token, tn))
        of
          Inl e \<Rightarrow> Inl e
        | Inr (token, tn) \<Rightarrow>
            (case parseFieldOption msg fld token tn of
               Inl e \<Rightarrow> Inl e
             | Inr (fld, tn) \<Rightarrow> parseFieldOptions_loop msg fld False tn))"
  by pat_completeness auto
termination
  by (relation "measure (\<lambda>(msg, fld, first, tn). remaining tn)")
    (auto simp: throw_def split: if_splits dest!: tn_next_le_sym tn_next_le parseFieldOption_less)

declare parseFieldOptions_loop.simps [simp del]

definition parseFieldOptions ::
  "jsval \<Rightarrow> jsval \<Rightarrow> jsval \<Rightarrow> tokenizer \<Rightarrow> (jsval \<times> tokenizer) result" where
  "parseFieldOptions msg fld token0 tn0 = parseFieldOptions_loop msg fld True tn0"

lemma parseFieldOptions_loop_le:
  "parseFieldOptions_loop msg fld first tn0 = Inr (fld', tn') \<Longrightarrow> remaining tn' \<le> remaining tn0"
proof (induction msg fld first tn0 rule: parseFieldOptions_loop.induct)
  case (1 msg fld first tn0)
  obtain token tn where nx: "tn_next tn0 = (token, tn)" by (cases "tn_next tn0")
  show ?case
  proof (cases "token = Str OPTCLOSE")
    case True
    with "1.prems" nx have "tn' = tn"
      by (subst (asm) parseFieldOptions_loop.simps) simp
    with tn_next_le [OF nx] show ?thesis by simp
  next
    case False
    define pre where "pre =
      (if token = Str OPTEND
       then (if first
             then throw (''Illegal start of message field options in message '' @
                    ToString (js_get msg ''name'') @ ''#'' @ ToString (js_get fld ''name'') @
                    '' at line '' @ show_nat (line tn) @ '': '' @ ToString token)
             else Inr (tn_next tn))
       else Inr (token, tn))"
    from "1.prems" nx False obtain token2 tn2 f3 tn3 where
      pre: "pre = Inr (token2, tn2)"
      and fo: "parseFieldOption msg fld token2 tn2 = Inr (f3, tn3)"
      and rest: "parseFieldOptions_loop msg f3 False tn3 = Inr (fld', tn')"
      unfolding pre_def
      by (subst (asm) parseFieldOptions_loop.simps) (auto split: sum.splits)
    have le2: "remaining tn2 \<le> remaining tn"
      using pre unfolding pre_def throw_def
      by (cases "tn_next tn") (auto split: if_splits dest: tn_next_le)
    have "remaining tn' \<le> remaining tn3"
      using "1.IH" nx False pre fo rest unfolding pre_def by auto
    with parseFieldOption_less [OF fo] le2 tn_next_le [OF nx] show ?thesis by simp
  qed
qed

lemma parseFieldOptions_le:
  "parseFieldOptions msg fld token0 tn0 = Inr (fld', tn') \<Longrightarrow> remaining tn' \<le> remaining tn0"
  unfolding parseFieldOptions_def by (rule parseFieldOptions_loop_le)

definition parseEnumValue :: "jsval \<Rightarrow> jsval \<Rightarrow> tokenizer \<Rightarrow> (jsval \<times> tokenizer) result" where
  "parseEnumValue enm token0 tn0 =
     (let ename = ToString (js_get enm ''name'');
          val = Obj [(''name'', token0)];
          (token, tn) = tn_next tn0 in
      if token \<noteq> Str EQUAL
      then throw (''Illegal enum value operator in enum '' @ ename @ '' at line '' @ show_nat (line tn) @
             '': '' @ ToString token @ '' ('' @ quoted EQUAL @ '' expected)'')
      else
        let (token, tn) = tn_next tn in
        case parseId tn token True of
          Inl e \<Rightarrow> throw (''Illegal enum value id in enum '' @ ename @ '' at line '' @
                     show_nat (line tn) @ '': '' @ ToString token)
        | Inr id' \<Rightarrow>
            (case js_push enm ''values'' (js_set val ''id'' (Num (Fin id'))) of
               Inl e \<Rightarrow> Inl e
             | Inr enm \<Rightarrow>
                 let (token, tn) = tn_next tn in
                 (case
                    (if token = Str OPTOPEN
                     then (let opt = Obj [(''options'', Obj [])] in
                           case parseFieldOptions enm opt token tn of
                             Inl e \<Rightarrow> Inl e
                           | Inr (opt, tn) \<Rightarrow> Inr (tn_next tn))
                     else Inr (token, tn))
                  of
                    Inl e \<Rightarrow> Inl e
                  | Inr (token, tn) \<Rightarrow>
                      if token \<noteq> Str END
                      then throw (''Illegal enum value delimiter in enum '' @ ename @ '' at line '' @
                             show_nat (line tn) @ '': '' @ ToString token @
                             '' ('' @ quoted END @ '' expected)'')
                      else Inr (enm, tn))))"

lemma parseEnumValue_less:
  assumes "parseEnumValue enm token0 tn0 = Inr (enm', tn')"
  shows "remaining tn' < remaining tn0"
  using assms unfolding parseEnumValue_def Let_def throw_def
  by (auto split: prod.splits if_splits sum.splits
      dest!: tn_next_le tn_next_Str_less parseFieldOptions_le)

function parseEnum_loop :: "jsval \<Rightarrow> tokenizer \<Rightarrow> (jsval \<times> tokenizer) result" where
  "parseEnum_loop enm tn0 =
     (let (token, tn) = tn_next tn0 in
      if token = Str CLOSE then Inr (enm, skip_END tn)
      else if token = Str ''option''
      then (case parseOption enm token tn of
              Inl e \<Rightarrow> Inl e
            | Inr (enm, tn) \<Rightarrow> parseEnum_loop enm tn)
      else if \<not> test NAME token
      then throw (''Illegal enum value name in enum '' @ ToString (js_get enm ''name'') @ '' at line '' @
             show_nat (line tn) @ '': '' @ ToString token)
      else (case parseEnumValue enm token tn of
              Inl e \<Rightarrow> Inl e
            | Inr (enm, tn) \<Rightarrow> parseEnum_loop enm tn))"
  by pat_completeness auto
termination
  by (relation "measure (\<lambda>(enm, tn). remaining tn)")
    (auto dest!: tn_next_le_sym parseOption_less parseEnumValue_less)

declare parseEnum_loop.simps [simp del]

lemma parseEnum_loop_le:
  "parseEnum_loop enm tn0 = Inr (enm', tn') \<Longrightarrow> remaining tn' \<le> remaining tn0"
proof (induction enm tn0 rule: parseEnum_loop.induct)
  case (1 enm tn0)
  obtain token tn where nx: "tn_next tn0 = (token, tn)" by (cases "tn_next tn0")
  note le = tn_next_le [OF nx]
  consider (close) "token = Str CLOSE"
    | (opt) "token \<noteq> Str CLOSE" "token = Str ''option''"
    | (val) "token \<noteq> Str CLOSE" "token \<noteq> Str ''option''"
    by blast
  then show ?case
  proof cases
    case close
    with "1.prems" nx have "tn' = skip_END tn"
      by (subst (asm) parseEnum_loop.simps) simp
    with le skip_END_le [of tn] show ?thesis by simp
  next
    case opt
    with "1.prems" nx obtain e1 tn1 where po: "parseOption enm token tn = Inr (e1, tn1)"
      and rest: "parseEnum_loop e1 tn1 = Inr (enm', tn')"
      by (subst (asm) parseEnum_loop.simps) (auto split: sum.splits)
    have "remaining tn' \<le> remaining tn1"
      using "1.IH"(1) nx opt po rest by auto
    with parseOption_less [OF po] le show ?thesis by simp
  next
    case val
    with "1.prems" nx obtain e1 tn1 where nm: "test NAME token"
      and pv: "parseEnumValue enm token tn = Inr (e1, tn1)"
      and rest: "parseEnum_loop e1 tn1 = Inr (enm', tn')"
      by (subst (asm) parseEnum_loop.simps) (auto simp: throw_def split: sum.splits if_splits)
    have "remaining tn' \<le> remaining tn1"
      using "1.IH"(2) nx val nm pv rest by auto
    with parseEnumValue_less [OF pv] le show ?thesis by simp
  qed
qed

definition parseEnum :: "jsval \<Rightarrow> jsval \<Rightarrow> tokenizer \<Rightarrow> (jsval \<times> tokenizer) result" where
  "parseEnum msg token0 tn0 =
     (let (token, tn) = tn_next tn0 in
      if \<not> test NAME token
      then throw (''Illegal enum name in message '' @ ToString (js_get msg ''name'') @ '' at line '' @
             show_nat (line tn) @ '': '' @ ToString token)
      else
        let enm = Obj [(''name'', token)];
            (token, tn) = tn_next tn in
        if token \<noteq> Str OPEN
        then throw (''Illegal OPEN after enum '' @ ToString (js_get enm ''name'') @ '' at line '' @
               show_nat (line tn) @ '': '' @ ToString token)
        else
          let enm = js_set (js_set enm ''values'' (Arr [])) ''options'' (Obj []) in
          case parseEnum_loop enm tn of
            Inl e \<Rightarrow> Inl e
          | Inr (enm, tn) \<Rightarrow>
              (case js_push msg ''enums'' enm of
                 Inl e \<Rightarrow> Inl e
               | Inr msg \<Rightarrow> Inr (msg, tn)))"

lemma parseEnum_le:
  assumes "parseEnum msg token0 tn0 = Inr (msg', tn')"
  shows "remaining tn' \<le> remaining tn0"
  using assms unfolding parseEnum_def Let_def throw_def
  by (auto split: prod.splits if_splits sum.splits dest!: tn_next_le parseEnum_loop_le)

text \<open>
  Modelled from the spec: the constants \<^verbatim>\<open>ProtoBuf.ID_MIN\<close> and \<^verbatim>\<open>ProtoBuf.ID_MAX\<close> are not
  among the sources. They are the sentinels for the smallest and the largest field number
  of the language, \<open>1\<close> and \<open>2 ^ 29 - 1\<close>.
\<close>

definition ID_MIN :: jsval where "ID_MIN = Num (Fin 1)"
definition ID_MAX :: jsval where "ID_MAX = Num (Fin 536870911)"

definition parseExtensions_bound :: "jsval \<Rightarrow> tokenizer \<Rightarrow> jsval result" where
  "parseExtensions_bound token tn =
     (if token = Str ''min'' then Inr ID_MIN
      else if token = Str ''max'' then Inr ID_MAX
      else (case parseNumber tn token of Inl e \<Rightarrow> Inl e | Inr n \<Rightarrow> Inr (Num n)))"

definition parseExtensions :: "jsval \<Rightarrow> jsval \<Rightarrow> tokenizer \<Rightarrow> (jsval \<times> tokenizer) result" where
  "parseExtensions msg token0 tn0 =
     (let (token, tn) = tn_next tn0 in
      case parseExtensions_bound token tn of
        Inl e \<Rightarrow> Inl e
      | Inr lo \<Rightarrow>
          let (token, tn) = tn_next tn in
          if token \<noteq> Str ''to''
          then throw (''Illegal extensions delimiter in message '' @ ToString (js_get msg ''name'') @
                 '' at line '' @ show_nat (line tn) @ '' ('' @ quoted ''to'' @ '' expected)'')
          else
            let (token, tn) = tn_next tn in
            (case parseExtensions_bound token tn of
               Inl e \<Rightarrow> Inl e
             | Inr hi \<Rightarrow>
                 let (token, tn) = tn_next tn in
                 if token \<noteq> Str END
                 then throw (''Illegal extension delimiter in message '' @ ToString (js_get msg ''name'') @
                        '' at line '' @ show_nat (line tn) @ '': '' @ ToString token @
                        '' ('' @ quoted END @ '' expected)'')
                 else Inr (Arr [lo, hi], tn)))"

lemma parseExtensions_le:
  assumes "parseExtensions msg token0 tn0 = Inr (rng, tn')"
  shows "remaining tn' \<le> remaining tn0"
  using assms unfolding parseExtensions_def Let_def throw_def
  by (auto split: prod.splits if_splits sum.splits dest!: tn_next_le)

subsection \<open>Messages, groups, fields and extend blocks\<close>

text \<open>\<^verbatim>\<open>/^[A-Z]/.test(name)\<close>: the text starts with an upper-case letter.\<close>

definition starts_upper :: "string \<Rightarrow> bool" where
  "starts_upper s = (case s of [] \<Rightarrow> False | c # cs \<Rightarrow> is_upper c)"

text \<open>
  The part of \<^verbatim>\<open>_parseMessage\<close> before its loop: the name, for a group the id that is
  stored on the enclosing field \<open>fld\<close>, the empty collections, the field options that
  may follow a group's id, and the opening brace. It returns the field, the new message
  and the tokenizer.
\<close>

definition parseMessage_head ::
  "jsval \<Rightarrow> jsval \<Rightarrow> jsval \<Rightarrow> tokenizer \<Rightarrow> (jsval \<times> jsval \<times> tokenizer) result" where
  "parseMessage_head parent fld token0 tn0 =
     (let isGroup = (token0 = Str ''group'');
          kind = (if isGroup then ''group'' else ''message'');
          (token, tn) = tn_next tn0 in
      if \<not> test NAME token
      then throw (''Illegal '' @ kind @ '' name'' @
             (if truthy parent then '' in message '' @ ToString (js_get parent ''name'') else []) @
             '' at line '' @ show_nat (line tn) @ '': '' @ ToString token)
      else
        let msg = Obj [(''name'', token)] in
        case
          (if isGroup
           then (let (token, tn) = tn_next tn in
                 if token \<noteq> Str EQUAL
                 then throw (''Illegal id assignment after group '' @ ToString (js_get msg ''name'') @
                        '' at line '' @ show_nat (line tn) @ '': '' @ ToString token @
                        '' ('' @ quoted EQUAL @ '' expected)'')
                 else
                   let (token, tn) = tn_next tn in
                   (case parseId tn token False of
                      Inl e \<Rightarrow> throw (''Illegal field id value for group '' @
                                 ToString (js_get msg ''name'') @ ''#'' @ ToString (js_get fld ''name'') @
                                 '' at line '' @ show_nat (line tn) @ '': '' @ ToString token)
                    | Inr id' \<Rightarrow>
                        Inr (js_set fld ''id'' (Num (Fin id')), js_set msg ''isGroup'' (Bool True), tn)))
           else Inr (fld, msg, tn))
        of
          Inl e \<Rightarrow> Inl e
        | Inr (fld, msg, tn) \<Rightarrow>
            let msg = js_set (js_set (js_set (js_set msg ''fields'' (Arr [])) ''enums'' (Arr []))
                        ''messages'' (Arr [])) ''options'' (Obj []);
                (token, tn) = tn_next tn in
            (case
               (if token = Str OPTOPEN \<and> truthy fld
                then (case parseFieldOptions msg fld token tn of
                        Inl e \<Rightarrow> Inl e
                      | Inr (fld, tn) \<Rightarrow> (let (token, tn) = tn_next tn in Inr (fld, token, tn)))
                else Inr (fld, token, tn))
             of
               Inl e \<Rightarrow> Inl e
             | Inr (fld, token, tn) \<Rightarrow>
                 if token \<noteq> Str OPEN
                 then throw (''Illegal OPEN after '' @ kind @ '' '' @ ToString (js_get msg ''name'') @
                        '' at line '' @ show_nat (line tn) @ '': '' @ ToString token @
                        '' ('' @ quoted OPEN @ '' expected)'')
                 else Inr (fld, msg, tn)))"

lemma parseMessage_head_less:
  assumes "parseMessage_head parent fld token0 tn0 = Inr (fld', msg, tn')"
  shows "remaining tn' < remaining tn0"
  using assms unfolding parseMessage_head_def Let_def throw_def
  by (auto split: prod.splits if_splits sum.splits
      dest!: tn_next_le tn_next_Str_less parseFieldOptions_le)

text \<open>
  The branch of \<^verbatim>\<open>_parseMessageField\<close> for a field that is not a group: type, name, id,
  the optional field options and the terminator.
\<close>

definition parseMessageField_plain ::
  "jsval \<Rightarrow> jsval \<Rightarrow> jsval \<Rightarrow> tokenizer \<Rightarrow> (jsval \<times> jsval \<times> tokenizer) result" where
  "parseMessageField_plain msg fld token tn =
     (let owner = ToString (js_get msg ''name'') in
      if \<not> test TYPE_pat token \<and> \<not> test TYPEREF token
      then throw (''Illegal field type in message '' @ owner @ '' at line '' @ show_nat (line tn) @
             '': '' @ ToString token)
      else
        let fld = js_set fld ''type'' token;
            (token, tn) = tn_next tn in
        if \<not> test NAME token
        then throw (''Illegal field name in message '' @ owner @ '' at line '' @ show_nat (line tn) @
               '': '' @ ToString token)
        else
          let fld = js_set fld ''name'' token;
              owner = owner @ ''#'' @ ToString (js_get fld ''name'');
              (token, tn) = tn_next tn in
          if token \<noteq> Str EQUAL
          then throw (''Illegal field id assignment in message '' @ owner @ '' at line '' @
                 show_nat (line tn) @ '': '' @ ToString token @ '' ('' @ quoted EQUAL @ '' expected)'')
          else
            let (token, tn) = tn_next tn in
            (case parseId tn token False of
               Inl e \<Rightarrow> throw (''Illegal field id value in message '' @ owner @ '' at line '' @
                          show_nat (line tn) @ '': '' @ ToString token)
             | Inr id' \<Rightarrow>
                 let fld = js_set fld ''id'' (Num (Fin id'));
                     (token, tn) = tn_next tn in
                 (case
                    (if token = Str OPTOPEN
                     then (case parseFieldOptions msg fld token tn of
                             Inl e \<Rightarrow> Inl e
                           | Inr (fld, tn) \<Rightarrow>
                               (let (token, tn) = tn_next tn in Inr (fld, token, tn)))
                     else Inr (fld, token, tn))
                  of
                    Inl e \<Rightarrow> Inl e
                  | Inr (fld, token, tn) \<Rightarrow>
                      if token \<noteq> Str END
                      then throw (''Illegal field delimiter in message '' @ owner @ '' at line '' @
                             show_nat (line tn) @ '': '' @ ToString token @
                             '' ('' @ quoted END @ '' expected)'')
                      else Inr (msg, fld, tn))))"

lemma parseMessageField_plain_le:
  assumes "parseMessageField_plain msg fld token tn0 = Inr (msg', fld', tn')"
  shows "remaining tn' \<le> remaining tn0"
  using assms unfolding parseMessageField_plain_def Let_def throw_def
  by (auto split: prod.splits if_splits sum.splits dest!: tn_next_le parseFieldOptions_le)

text \<open>
  \<open>parseMessage\<close> returns the parent with the message pushed, the enclosing field of a
  group with its id and options set (\<^verbatim>\<open>null\<close> for a plain message), the message itself
  (the method's return value) and the tokenizer. \<open>parseExtend\<close> returns the parent and the
  tokenizer; no caller reads its return value.
\<close>

function parseMessage ::
    "jsval \<Rightarrow> jsval \<Rightarrow> jsval \<Rightarrow> tokenizer \<Rightarrow> (jsval \<times> jsval \<times> jsval \<times> tokenizer) result"
  and parseMessage_loop :: "jsval \<Rightarrow> tokenizer \<Rightarrow> (jsval \<times> tokenizer) result"
  and parseMessageField :: "jsval \<Rightarrow> jsval \<Rightarrow> tokenizer \<Rightarrow> (jsval \<times> tokenizer) result"
  and parseExtend :: "jsval \<Rightarrow> jsval \<Rightarrow> tokenizer \<Rightarrow> (jsval \<times> tokenizer) result"
  and parseExtend_loop :: "jsval \<Rightarrow> tokenizer \<Rightarrow> (jsval \<times> tokenizer) result"
where
  "parseMessage parent fld token0 tn0 =
     (case parseMessage_head parent fld token0 tn0 of
        Inl e \<Rightarrow> Inl e
      | Inr (fld, msg, tn) \<Rightarrow>
          (case parseMessage_loop msg tn of
             Inl e \<Rightarrow> Inl e
           | Inr (msg, tn) \<Rightarrow>
               (case js_push parent ''messages'' msg of
                  Inl e \<Rightarrow> Inl e
                | Inr parent \<Rightarrow> Inr (parent, fld, msg, tn))))"
| "parseMessage_loop msg tn0 =
     (let (token, tn) = tn_next tn0 in
      if token = Str CLOSE then Inr (msg, skip_END tn)
      else if test RULE token
      then (case parseMessageField msg token tn of
              Inl e \<Rightarrow> Inl e
            | Inr (msg, tn) \<Rightarrow> parseMessage_loop msg tn)
      else if token = Str ''enum''
      then (case parseEnum msg token tn of
              Inl e \<Rightarrow> Inl e
            | Inr (msg, tn) \<Rightarrow> parseMessage_loop msg tn)
      else if token = Str ''message''
      then (case parseMessage msg Null token tn of
              Inl e \<Rightarrow> Inl e
            | Inr (msg, fld, m, tn) \<Rightarrow> parseMessage_loop msg tn)
      else if token = Str ''option''
      then (case parseOption msg token tn of
              Inl e \<Rightarrow> Inl e
            | Inr (msg, tn) \<Rightarrow> parseMessage_loop msg tn)
      else if token = Str ''extensions''
      then (case parseExtensions msg token tn of
              Inl e \<Rightarrow> Inl e
            | Inr (rng, tn) \<Rightarrow> parseMessage_loop (js_set msg ''extensions'' rng) tn)
      else if token = Str ''extend''
      then (case parseExtend msg token tn of
              Inl e \<Rightarrow> Inl e
            | Inr (msg, tn) \<Rightarrow> parseMessage_loop msg tn)
      else throw (''Illegal token in message '' @ ToString (js_get msg ''name'') @ '' at line '' @
             show_nat (line tn) @ '': '' @ ToString token @
             '' (type or '' @ quoted CLOSE @ '' expected)''))"
| "parseMessageField msg token0 tn0 =
     (let fld = Obj [(''rule'', token0), (''options'', Obj [])];
          (token, tn) = tn_next tn0 in
      case
        (if token = Str ''group''
         then (case parseMessage msg fld token tn of
                 Inl e \<Rightarrow> Inl e
               | Inr (msg, fld, grp, tn) \<Rightarrow>
                   if \<not> test starts_upper (js_get grp ''name'')
                   then throw ''Group names must start with a capital letter''
                   else
                     (case js_toLowerCase (js_get grp ''name'') of
                        Inl e \<Rightarrow> Inl e
                      | Inr lname \<Rightarrow>
                          Inr (msg,
                               js_set (js_set fld ''type'' (js_get grp ''name'')) ''name'' (Str lname),
                               skip_END tn)))
         else parseMessageField_plain msg fld token tn)
      of
        Inl e \<Rightarrow> Inl e
      | Inr (msg, fld, tn) \<Rightarrow>
          (case js_push msg ''fields'' fld of
             Inl e \<Rightarrow> Inl e
           | Inr msg \<Rightarrow> Inr (msg, tn)))"
| "parseExtend parent token0 tn0 =
     (let (token, tn) = tn_next tn0 in
      if \<not> test TYPEREF token
      then throw (''Illegal extended message name at line '' @ show_nat (line tn) @ '': '' @
             ToString token)
      else
        let ext = Obj [(''ref'', token), (''fields'', Arr [])];
            (token, tn) = tn_next tn in
        if token \<noteq> Str OPEN
        then throw (''Illegal OPEN in extend '' @ ToString (js_get ext ''name'') @ '' at line '' @
               show_nat (line tn) @ '': '' @ ToString token @ '' ('' @ quoted OPEN @ '' expected)'')
        else
          (case parseExtend_loop ext tn of
             Inl e \<Rightarrow> Inl e
           | Inr (ext, tn) \<Rightarrow>
               (case js_push parent ''messages'' ext of
                  Inl e \<Rightarrow> Inl e
                | Inr parent \<Rightarrow> Inr (parent, tn))))"
| "parseExtend_loop ext tn0 =
     (let (token, tn) = tn_next tn0 in
      if token = Str CLOSE then Inr (ext, skip_END tn)
      else if test RULE token
      then (case parseMessageField ext token tn of
              Inl e \<Rightarrow> Inl e
            | Inr (ext, tn) \<Rightarrow> parseExtend_loop ext tn)
      else throw (''Illegal token in extend '' @ ToString (js_get ext ''name'') @ '' at line '' @
             show_nat (line tn) @ '': '' @ ToString token @
             '' (rule or '' @ quoted CLOSE @ '' expected)''))"
  by pat_completeness auto


lemma test_RULE_Null [simp]: "\<not> test RULE Null"
  by (simp add: test_def RULE_def)

lemma parse_block_le:
  "parseMessage_parseMessage_loop_parseMessageField_parseExtend_parseExtend_loop_dom
     (Inl (Inl (parent, fld, token0, tn0))) \<Longrightarrow>
   parseMessage parent fld token0 tn0 = Inr (p1, f1, m1, tn1) \<Longrightarrow> remaining tn1 \<le> remaining tn0"
  "parseMessage_parseMessage_loop_parseMessageField_parseExtend_parseExtend_loop_dom
     (Inl (Inr (msg, tn0))) \<Longrightarrow>
   parseMessage_loop msg tn0 = Inr (m2, tn2) \<Longrightarrow> remaining tn2 \<le> remaining tn0"
  "parseMessage_parseMessage_loop_parseMessageField_parseExtend_parseExtend_loop_dom
     (Inr (Inl (msg, token0, tn0))) \<Longrightarrow>
   parseMessageField msg token0 tn0 = Inr (m3, tn3) \<Longrightarrow> remaining tn3 \<le> remaining tn0"
  "parseMessage_parseMessage_loop_parseMessageField_parseExtend_parseExtend_loop_dom
     (Inr (Inr (Inl (parent, token0, tn0)))) \<Longrightarrow>
   parseExtend parent token0 tn0 = Inr (p4, tn4) \<Longrightarrow> remaining tn4 \<le> remaining tn0"
  "parseMessage_parseMessage_loop_parseMessageField_parseExtend_parseExtend_loop_dom
     (Inr (Inr (Inr (ext, tn0)))) \<Longrightarrow>
   parseExtend_loop ext tn0 = Inr (e5, tn5) \<Longrightarrow> remaining tn5 \<le> remaining tn0"
proof (induction parent fld token0 tn0 and msg tn0 and msg token0 tn0 and parent token0 tn0 and ext tn0
    arbitrary: p1 f1 m1 tn1 and m2 tn2 and m3 tn3 and p4 tn4 and e5 tn5
    rule: parseMessage_parseMessage_loop_parseMessageField_parseExtend_parseExtend_loop.pinduct)
  case (1 parent fld token0 tn0)
  from "1.prems" "1.hyps" obtain f a tn b where
    h: "parseMessage_head parent fld token0 tn0 = Inr (f, a, tn)"
    and l: "parseMessage_loop a tn = Inr (b, tn1)"
    by (auto simp: parseMessage.psimps split: sum.splits)
  have "remaining tn1 \<le> remaining tn"
    using "1.IH" h l by auto
  with parseMessage_head_less [OF h] show ?case by simp
next
  case (2 msg tn0)
  obtain token tn where nx: "tn_next tn0 = (token, tn)" by (cases "tn_next tn0")
  note le = tn_next_le [OF nx]
  note eq = "2.prems" [unfolded parseMessage_loop.psimps [OF "2.hyps"] nx Let_def prod.case]
  consider (close) "token = Str CLOSE"
    | (field) "token \<noteq> Str CLOSE" "test RULE token"
    | (enum) "token \<noteq> Str CLOSE" "\<not> test RULE token" "token = Str ''enum''"
    | (message) "token \<noteq> Str CLOSE" "\<not> test RULE token" "token \<noteq> Str ''enum''"
        "token = Str ''message''"
    | (option) "token \<noteq> Str CLOSE" "\<not> test RULE token" "token \<noteq> Str ''enum''"
        "token \<noteq> Str ''message''" "token = Str ''option''"
    | (extensions) "token \<noteq> Str CLOSE" "\<not> test RULE token" "token \<noteq> Str ''enum''"
        "token \<noteq> Str ''message''" "token \<noteq> Str ''option''" "token = Str ''extensions''"
    | (extend) "token \<noteq> Str CLOSE" "\<not> test RULE token" "token \<noteq> Str ''enum''"
        "token \<noteq> Str ''message''" "token \<noteq> Str ''option''" "token \<noteq> Str ''extensions''"
        "token = Str ''extend''"
    | (other) "token \<noteq> Str CLOSE" "\<not> test RULE token" "token \<noteq> Str ''enum''"
        "token \<noteq> Str ''message''" "token \<noteq> Str ''option''" "token \<noteq> Str ''extensions''"
        "token \<noteq> Str ''extend''"
    by blast
  then show ?case
  proof cases
    case close
    with eq have "tn2 = skip_END tn" by simp
    with le skip_END_le [of tn] show ?thesis by simp
  next
    case field
    with eq obtain a ta where c: "parseMessageField msg token tn = Inr (a, ta)"
      and r: "parseMessage_loop a ta = Inr (m2, tn2)"
      by (auto split: sum.splits)
    have "remaining ta \<le> remaining tn"
      using "2.IH"(1) [OF nx [symmetric] refl field c] .
    moreover have "remaining tn2 \<le> remaining ta"
      using "2.IH"(2) [OF nx [symmetric] refl field c refl r] .
    ultimately show ?thesis using le by simp
  next
    case enum
    with eq obtain a ta where c: "parseEnum msg token tn = Inr (a, ta)"
      and r: "parseMessage_loop a ta = Inr (m2, tn2)"
      by (auto split: sum.splits)
    have "remaining tn2 \<le> remaining ta"
      using "2.IH"(3) [OF nx [symmetric] refl enum c refl r] .
    with parseEnum_le [OF c] show ?thesis using le by simp
  next
    case message
    with eq obtain a f m ta where c: "parseMessage msg Null token tn = Inr (a, f, m, ta)"
      and r: "parseMessage_loop a ta = Inr (m2, tn2)"
      by (auto split: sum.splits)
    have "remaining ta \<le> remaining tn"
      using "2.IH"(4) [OF nx [symmetric] refl message c] .
    moreover have "remaining tn2 \<le> remaining ta"
      using "2.IH"(5) [OF nx [symmetric] refl message c refl refl refl r] .
    ultimately show ?thesis using le by simp
  next
    case option
    with eq obtain a ta where c: "parseOption msg token tn = Inr (a, ta)"
      and r: "parseMessage_loop a ta = Inr (m2, tn2)"
      by (auto split: sum.splits)
    have "remaining tn2 \<le> remaining ta"
      using "2.IH"(6) [OF nx [symmetric] refl option c refl r] .
    with parseOption_less [OF c] show ?thesis using le by simp
  next
    case extensions
    with eq obtain a ta where c: "parseExtensions msg token tn = Inr (a, ta)"
      and r: "parseMessage_loop (js_set msg ''extensions'' a) ta = Inr (m2, tn2)"
      by (auto split: sum.splits)
    have "remaining tn2 \<le> remaining ta"
      using "2.IH"(7) [OF nx [symmetric] refl extensions c refl r] .
    with parseExtensions_le [OF c] show ?thesis using le by simp
  next
    case extend
    with eq obtain a ta where c: "parseExtend msg token tn = Inr (a, ta)"
      and r: "parseMessage_loop a ta = Inr (m2, tn2)"
      by (auto split: sum.splits)
    have "remaining ta \<le> remaining tn"
      using "2.IH"(8) [OF nx [symmetric] refl extend c] .
    moreover have "remaining tn2 \<le> remaining ta"
      using "2.IH"(9) [OF nx [symmetric] refl extend c refl r] .
    ultimately show ?thesis using le by simp
  next
    case other
    with eq show ?thesis by (simp add: throw_def)
  qed
next
  case (3 msg token0 tn0)
  obtain token tn where nx: "tn_next tn0 = (token, tn)" by (cases "tn_next tn0")
  note le = tn_next_le [OF nx]
  note eq = "3.prems" [unfolded parseMessageField.psimps [OF "3.hyps"] nx Let_def prod.case]
  show ?case
  proof (cases "token = Str ''group''")
    case True
    with eq obtain a f g ta where
      c: "parseMessage msg (Obj [(''rule'', token0), (''options'', Obj [])]) token tn = Inr (a, f, g, ta)"
      and t: "tn3 = skip_END ta"
      by (auto simp: throw_def split: sum.splits if_splits)
    have "remaining ta \<le> remaining tn"
      using "3.IH" [OF refl nx [symmetric] refl True c] .
    with le skip_END_le [of ta] show ?thesis by (simp add: t)
  next
    case False
    with eq obtain a f where
      c: "parseMessageField_plain msg (Obj [(''rule'', token0), (''options'', Obj [])]) token tn =
            Inr (a, f, tn3)"
      by (auto split: sum.splits)
    from parseMessageField_plain_le [OF c] le show ?thesis by simp
  qed
next
  case (4 parent token0 tn0)
  obtain token tn where nx: "tn_next tn0 = (token, tn)" by (cases "tn_next tn0")
  obtain token' tn' where nx': "tn_next tn = (token', tn')" by (cases "tn_next tn")
  note eq = "4.prems" [unfolded parseExtend.psimps [OF "4.hyps"] nx nx' Let_def prod.case]
  from eq have ty: "test TYPEREF token" and op: "token' = Str OPEN"
    by (auto simp: throw_def split: if_splits)
  with eq obtain e where
    l: "parseExtend_loop (Obj [(''ref'', token), (''fields'', Arr [])]) tn' = Inr (e, tn4)"
    by (auto split: sum.splits)
  have "remaining tn4 \<le> remaining tn'"
    using "4.IH" [OF nx [symmetric] refl _ refl nx' [symmetric] refl _ l] ty op by simp
  with tn_next_le [OF nx] tn_next_le [OF nx'] show ?case by simp
next
  case (5 ext tn0)
  obtain token tn where nx: "tn_next tn0 = (token, tn)" by (cases "tn_next tn0")
  note le = tn_next_le [OF nx]
  note eq = "5.prems" [unfolded parseExtend_loop.psimps [OF "5.hyps"] nx Let_def prod.case]
  consider (close) "token = Str CLOSE"
    | (field) "token \<noteq> Str CLOSE" "test RULE token"
    | (other) "token \<noteq> Str CLOSE" "\<not> test RULE token"
    by blast
  then show ?case
  proof cases
    case close
    with eq have "tn5 = skip_END tn" by simp
    with le skip_END_le [of tn] show ?thesis by simp
  next
    case field
    with eq obtain a ta where c: "parseMessageField ext token tn = Inr (a, ta)"
      and r: "parseExtend_loop a ta = Inr (e5, tn5)"
      by (auto split: sum.splits)
    have "remaining ta \<le> remaining tn"
      using "5.IH"(1) [OF nx [symmetric] refl field c] .
    moreover have "remaining tn5 \<le> remaining ta"
      using "5.IH"(2) [OF nx [symmetric] refl field c refl r] .
    ultimately show ?thesis using le by simp
  next
    case other
    with eq show ?thesis by (simp add: throw_def)
  qed
qed


lemma RULE_less: "(t, tn') = tn_next tn \<Longrightarrow> test RULE t \<Longrightarrow> remaining tn' < remaining tn"
  by (rule tn_next_less_sym) auto

lemma parse_block_dom:
  "All parseMessage_parseMessage_loop_parseMessageField_parseExtend_parseExtend_loop_dom"
proof (relation "measure (\<lambda>x. case x of
      Inl (Inl (parent, fld, token0, tn)) \<Rightarrow> remaining tn
    | Inl (Inr (msg, tn)) \<Rightarrow> remaining tn
    | Inr (Inl (msg, token0, tn)) \<Rightarrow> remaining tn
    | Inr (Inr (Inl (parent, token0, tn))) \<Rightarrow> remaining tn
    | Inr (Inr (Inr (ext, tn))) \<Rightarrow> remaining tn)", goal_cases)
  case 1
  show ?case by simp
next
  case 2
  then show ?case by (auto dest: parseMessage_head_less)
next
  case (3 msg tn0 x xa y)
  then have nx: "tn_next tn0 = (xa, y)" and "xa \<noteq> Null" by auto
  with tn_next_less [OF nx] show ?case by simp
next
  case (4 msg tn0 x xa y b xb ya)
  have "remaining ya \<le> remaining y"
    using parse_block_le(3) [OF 4(7), of xb ya] 4(5,6) by simp
  moreover have "remaining y < remaining tn0"
    using RULE_less [of xa y tn0] 4(1,2,4) by simp
  ultimately show ?case by simp
next
  case 5
  then show ?case by (auto dest!: tn_next_Str_less_sym parseEnum_le)
next
  case (6 msg tn0 x xa y)
  then have nx: "tn_next tn0 = (xa, y)" and "xa \<noteq> Null" by auto
  with tn_next_less [OF nx] show ?case by simp
next
  case (7 msg tn0 x xa y b xb ya xc yb xd yc)
  have "remaining yc \<le> remaining y"
    using parse_block_le(1) [OF 7(11), of xb xc xd yc] 7(7-10) by simp
  moreover have "remaining y < remaining tn0"
    using tn_next_Str_less_sym [of "''message''" y tn0] 7(1,2,6) by simp
  ultimately show ?case by simp
next
  case 8
  then show ?case by (auto dest!: tn_next_Str_less_sym parseOption_less)
next
  case 9
  then show ?case by (auto dest!: tn_next_Str_less_sym parseExtensions_le)
next
  case (10 msg tn0 x xa y)
  then have nx: "tn_next tn0 = (xa, y)" and "xa \<noteq> Null" by auto
  with tn_next_less [OF nx] show ?case by simp
next
  case (11 msg tn0 x xa y b xb ya)
  have "remaining ya \<le> remaining y"
    using parse_block_le(4) [OF 11(12), of xb ya] 11(10,11) by simp
  moreover have "remaining y < remaining tn0"
    using tn_next_Str_less_sym [of "''extend''" y tn0] 11(1,2,9) by simp
  ultimately show ?case by simp
next
  case (12 msg token0 tn0 x xa xb y)
  then have nx: "tn_next tn0 = (xb, y)" and "xb \<noteq> Null" by auto
  with tn_next_less [OF nx] show ?case by simp
next
  case (13 parent token0 tn0 x xa y xb xc xd ya)
  then have nx: "tn_next tn0 = (xa, y)" and nx': "tn_next y = (xd, ya)" and "xd \<noteq> Null"
    by auto
  with tn_next_le [OF nx] tn_next_less [OF nx'] show ?case by simp
next
  case (14 ext tn0 x xa y)
  then have nx: "tn_next tn0 = (xa, y)" and "xa \<noteq> Null" by auto
  with tn_next_less [OF nx] show ?case by simp
next
  case (15 ext tn0 x xa y b xb ya)
  have "remaining ya \<le> remaining y"
    using parse_block_le(3) [OF 15(7), of xb ya] 15(5,6) by simp
  moreover have "remaining y < remaining tn0"
    using RULE_less [of xa y tn0] 15(1,2,4) by simp
  ultimately show ?case by simp
qed


termination parseMessage
  by (rule parse_block_dom)

declare parseMessage.simps [simp del] parseMessage_loop.simps [simp del]
  parseMessageField.simps [simp del] parseExtend.simps [simp del] parseExtend_loop.simps [simp del]

lemma parseMessage_le:
  "parseMessage parent fld token0 tn0 = Inr (parent', fld', msg, tn') \<Longrightarrow>
   remaining tn' \<le> remaining tn0"
  by (rule parse_block_le(1) [OF parse_block_dom [THEN spec]])

lemma parseExtend_le:
  "parseExtend parent token0 tn0 = Inr (parent', tn') \<Longrightarrow> remaining tn' \<le> remaining tn0"
  by (rule parse_block_le(4) [OF parse_block_dom [THEN spec]])


subsection \<open>The top level\<close>

lemma parsePackage_le:
  assumes "parsePackage token0 tn0 = Inr (pkg, tn')"
  shows "remaining tn' \<le> remaining tn0"
  using assms unfolding parsePackage_def Let_def throw_def
  by (auto split: prod.splits if_splits dest!: tn_next_le)

lemma parseImport_le:
  assumes "parseImport token0 tn0 = Inr (imported, tn')"
  shows "remaining tn' \<le> remaining tn0"
  using assms unfolding parseImport_def Let_def throw_def
  by (auto split: prod.splits if_splits dest!: tn_next_le)

lemma parseIgnoredStatement_le:
  "parseIgnoredStatement parent keyword tn0 = Inr tn' \<Longrightarrow> remaining tn' \<le> remaining tn0"
proof (induction parent keyword tn0 rule: parseIgnoredStatement.induct)
  case (1 parent keyword tn0)
  obtain token tn where nx: "tn_next tn0 = (token, tn)" by (cases "tn_next tn0")
  note eq = "1.prems" [unfolded parseIgnoredStatement.simps [of parent keyword tn0] nx Let_def prod.case]
  show ?case
  proof (cases "token = Null \<or> token = Str END")
    case True
    with eq have "tn' = tn" by (auto simp: throw_def split: if_splits)
    with tn_next_le [OF nx] show ?thesis by simp
  next
    case False
    with eq have r: "parseIgnoredStatement parent keyword tn = Inr tn'" by simp
    have "remaining tn' \<le> remaining tn"
      using "1.IH" [OF nx [symmetric] refl _ _ r] False by simp
    with tn_next_le [OF nx] show ?thesis by simp
  qed
qed

lemma parseService_loop_le:
  "parseService_loop name svc tn0 = Inr (svc', tn') \<Longrightarrow> remaining tn' \<le> remaining tn0"
proof (induction name svc tn0 rule: parseService_loop.induct)
  case (1 name svc tn0)
  obtain token tn where nx: "tn_next tn0 = (token, tn)" by (cases "tn_next tn0")
  note le = tn_next_le [OF nx]
  note eq = "1.prems" [unfolded parseService_loop.simps [of name svc tn0] nx Let_def prod.case]
  consider (opt) "token = Str ''option''"
    | (rpc) "token \<noteq> Str ''option''" "token = Str ''rpc''"
    | (other) "token \<noteq> Str ''option''" "token \<noteq> Str ''rpc''"
    by blast
  then show ?case
  proof cases
    case opt
    with eq obtain a ta where c: "parseOption svc token tn = Inr (a, ta)"
      and r: "parseService_loop name a ta = Inr (svc', tn')"
      by (auto split: sum.splits)
    have "remaining tn' \<le> remaining ta"
      using "1.IH"(1) [OF nx [symmetric] refl opt c refl r] .
    with parseOption_less [OF c] le show ?thesis by simp
  next
    case rpc
    with eq obtain a ta where c: "parseServiceRPC svc token tn = Inr (a, ta)"
      and r: "parseService_loop name a ta = Inr (svc', tn')"
      by (auto split: sum.splits)
    have "remaining tn' \<le> remaining ta"
      using "1.IH"(2) [OF nx [symmetric] refl rpc c refl r] .
    with parseServiceRPC_le [OF c] le show ?thesis by simp
  next
    case other
    with eq have "tn' = tn" by (auto simp: throw_def split: if_splits)
    with le show ?thesis by simp
  qed
qed

lemma parseService_le:
  assumes "parseService parent token0 tn0 = Inr (parent', tn')"
  shows "remaining tn' \<le> remaining tn0"
  using assms unfolding parseService_def Let_def throw_def
  by (auto split: prod.splits if_splits sum.splits dest!: tn_next_le parseService_loop_le)

lemma truthy_less: "(t, tn') = tn_next tn \<Longrightarrow> truthy t \<Longrightarrow> remaining tn' < remaining tn"
  by (rule tn_next_less_sym) auto

function parse_loop :: "jsval \<Rightarrow> bool \<Rightarrow> tokenizer \<Rightarrow> jsval result" where
  "parse_loop topLevel header tn0 =
     (let (token, tn) = tn_next tn0 in
      if \<not> truthy token then Inr topLevel
      else if token = Str ''package''
      then (if \<not> header \<or> js_get topLevel ''package'' \<noteq> Null
            then throw (''Illegal package at line '' @ show_nat (line tn))
            else (case parsePackage token tn of
                    Inl e \<Rightarrow> Inl e
                  | Inr (pkg, tn) \<Rightarrow> parse_loop (js_set topLevel ''package'' pkg) header tn))
      else if token = Str ''import''
      then (if \<not> header
            then throw (''Illegal import at line '' @ show_nat (line tn))
            else (case parseImport token tn of
                    Inl e \<Rightarrow> Inl e
                  | Inr (imported, tn) \<Rightarrow>
                      (case js_push topLevel ''imports'' imported of
                         Inl e \<Rightarrow> Inl e
                       | Inr topLevel \<Rightarrow> parse_loop topLevel header tn)))
      else if token = Str ''message''
      then (case parseMessage topLevel Null token tn of
              Inl e \<Rightarrow> Inl e
            | Inr (topLevel, fld, msg, tn) \<Rightarrow> parse_loop topLevel False tn)
      else if token = Str ''enum''
      then (case parseEnum topLevel token tn of
              Inl e \<Rightarrow> Inl e
            | Inr (topLevel, tn) \<Rightarrow> parse_loop topLevel False tn)
      else if token = Str ''option''
      then (if \<not> header
            then throw (''Illegal option at line '' @ show_nat (line tn))
            else (case parseOption topLevel token tn of
                    Inl e \<Rightarrow> Inl e
                  | Inr (topLevel, tn) \<Rightarrow> parse_loop topLevel header tn))
      else if token = Str ''service''
      then (case parseService topLevel token tn of
              Inl e \<Rightarrow> Inl e
            | Inr (topLevel, tn) \<Rightarrow> parse_loop topLevel header tn)
      else if token = Str ''extend''
      then (case parseExtend topLevel token tn of
              Inl e \<Rightarrow> Inl e
            | Inr (topLevel, tn) \<Rightarrow> parse_loop topLevel header tn)
      else if token = Str ''syntax''
      then (case parseIgnoredStatement topLevel token tn of
              Inl e \<Rightarrow> Inl e
            | Inr tn \<Rightarrow> parse_loop topLevel header tn)
      else throw (''Illegal token at line '' @ show_nat (line tn) @ '': '' @ ToString token))"
  by pat_completeness auto
termination
  by (relation "measure (\<lambda>(topLevel, header, tn). remaining tn)")
    (auto dest!: tn_next_Str_less_sym parsePackage_le parseImport_le parseMessage_le parseEnum_le
      parseOption_less parseService_le parseExtend_le parseIgnoredStatement_le)

declare parse_loop.simps [simp del]

definition topLevel_init :: jsval where
  "topLevel_init =
     Obj [(''name'', Str ''[ROOT]''), (''package'', Null), (''messages'', Arr []), (''enums'', Arr []),
          (''imports'', Arr []), (''options'', Obj []), (''services'', Arr [])]"

definition parse :: "tokenizer \<Rightarrow> jsval result" where
  "parse tn =
     (case parse_loop topLevel_init True tn of
        Inl e \<Rightarrow> Inl e
      | Inr topLevel \<Rightarrow> Inr (js_delete topLevel ''name''))"

subsection \<open>What the methods leave unchanged\<close>

lemma parseMessageField_le:
  "parseMessageField msg token0 tn0 = Inr (msg', tn') \<Longrightarrow> remaining tn' \<le> remaining tn0"
  by (rule parse_block_le(3) [OF parse_block_dom [THEN spec]])

lemma js_get_js_set_other:
  "k \<noteq> k' \<Longrightarrow> k' \<noteq> ''__proto__'' \<Longrightarrow> js_get (js_set obj k' v) k = js_get obj k"
  by (cases obj) (auto simp: update_conv' split: option.splits)

text \<open>
  The key \<^verbatim>\<open>__proto__\<close>: a primitive value written under it changes nothing, an object
  written under it becomes the prototype, whose properties a read then finds.
\<close>

lemma js_set_proto:
  "js_set2 (Obj [(''options'', Obj [])]) ''options'' ''__proto__'' (Num (Fin 1)) =
     Inr (Obj [(''options'', Obj [])]) \<and>
   js_get (js_set (Obj []) ''__proto__'' (Obj [(''request'', Str ''A'')])) ''request'' = Str ''A'' \<and>
   js_get (js_set (Obj []) ''__proto__'' (Str ''A'')) ''__proto__'' = Undefined"
  by (simp add: js_set2_def)

lemma js_push_other:
  "js_push obj k' v = Inr obj' \<Longrightarrow> k \<noteq> k' \<Longrightarrow> k' \<noteq> ''__proto__'' \<Longrightarrow>
   js_get obj' k = js_get obj k"
  by (auto simp: js_push_def js_get_js_set_other split: jsval.splits)

lemma js_set2_other:
  "js_set2 obj k' k2 v = Inr obj' \<Longrightarrow> k \<noteq> k' \<Longrightarrow> k' \<noteq> ''__proto__'' \<Longrightarrow>
   js_get obj' k = js_get obj k"
  by (auto simp: js_set2_def js_get_js_set_other split: jsval.splits)

lemma parseOption_keeps:
  assumes "parseOption parent token0 tn0 = Inr (parent', tn')" and "k \<noteq> ''options''"
  shows "js_get parent' k = js_get parent k"
  using assms unfolding parseOption_def Let_def throw_def
  by (auto split: prod.splits if_splits sum.splits dest!: js_set2_other)

lemma parseEnum_keeps:
  assumes "parseEnum msg token0 tn0 = Inr (msg', tn')" and "k \<noteq> ''enums''"
  shows "js_get msg' k = js_get msg k"
  using assms unfolding parseEnum_def Let_def throw_def
  by (auto split: prod.splits if_splits sum.splits dest!: js_push_other)

lemma parseService_keeps:
  assumes "parseService parent token0 tn0 = Inr (parent', tn')" and "k \<noteq> ''services''"
  shows "js_get parent' k = js_get parent k"
  using assms unfolding parseService_def Let_def throw_def
  by (auto split: prod.splits if_splits sum.splits dest!: js_push_other)

lemma parseMessage_keeps:
  assumes "parseMessage parent fld token0 tn0 = Inr (parent', fld', msg, tn')" and "k \<noteq> ''messages''"
  shows "js_get parent' k = js_get parent k"
  using assms unfolding parseMessage.simps [of parent fld token0 tn0]
  by (auto split: prod.splits sum.splits dest!: js_push_other)

lemma parseExtend_keeps:
  assumes "parseExtend parent token0 tn0 = Inr (parent', tn')" and "k \<noteq> ''messages''"
  shows "js_get parent' k = js_get parent k"
  using assms unfolding parseExtend.simps [of parent token0 tn0] Let_def throw_def
  by (auto split: prod.splits if_splits sum.splits dest!: js_push_other)

lemma parseMessageField_keeps:
  assumes "parseMessageField msg token0 tn0 = Inr (msg', tn')"
    and "k \<noteq> ''messages''" and "k \<noteq> ''fields''"
  shows "js_get msg' k = js_get msg k"
proof -
  obtain token tn where nx: "tn_next tn0 = (token, tn)" by (cases "tn_next tn0")
  note eq = assms(1) [unfolded parseMessageField.simps [of msg token0 tn0] nx Let_def prod.case]
  show ?thesis
  proof (cases "token = Str ''group''")
    case True
    with eq obtain a f g ta fld where
      c: "parseMessage msg (Obj [(''rule'', token0), (''options'', Obj [])]) token tn = Inr (a, f, g, ta)"
      and p: "js_push a ''fields'' fld = Inr msg'"
      by (auto simp: throw_def split: sum.splits if_splits)
    from p assms(3) have "js_get msg' k = js_get a k" by (auto dest: js_push_other)
    with parseMessage_keeps [OF c assms(2)] show ?thesis by simp
  next
    case False
    with eq obtain a f ta where
      c: "parseMessageField_plain msg (Obj [(''rule'', token0), (''options'', Obj [])]) token tn =
            Inr (a, f, ta)"
      and p: "js_push a ''fields'' f = Inr msg'"
      by (auto split: sum.splits)
    from c have "a = msg"
      unfolding parseMessageField_plain_def Let_def throw_def
      by (auto split: prod.splits if_splits sum.splits)
    with p assms(3) show ?thesis by (auto dest: js_push_other)
  qed
qed

lemma parseMessage_loop_keeps:
  "parseMessage_loop msg tn0 = Inr (msg', tn') \<Longrightarrow>
   k \<notin> {''fields'', ''enums'', ''messages'', ''options'', ''extensions''} \<Longrightarrow>
   js_get msg' k = js_get msg k"
proof (induction "remaining tn0" arbitrary: msg tn0 rule: less_induct)
  case less
  obtain token tn where nx: "tn_next tn0 = (token, tn)" by (cases "tn_next tn0")
  note le = tn_next_le [OF nx]
  note eq = less.prems(1) [unfolded parseMessage_loop.simps [of msg tn0] nx Let_def prod.case]
  from less.prems(2) have k: "k \<noteq> ''fields''" "k \<noteq> ''enums''" "k \<noteq> ''messages''"
    "k \<noteq> ''options''" "k \<noteq> ''extensions''" by auto
  consider (close) "token = Str CLOSE"
    | (field) "token \<noteq> Str CLOSE" "test RULE token"
    | (enum) "token \<noteq> Str CLOSE" "\<not> test RULE token" "token = Str ''enum''"
    | (message) "token \<noteq> Str CLOSE" "\<not> test RULE token" "token \<noteq> Str ''enum''"
        "token = Str ''message''"
    | (option) "token \<noteq> Str CLOSE" "\<not> test RULE token" "token \<noteq> Str ''enum''"
        "token \<noteq> Str ''message''" "token = Str ''option''"
    | (extensions) "token \<noteq> Str CLOSE" "\<not> test RULE token" "token \<noteq> Str ''enum''"
        "token \<noteq> Str ''message''" "token \<noteq> Str ''option''" "token = Str ''extensions''"
    | (extend) "token \<noteq> Str CLOSE" "\<not> test RULE token" "token \<noteq> Str ''enum''"
        "token \<noteq> Str ''message''" "token \<noteq> Str ''option''" "token \<noteq> Str ''extensions''"
        "token = Str ''extend''"
    | (other) "token \<noteq> Str CLOSE" "\<not> test RULE token" "token \<noteq> Str ''enum''"
        "token \<noteq> Str ''message''" "token \<noteq> Str ''option''" "token \<noteq> Str ''extensions''"
        "token \<noteq> Str ''extend''"
    by blast
  then show ?case
  proof cases
    case close
    with eq show ?thesis by simp
  next
    case field
    with eq obtain a ta where c: "parseMessageField msg token tn = Inr (a, ta)"
      and r: "parseMessage_loop a ta = Inr (msg', tn')"
      by (auto split: sum.splits)
    have "remaining ta < remaining tn0"
      using parseMessageField_le [OF c] RULE_less [OF nx [symmetric] field(2)] by simp
    from less.hyps [OF this r less.prems(2)] parseMessageField_keeps [OF c k(3) k(1)]
    show ?thesis by simp
  next
    case enum
    with eq obtain a ta where c: "parseEnum msg token tn = Inr (a, ta)"
      and r: "parseMessage_loop a ta = Inr (msg', tn')"
      by (auto split: sum.splits)
    have "remaining ta < remaining tn0"
      using parseEnum_le [OF c] tn_next_less [OF nx] enum by simp
    from less.hyps [OF this r less.prems(2)] parseEnum_keeps [OF c k(2)]
    show ?thesis by simp
  next
    case message
    with eq obtain a f m ta where c: "parseMessage msg Null token tn = Inr (a, f, m, ta)"
      and r: "parseMessage_loop a ta = Inr (msg', tn')"
      by (auto split: sum.splits)
    have "remaining ta < remaining tn0"
      using parseMessage_le [OF c] tn_next_less [OF nx] message by simp
    from less.hyps [OF this r less.prems(2)] parseMessage_keeps [OF c k(3)]
    show ?thesis by simp
  next
    case option
    with eq obtain a ta where c: "parseOption msg token tn = Inr (a, ta)"
      and r: "parseMessage_loop a ta = Inr (msg', tn')"
      by (auto split: sum.splits)
    have "remaining ta < remaining tn0"
      using parseOption_less [OF c] le by simp
    from less.hyps [OF this r less.prems(2)] parseOption_keeps [OF c k(4)]
    show ?thesis by simp
  next
    case extensions
    with eq obtain a ta where c: "parseExtensions msg token tn = Inr (a, ta)"
      and r: "parseMessage_loop (js_set msg ''extensions'' a) ta = Inr (msg', tn')"
      by (auto split: sum.splits)
    have "remaining ta < remaining tn0"
      using parseExtensions_le [OF c] tn_next_less [OF nx] extensions by simp
    from less.hyps [OF this r less.prems(2)] js_get_js_set_other [OF k(5)]
    show ?thesis by simp
  next
    case extend
    with eq obtain a ta where c: "parseExtend msg token tn = Inr (a, ta)"
      and r: "parseMessage_loop a ta = Inr (msg', tn')"
      by (auto split: sum.splits)
    have "remaining ta < remaining tn0"
      using parseExtend_le [OF c] tn_next_less [OF nx] extend by simp
    from less.hyps [OF this r less.prems(2)] parseExtend_keeps [OF c k(3)]
    show ?thesis by simp
  next
    case other
    with eq show ?thesis by (simp add: throw_def)
  qed
qed

section \<open>Evaluation\<close>

lemmas lang_eval = Lang_tokens test_def NAME_def TYPEREF_def FQTYPEREF_def RULE_def TYPE_pat_def
  BOOL_def NUMBER_def is_name_start_def is_upper_def starts_upper_def toLowerCase_def lower_char_def
  js_toLowerCase_def quoted_def

lemmas tn_eval = Tokenizer_def tn_next_def tn_peek_def skip_END_def on_line_def

lemmas js_eval = js_push_def js_set2_def AList.delete_eq

lemmas parser_eval = parse_def topLevel_init_def parse_loop.simps parsePackage_def parseImport_def
  parseOption_def parseIgnoredStatement.simps parseService_def parseService_loop.simps
  parseServiceRPC_def parseServiceRPC_loop.simps parseMessage.simps parseMessage_head_def
  parseMessage_loop.simps parseMessageField.simps parseMessageField_plain_def
  parseFieldOptions_def parseFieldOptions_loop.simps parseFieldOption_def parseEnum_def
  parseEnum_loop.simps parseEnumValue_def parseExtensions_def parseExtensions_bound_def
  parseExtend.simps parseExtend_loop.simps

section \<open>Properties of numeric literals\<close>

lemma all_digit_dropWhile: "list_all is_digit cs \<Longrightarrow> dropWhile is_digit cs = []"
  by (induction cs) auto

lemma octal_digit: "is_octal c \<Longrightarrow> is_digit c"
  by (auto simp: is_octal_def is_digit_def Let_def)

lemma DEC_not_HEX: "NUMBER_DEC d \<Longrightarrow> \<not> NUMBER_HEX d"
  by (auto simp: NUMBER_DEC_def NUMBER_HEX_def split: list.splits)

lemma DEC_not_OCT: "NUMBER_DEC d \<Longrightarrow> \<not> NUMBER_OCT d"
  by (auto simp: NUMBER_DEC_def NUMBER_OCT_def split: list.splits)

lemma HEX_not_OCT: "NUMBER_HEX d \<Longrightarrow> \<not> NUMBER_OCT d"
  by (cases d; cases "tl d") (auto simp: NUMBER_HEX_def NUMBER_OCT_def is_octal_def)

lemma DEC_not_FLT: "NUMBER_DEC d \<Longrightarrow> \<not> NUMBER_FLT d"
  by (auto simp: NUMBER_DEC_def NUMBER_FLT_def Let_def all_digit_dropWhile is_digit_def
      split: list.splits)

lemma HEX_not_FLT: "NUMBER_HEX d \<Longrightarrow> \<not> NUMBER_FLT d"
  by (cases d; cases "tl d") (auto simp: NUMBER_HEX_def NUMBER_FLT_def Let_def is_digit_def)

lemma OCT_not_FLT: "NUMBER_OCT d \<Longrightarrow> \<not> NUMBER_FLT d"
proof -
  assume "NUMBER_OCT d"
  then have "list_all is_digit d"
    by (cases d)
      (auto simp: NUMBER_OCT_def is_digit_def list_all_iff dest: octal_digit [unfolded is_digit_def])
  then show ?thesis by (simp add: NUMBER_FLT_def all_digit_dropWhile)
qed

lemma DEC_unsigned: "NUMBER_DEC d \<Longrightarrow> take 1 d \<noteq> ''-''"
  by (auto simp: NUMBER_DEC_def is_digit_def split: list.splits)

lemma HEX_unsigned: "NUMBER_HEX d \<Longrightarrow> take 1 d \<noteq> ''-''"
  by (cases d) (auto simp: NUMBER_HEX_def)

lemma OCT_unsigned: "NUMBER_OCT d \<Longrightarrow> take 1 d \<noteq> ''-''"
  by (cases d) (auto simp: NUMBER_OCT_def)

lemma FLT_unsigned: "NUMBER_FLT d \<Longrightarrow> take 1 d \<noteq> ''-''"
proof
  assume f: "NUMBER_FLT d" and "take 1 d = ''-''"
  then obtain r where d: "d = CHR ''-'' # r" by (cases d) auto
  have "\<not> is_digit (CHR ''-'')" by (simp add: is_digit_def)
  then have "dropWhile is_digit d = d" by (simp add: d)
  moreover from f have "take 1 (dropWhile is_digit d) = ''.''"
    unfolding NUMBER_FLT_def Let_def by (rule conjunct1)
  ultimately show False by (simp add: d)
qed

lemma times_sign_1 [simp]: "times_sign 1 x = x"
  by (cases x) simp_all

lemma ToInt32_Fin_range: "- (2 ^ 31) \<le> ToInt32 (Fin i) \<and> ToInt32 (Fin i) < 2 ^ 31"
  using sint_range_size [of "word_of_int i :: 32 word"] by (simp add: word_size)

lemma ToInt32_Fin_mod: "ToInt32 (Fin i) mod 2 ^ 32 = i mod 2 ^ 32"
proof -
  have a: "take_bit 32 (signed_take_bit 31 i) = take_bit 32 i"
    by (rule take_bit_signed_take_bit) simp
  have b: "sint (word_of_int i :: 32 word) = signed_take_bit 31 i"
    by (simp add: sint_sbintrunc')
  show ?thesis
    unfolding ToInt32.simps b using a unfolding take_bit_eq_mod .
qed

lemmas num_eval = parseId_def parseNumber_def NUMBER_DEC_def NUMBER_HEX_def NUMBER_OCT_def
  NUMBER_FLT_def is_digit_def is_hex_def is_octal_def is_exponent_def parseInt_def parseFloat_def
  to_double_def round53_def digits_value_def digit_value_def Let_def throw_def

lemmas full_eval = parser_eval lang_eval tn_eval js_eval num_eval show_nat.simps

lemma parseNumber_signed:
  assumes "take 1 d \<noteq> ''-''"
  shows "parseNumber tn (Str (CHR ''-'' # d)) =
     (if NUMBER_DEC d then Inr (times_sign (- 1) (parseInt d 10))
      else if NUMBER_HEX d then Inr (times_sign (- 1) (parseInt (drop 2 d) 16))
      else if NUMBER_OCT d then Inr (times_sign (- 1) (parseInt (drop 1 d) 8))
      else if NUMBER_FLT d then Inr (times_sign (- 1) (parseFloat d))
      else throw (''Illegal number at line '' @ show_nat (line tn) @ '': -'' @ d))"
    and "parseNumber tn (Str d) =
     (if NUMBER_DEC d then Inr (parseInt d 10)
      else if NUMBER_HEX d then Inr (parseInt (drop 2 d) 16)
      else if NUMBER_OCT d then Inr (parseInt (drop 1 d) 8)
      else if NUMBER_FLT d then Inr (parseFloat d)
      else throw (''Illegal number at line '' @ show_nat (line tn) @ '': '' @ d))"
  using assms by (simp_all add: parseNumber_def Let_def)

lemma parseId_signed:
  assumes "take 1 d \<noteq> ''-''"
  shows "parseId tn (Str (CHR ''-'' # d)) neg =
     (if NUMBER_DEC d \<or> NUMBER_HEX d \<or> NUMBER_OCT d
      then (let i = ToInt32 (times_sign (- 1)
                      (if NUMBER_DEC d then parseInt d 10
                       else if NUMBER_HEX d then parseInt (drop 2 d) 16
                       else parseInt (drop 1 d) 8))
            in if \<not> neg \<and> i < 0
               then throw (''Illegal ID at line '' @ show_nat (line tn) @ '': -'' @ d)
               else Inr i)
      else throw (''Illegal ID at line '' @ show_nat (line tn) @ '': -'' @ d))"
    and "parseId tn (Str d) neg =
     (if NUMBER_DEC d \<or> NUMBER_HEX d \<or> NUMBER_OCT d
      then (let i = ToInt32 (if NUMBER_DEC d then parseInt d 10
                       else if NUMBER_HEX d then parseInt (drop 2 d) 16
                       else parseInt (drop 1 d) 8)
            in if \<not> neg \<and> i < 0
               then throw (''Illegal ID at line '' @ show_nat (line tn) @ '': '' @ d)
               else Inr i)
      else throw (''Illegal ID at line '' @ show_nat (line tn) @ '': '' @ d))"
  using assms by (simp_all add: parseId_def Let_def)

text \<open>
  Claim C3. Numeric literal parsing strips an optional leading \<^verbatim>\<open>-\<close>, tests the rest against
  the decimal, the hex, the octal and (in \<open>parseNumber\<close> only) the float pattern in this
  order, parses with the base of the first pattern that matches and applies the sign
  again; \<open>parseId\<close> rejects a float. The field id tokens \<^verbatim>\<open>10\<close>, \<^verbatim>\<open>0x1A\<close> and \<^verbatim>\<open>017\<close> parse to
  10, 26 and 15, the enum value id \<^verbatim>\<open>-5\<close> to -5, and the option value \<^verbatim>\<open>3.14\<close> to the
  double \<^verbatim>\<open>parseFloat("3.14")\<close>.
\<close>

theorem numeric_literal_forms:
  "(NUMBER_DEC d \<longrightarrow>
      parseNumber tn (Str d) = Inr (parseInt d 10) \<and>
      parseNumber tn (Str (''-'' @ d)) = Inr (times_sign (- 1) (parseInt d 10)) \<and>
      parseId tn (Str d) True = Inr (ToInt32 (parseInt d 10)) \<and>
      parseId tn (Str (''-'' @ d)) True = Inr (ToInt32 (times_sign (- 1) (parseInt d 10)))) \<and>
   (NUMBER_HEX d \<longrightarrow>
      parseNumber tn (Str d) = Inr (parseInt (drop 2 d) 16) \<and>
      parseNumber tn (Str (''-'' @ d)) = Inr (times_sign (- 1) (parseInt (drop 2 d) 16)) \<and>
      parseId tn (Str d) True = Inr (ToInt32 (parseInt (drop 2 d) 16)) \<and>
      parseId tn (Str (''-'' @ d)) True = Inr (ToInt32 (times_sign (- 1) (parseInt (drop 2 d) 16)))) \<and>
   (NUMBER_OCT d \<longrightarrow>
      parseNumber tn (Str d) = Inr (parseInt (drop 1 d) 8) \<and>
      parseNumber tn (Str (''-'' @ d)) = Inr (times_sign (- 1) (parseInt (drop 1 d) 8)) \<and>
      parseId tn (Str d) True = Inr (ToInt32 (parseInt (drop 1 d) 8)) \<and>
      parseId tn (Str (''-'' @ d)) True = Inr (ToInt32 (times_sign (- 1) (parseInt (drop 1 d) 8)))) \<and>
   (NUMBER_FLT d \<longrightarrow>
      parseNumber tn (Str d) = Inr (parseFloat d) \<and>
      parseNumber tn (Str (''-'' @ d)) = Inr (times_sign (- 1) (parseFloat d)) \<and>
      parseId tn (Str d) neg = throw (''Illegal ID at line '' @ show_nat (line tn) @ '': '' @ d) \<and>
      parseId tn (Str (''-'' @ d)) neg =
        throw (''Illegal ID at line '' @ show_nat (line tn) @ '': -'' @ d)) \<and>
   parseId tn (Str ''10'') False = Inr 10 \<and>
   parseId tn (Str ''0x1A'') False = Inr 26 \<and>
   parseId tn (Str ''017'') False = Inr 15 \<and>
   parseId tn (Str ''-5'') True = Inr (- 5) \<and>
   parseNumber tn (Str ''3.14'') = Inr (Flt False ''3.14'')"
proof (intro conjI impI)
  assume d: "NUMBER_DEC d"
  note u = DEC_unsigned [OF d]
  show "parseNumber tn (Str d) = Inr (parseInt d 10)"
    and "parseNumber tn (Str (''-'' @ d)) = Inr (times_sign (- 1) (parseInt d 10))"
    using d by (simp_all add: parseNumber_signed [OF u])
  show "parseId tn (Str d) True = Inr (ToInt32 (parseInt d 10))"
    and "parseId tn (Str (''-'' @ d)) True = Inr (ToInt32 (times_sign (- 1) (parseInt d 10)))"
    using d by (simp_all add: parseId_signed [OF u])
next
  assume d: "NUMBER_HEX d"
  note u = HEX_unsigned [OF d]
  have n: "\<not> NUMBER_DEC d" using d DEC_not_HEX by blast
  show "parseNumber tn (Str d) = Inr (parseInt (drop 2 d) 16)"
    and "parseNumber tn (Str (''-'' @ d)) = Inr (times_sign (- 1) (parseInt (drop 2 d) 16))"
    using d n by (simp_all add: parseNumber_signed [OF u])
  show "parseId tn (Str d) True = Inr (ToInt32 (parseInt (drop 2 d) 16))"
    and "parseId tn (Str (''-'' @ d)) True = Inr (ToInt32 (times_sign (- 1) (parseInt (drop 2 d) 16)))"
    using d n by (simp_all add: parseId_signed [OF u])
next
  assume d: "NUMBER_OCT d"
  note u = OCT_unsigned [OF d]
  have n: "\<not> NUMBER_DEC d" "\<not> NUMBER_HEX d" using d DEC_not_OCT HEX_not_OCT by blast+
  show "parseNumber tn (Str d) = Inr (parseInt (drop 1 d) 8)"
    and "parseNumber tn (Str (''-'' @ d)) = Inr (times_sign (- 1) (parseInt (drop 1 d) 8))"
    using d n by (simp_all add: parseNumber_signed [OF u])
  show "parseId tn (Str d) True = Inr (ToInt32 (parseInt (drop 1 d) 8))"
    and "parseId tn (Str (''-'' @ d)) True = Inr (ToInt32 (times_sign (- 1) (parseInt (drop 1 d) 8)))"
    using d n by (simp_all add: parseId_signed [OF u])
next
  assume d: "NUMBER_FLT d"
  note u = FLT_unsigned [OF d]
  have n: "\<not> NUMBER_DEC d" "\<not> NUMBER_HEX d" "\<not> NUMBER_OCT d"
    using d DEC_not_FLT HEX_not_FLT OCT_not_FLT by blast+
  show "parseNumber tn (Str d) = Inr (parseFloat d)"
    and "parseNumber tn (Str (''-'' @ d)) = Inr (times_sign (- 1) (parseFloat d))"
    using d n by (simp_all add: parseNumber_signed [OF u])
  show "parseId tn (Str d) neg = throw (''Illegal ID at line '' @ show_nat (line tn) @ '': '' @ d)"
    and "parseId tn (Str (''-'' @ d)) neg =
        throw (''Illegal ID at line '' @ show_nat (line tn) @ '': -'' @ d)"
    using d n by (simp_all add: parseId_signed [OF u])
next
  show "parseId tn (Str ''10'') False = Inr 10" by (simp add: num_eval)
  show "parseId tn (Str ''0x1A'') False = Inr 26" by (simp add: num_eval)
  show "parseId tn (Str ''017'') False = Inr 15" by (simp add: num_eval)
  show "parseId tn (Str ''-5'') True = Inr (- 5)" by (simp add: num_eval)
  show "parseNumber tn (Str ''3.14'') = Inr (Flt False ''3.14'')" by (simp add: num_eval)
qed


theorem numeric_literal_forms_witness:
  "NUMBER_DEC ''10'' \<and> parseNumber (Tokenizer [] 1) (Str ''-10'') = Inr (Fin (- 10)) \<and>
   NUMBER_HEX ''0x1A'' \<and> parseNumber (Tokenizer [] 1) (Str ''-0x1A'') = Inr (Fin (- 26)) \<and>
   NUMBER_OCT ''017'' \<and> parseNumber (Tokenizer [] 1) (Str ''-017'') = Inr (Fin (- 15)) \<and>
   NUMBER_FLT ''3.14'' \<and> parseNumber (Tokenizer [] 1) (Str ''-3.14'') = Inr (Flt True ''3.14'') \<and>
   parseId (Tokenizer [] 1) (Str ''3.14'') True = Inl (Error ''Illegal ID at line 1: 3.14'')"
  using numeric_literal_forms [of "''10''" "Tokenizer [] 1" True]
    numeric_literal_forms [of "''0x1A''" "Tokenizer [] 1" True]
    numeric_literal_forms [of "''017''" "Tokenizer [] 1" True]
    numeric_literal_forms [of "''3.14''" "Tokenizer [] 1" True]
  by (simp add: num_eval Tokenizer_def show_nat.simps)

lemma ToInt32_sign_to_double_range:
  "- (2 ^ 31) \<le> ToInt32 (times_sign s (to_double n)) \<and> ToInt32 (times_sign s (to_double n)) < 2 ^ 31"
proof (cases "round53 n < 2 ^ 1024")
  case True
  then have "times_sign s (to_double n) = Fin (s * int (round53 n))"
    by (simp add: to_double_def)
  then show ?thesis
    using ToInt32_Fin_range [of "s * int (round53 n)"] by (simp only:)
next
  case False
  then have "ToInt32 (times_sign s (to_double n)) = 0"
    by (simp add: to_double_def)
  then show ?thesis by simp
qed

lemma to_double_exact: "n < 2 ^ 53 \<Longrightarrow> to_double n = Fin (int n)"
proof -
  assume a: "n < 2 ^ 53"
  have "(2::nat) ^ 53 < 2 ^ 1024" by simp
  with a have "n < 2 ^ 1024" by (rule less_trans)
  with a show ?thesis by (simp add: to_double_def round53_def)
qed

text \<open>
  Claim C2. An id literal of any magnitude is accepted where negative ids are allowed:
  its value is brought into the signed 32-bit range by truncation (the result is congruent
  to the value modulo \<open>2 ^ 32\<close>; stated for values below \<open>2 ^ 53\<close>, which \<^verbatim>\<open>parseInt\<close>
  returns exactly). Where negative ids are not allowed, the literal is rejected as an
  illegal ID exactly when the truncated value is negative. Negative ids are allowed for
  an enum value and for nothing else. In every state of the tokenizer a field and a group
  take the id that \<^verbatim>\<open>_parseId\<close> returns without the flag, and fail with their own message
  when it throws; an enum value takes the id that \<^verbatim>\<open>_parseId\<close> returns with the flag. So for
  every literal \<open>d\<close> with truncated negation \<open>j\<close>, the id \<^verbatim>\<open>-d\<close> is rejected on a field and on a
  group exactly when \<open>j\<close> is negative and is the id \<open>j\<close> otherwise, and it is the id \<open>j\<close> of
  an enum value in either case. The instances: \<^verbatim>\<open>-1\<close> is rejected on a field and on a group
  and accepted on an enum value, and the field id \<^verbatim>\<open>4294967297\<close> is accepted as the id 1.
\<close>

theorem parseId_truncates:
  assumes lit: "NUMBER_DEC d \<or> NUMBER_HEX d \<or> NUMBER_OCT d"
  shows "(\<exists>i j.
     parseId tn (Str d) True = Inr i \<and> parseId tn (Str (''-'' @ d)) True = Inr j \<and>
     - (2 ^ 31) \<le> i \<and> i < 2 ^ 31 \<and> - (2 ^ 31) \<le> j \<and> j < 2 ^ 31 \<and>
     parseId tn (Str d) False =
       (if i < 0 then throw (''Illegal ID at line '' @ show_nat (line tn) @ '': '' @ d) else Inr i) \<and>
     parseId tn (Str (''-'' @ d)) False =
       (if j < 0 then throw (''Illegal ID at line '' @ show_nat (line tn) @ '': -'' @ d) else Inr j) \<and>
     (let n = (if NUMBER_DEC d then digits_value 10 d
               else if NUMBER_HEX d then digits_value 16 (drop 2 d)
               else digits_value 8 (drop 1 d))
      in n < 2 ^ 53 \<longrightarrow> i mod 2 ^ 32 = int n mod 2 ^ 32 \<and> j mod 2 ^ 32 = (- int n) mod 2 ^ 32) \<and>
     parse (Tokenizer (on_line l [''message'', ''M'', ''{'', ''optional'', ''int32'', ''x'', ''='',
         ''-'' @ d, '';'', ''}'']) e) =
       (if j < 0
        then Inl (Error (''Illegal field id value in message M#x at line '' @ show_nat l @ '': -'' @ d))
        else Inr (Obj [(''package'', Null),
                 (''messages'',
                  Arr [Obj [(''name'', Str ''M''),
                            (''fields'',
                             Arr [Obj [(''rule'', Str ''optional''), (''options'', Obj []),
                                       (''type'', Str ''int32''), (''name'', Str ''x''),
                                       (''id'', Num (Fin j))]]),
                            (''enums'', Arr []), (''messages'', Arr []), (''options'', Obj [])]]),
                 (''enums'', Arr []), (''imports'', Arr []), (''options'', Obj []),
                 (''services'', Arr [])])) \<and>
     parse (Tokenizer (on_line l [''message'', ''M'', ''{'', ''optional'', ''group'', ''G'', ''='',
         ''-'' @ d, ''{'', ''}'', ''}'']) e) =
       (if j < 0
        then Inl (Error (''Illegal field id value for group G#undefined at line '' @ show_nat l @
                         '': -'' @ d))
        else Inr (Obj [(''package'', Null),
                 (''messages'',
                  Arr [Obj [(''name'', Str ''M''),
                            (''fields'',
                             Arr [Obj [(''rule'', Str ''optional''), (''options'', Obj []),
                                       (''id'', Num (Fin j)), (''type'', Str ''G''),
                                       (''name'', Str ''g'')]]),
                            (''enums'', Arr []),
                            (''messages'',
                             Arr [Obj [(''name'', Str ''G''), (''isGroup'', Bool True),
                                       (''fields'', Arr []), (''enums'', Arr []),
                                       (''messages'', Arr []), (''options'', Obj [])]]),
                            (''options'', Obj [])]]),
                 (''enums'', Arr []), (''imports'', Arr []), (''options'', Obj []),
                 (''services'', Arr [])])) \<and>
     parse (Tokenizer (on_line l [''enum'', ''E'', ''{'', ''A'', ''='', ''-'' @ d, '';'', ''}'']) e) =
       Inr (Obj [(''package'', Null), (''messages'', Arr []),
                 (''enums'', Arr [Obj [(''name'', Str ''E''),
                                       (''values'', Arr [Obj [(''name'', Str ''A''), (''id'', Num (Fin j))]]),
                                       (''options'', Obj [])]]),
                 (''imports'', Arr []), (''options'', Obj []), (''services'', Arr [])])) \<and>
     (parse (Tokenizer (on_line 1 [''message'', ''M'', ''{'', ''optional'', ''int32'', ''x'', ''='', ''-1'',
         '';'', ''}'']) 1) =
       Inl (Error ''Illegal field id value in message M#x at line 1: -1'') \<and>
     parse (Tokenizer (on_line 1 [''message'', ''M'', ''{'', ''optional'', ''group'', ''G'', ''='', ''-1'',
         ''{'', ''}'', ''}'']) 1) =
       Inl (Error ''Illegal field id value for group G#undefined at line 1: -1'') \<and>
     parse (Tokenizer (on_line 1 [''enum'', ''E'', ''{'', ''A'', ''='', ''-1'', '';'', ''}'']) 1) =
       Inr (Obj [(''package'', Null), (''messages'', Arr []),
                 (''enums'', Arr [Obj [(''name'', Str ''E''),
                                       (''values'', Arr [Obj [(''name'', Str ''A''), (''id'', Num (Fin (- 1)))]]),
                                       (''options'', Obj [])]]),
                 (''imports'', Arr []), (''options'', Obj []), (''services'', Arr [])]) \<and>
     parse (Tokenizer (on_line 1 [''message'', ''M'', ''{'', ''optional'', ''int32'', ''x'', ''='',
         ''4294967297'', '';'', ''}'']) 1) =
       Inr (Obj [(''package'', Null),
                 (''messages'',
                  Arr [Obj [(''name'', Str ''M''),
                            (''fields'',
                             Arr [Obj [(''rule'', Str ''optional''), (''options'', Obj []),
                                       (''type'', Str ''int32''), (''name'', Str ''x''),
                                       (''id'', Num (Fin 1))]]),
                            (''enums'', Arr []), (''messages'', Arr []), (''options'', Obj [])]]),
                 (''enums'', Arr []), (''imports'', Arr []), (''options'', Obj []),
                 (''services'', Arr [])])) \<and>
     (tn_next f0 = (ty, f1) \<and> ty \<noteq> Str ''group'' \<and> (test TYPE_pat ty \<or> test TYPEREF ty) \<and>
      tn_next f1 = (nm, f2) \<and> test NAME nm \<and> tn_next f2 = (Str ''='', f3) \<and>
      tn_next f3 = (t, f4) \<longrightarrow>
      (case parseId f4 t False of
         Inl err \<Rightarrow>
           parseMessageField msg rule f0 =
             Inl (Error (''Illegal field id value in message '' @ ToString (js_get msg ''name'') @
                         ''#'' @ ToString nm @ '' at line '' @ show_nat (line f4) @ '': '' @
                         ToString t))
       | Inr i \<Rightarrow>
           tn_next f4 = (Str '';'', f5) \<longrightarrow>
           parseMessageField msg rule f0 =
             (case js_push msg ''fields''
                     (Obj [(''rule'', rule), (''options'', Obj []), (''type'', ty), (''name'', nm),
                           (''id'', Num (Fin i))]) of
                Inl err \<Rightarrow> Inl err
              | Inr msg' \<Rightarrow> Inr (msg', f5)))) \<and>
     (tn_next g0 = (gn, g1) \<and> test NAME gn \<and> tn_next g1 = (Str ''='', g2) \<and>
      tn_next g2 = (gt, g3) \<longrightarrow>
      (case parseId g3 gt False of
         Inl err \<Rightarrow>
           parseMessage parent fld (Str ''group'') g0 =
             Inl (Error (''Illegal field id value for group '' @ ToString gn @ ''#'' @
                         ToString (js_get fld ''name'') @ '' at line '' @ show_nat (line g3) @
                         '': '' @ ToString gt))
       | Inr i \<Rightarrow>
           tn_next g3 = (Str ''{'', g4) \<and> tn_next g4 = (Str ''}'', g5) \<longrightarrow>
           parseMessage parent fld (Str ''group'') g0 =
             (case js_push parent ''messages''
                     (Obj [(''name'', gn), (''isGroup'', Bool True), (''fields'', Arr []),
                           (''enums'', Arr []), (''messages'', Arr []), (''options'', Obj [])]) of
                Inl err \<Rightarrow> Inl err
              | Inr parent' \<Rightarrow>
                  Inr (parent', js_set fld ''id'' (Num (Fin i)),
                       Obj [(''name'', gn), (''isGroup'', Bool True), (''fields'', Arr []),
                            (''enums'', Arr []), (''messages'', Arr []), (''options'', Obj [])],
                       skip_END g5)))) \<and>
     (tn_next v0 = (Str ''='', v1) \<and> tn_next v1 = (vt, v2) \<longrightarrow>
      (case parseId v2 vt True of
         Inl err \<Rightarrow>
           parseEnumValue enm vn v0 =
             Inl (Error (''Illegal enum value id in enum '' @ ToString (js_get enm ''name'') @
                         '' at line '' @ show_nat (line v2) @ '': '' @ ToString vt))
       | Inr i \<Rightarrow>
           tn_next v2 = (Str '';'', v3) \<longrightarrow>
           parseEnumValue enm vn v0 =
             (case js_push enm ''values'' (Obj [(''name'', vn), (''id'', Num (Fin i))]) of
                Inl err \<Rightarrow> Inl err
              | Inr enm' \<Rightarrow> Inr (enm', v3))))"
  (is "?literal \<and> ?instances \<and> ?field \<and> ?group \<and> ?enum")
proof -
  define n where "n = (if NUMBER_DEC d then digits_value 10 d
               else if NUMBER_HEX d then digits_value 16 (drop 2 d)
               else digits_value 8 (drop 1 d))"
  define i where "i = ToInt32 (to_double n)"
  define j where "j = ToInt32 (times_sign (- 1) (to_double n))"
  have u: "take 1 d \<noteq> ''-''"
    using lit DEC_unsigned HEX_unsigned OCT_unsigned by blast
  have v: "(if NUMBER_DEC d then parseInt d 10
            else if NUMBER_HEX d then parseInt (drop 2 d) 16
            else parseInt (drop 1 d) 8) = to_double n"
    by (simp add: n_def parseInt_def)
  have pos: "parseId tn' (Str d) neg =
      (if \<not> neg \<and> i < 0
       then throw (''Illegal ID at line '' @ show_nat (line tn') @ '': '' @ d) else Inr i)" for neg tn'
    using lit unfolding parseId_signed(2) [OF u] v i_def by (simp add: Let_def)
  have neg: "parseId tn' (Str (CHR ''-'' # d)) neg =
      (if \<not> neg \<and> j < 0
       then throw (''Illegal ID at line '' @ show_nat (line tn') @ '': -'' @ d) else Inr j)" for neg tn'
    using lit parseId_signed(1) [OF u, of tn' neg] unfolding v j_def by (simp add: Let_def)
  have ri: "- (2 ^ 31) \<le> i \<and> i < 2 ^ 31"
    using ToInt32_sign_to_double_range [of 1 n] by (simp add: i_def)
  have rj: "- (2 ^ 31) \<le> j \<and> j < 2 ^ 31"
    using ToInt32_sign_to_double_range [of "- 1" n] by (simp add: j_def)
  have ex: "i mod 2 ^ 32 = int n mod 2 ^ 32 \<and> j mod 2 ^ 32 = (- int n) mod 2 ^ 32" if "n < 2 ^ 53"
    using ToInt32_Fin_mod [of "int n"] ToInt32_Fin_mod [of "- int n"]
    by (simp add: i_def j_def to_double_exact [OF that])
  have on_field: "parse (Tokenizer (on_line l [''message'', ''M'', ''{'', ''optional'', ''int32'', ''x'', ''='',
         ''-'' @ d, '';'', ''}'']) e) =
       (if j < 0
        then Inl (Error (''Illegal field id value in message M#x at line '' @ show_nat l @ '': -'' @ d))
        else Inr (Obj [(''package'', Null),
                 (''messages'',
                  Arr [Obj [(''name'', Str ''M''),
                            (''fields'',
                             Arr [Obj [(''rule'', Str ''optional''), (''options'', Obj []),
                                       (''type'', Str ''int32''), (''name'', Str ''x''),
                                       (''id'', Num (Fin j))]]),
                            (''enums'', Arr []), (''messages'', Arr []), (''options'', Obj [])]]),
                 (''enums'', Arr []), (''imports'', Arr []), (''options'', Obj []),
                 (''services'', Arr [])]))"
    by (simp add: parser_eval lang_eval tn_eval js_eval Let_def throw_def neg)
  have on_group: "parse (Tokenizer (on_line l [''message'', ''M'', ''{'', ''optional'', ''group'', ''G'', ''='',
         ''-'' @ d, ''{'', ''}'', ''}'']) e) =
       (if j < 0
        then Inl (Error (''Illegal field id value for group G#undefined at line '' @ show_nat l @
                         '': -'' @ d))
        else Inr (Obj [(''package'', Null),
                 (''messages'',
                  Arr [Obj [(''name'', Str ''M''),
                            (''fields'',
                             Arr [Obj [(''rule'', Str ''optional''), (''options'', Obj []),
                                       (''id'', Num (Fin j)), (''type'', Str ''G''),
                                       (''name'', Str ''g'')]]),
                            (''enums'', Arr []),
                            (''messages'',
                             Arr [Obj [(''name'', Str ''G''), (''isGroup'', Bool True),
                                       (''fields'', Arr []), (''enums'', Arr []),
                                       (''messages'', Arr []), (''options'', Obj [])]]),
                            (''options'', Obj [])]]),
                 (''enums'', Arr []), (''imports'', Arr []), (''options'', Obj []),
                 (''services'', Arr [])]))"
    by (simp add: parser_eval lang_eval tn_eval js_eval Let_def throw_def neg)
  have on_enum: "parse (Tokenizer (on_line l [''enum'', ''E'', ''{'', ''A'', ''='', ''-'' @ d, '';'', ''}'']) e) =
       Inr (Obj [(''package'', Null), (''messages'', Arr []),
                 (''enums'', Arr [Obj [(''name'', Str ''E''),
                                       (''values'', Arr [Obj [(''name'', Str ''A''), (''id'', Num (Fin j))]]),
                                       (''options'', Obj [])]]),
                 (''imports'', Arr []), (''options'', Obj []), (''services'', Arr [])])"
    by (simp add: parser_eval lang_eval tn_eval js_eval Let_def throw_def neg)
  have literal: ?literal
    apply (rule exI [of _ i], rule exI [of _ j])
    using pos [of tn True] pos [of tn False] neg [of tn True] neg [of tn False] ri rj ex
      on_field on_group on_enum
    unfolding n_def Let_def by simp
  have instances: ?instances
    by (simp add: full_eval)
  have field: ?field
    by (auto simp: parseMessageField.simps [of msg rule f0] parseMessageField_plain_def Let_def
        throw_def Lang_tokens split: sum.splits)
  have group: ?group
    by (auto simp: parseMessage.simps [of parent fld "Str ''group''" g0] parseMessage_head_def
        parseMessage_loop.simps [of _ g4] Let_def throw_def Lang_tokens split: sum.splits)
  have enum: ?enum
    by (auto simp: parseEnumValue_def Let_def throw_def Lang_tokens split: sum.splits)
  show ?thesis
    by (rule conjI [OF literal conjI [OF instances conjI [OF field conjI [OF group enum]]]])
qed

theorem parseId_truncates_witness:
  "NUMBER_DEC ''4294967297'' \<and>
   parseId (Tokenizer [] 1) (Str ''4294967297'') True = Inr 1 \<and>
   parseId (Tokenizer [] 1) (Str ''4294967297'') False = Inr 1 \<and>
   parseId (Tokenizer [] 1) (Str ''-4294967297'') True = Inr (- 1) \<and>
   parseId (Tokenizer [] 1) (Str ''-4294967297'') False =
     Inl (Error ''Illegal ID at line 1: -4294967297'') \<and>
   parseId (Tokenizer [] 1) (Str ''2147483648'') True = Inr (- 2147483648) \<and>
   parseId (Tokenizer [] 1) (Str ''2147483648'') False =
     Inl (Error ''Illegal ID at line 1: 2147483648'') \<and>
   NUMBER_DEC ''5'' \<and>
   parse (Tokenizer (on_line 1 [''message'', ''M'', ''{'', ''optional'', ''int32'', ''x'', ''='', ''-5'',
       '';'', ''}'']) 1) =
     Inl (Error ''Illegal field id value in message M#x at line 1: -5'') \<and>
   parse (Tokenizer (on_line 1 [''message'', ''M'', ''{'', ''optional'', ''group'', ''G'', ''='', ''-5'',
       ''{'', ''}'', ''}'']) 1) =
     Inl (Error ''Illegal field id value for group G#undefined at line 1: -5'') \<and>
   parse (Tokenizer (on_line 1 [''enum'', ''E'', ''{'', ''A'', ''='', ''-5'', '';'', ''}'']) 1) =
     Inr (Obj [(''package'', Null), (''messages'', Arr []),
               (''enums'', Arr [Obj [(''name'', Str ''E''),
                                     (''values'', Arr [Obj [(''name'', Str ''A''), (''id'', Num (Fin (- 5)))]]),
                                     (''options'', Obj [])]]),
               (''imports'', Arr []), (''options'', Obj []), (''services'', Arr [])]) \<and>
   tn_next (Tokenizer (on_line 1 [''int32'', ''x'', ''='', ''-5'', '';'']) 1) =
     (Str ''int32'', Tokenizer (on_line 1 [''x'', ''='', ''-5'', '';'']) 1) \<and>
   test TYPE_pat (Str ''int32'') \<and> test NAME (Str ''x'') \<and>
   tn_next (Tokenizer (on_line 1 [''x'', ''='', ''-5'', '';'']) 1) =
     (Str ''x'', Tokenizer (on_line 1 [''='', ''-5'', '';'']) 1) \<and>
   tn_next (Tokenizer (on_line 1 [''='', ''-5'', '';'']) 1) =
     (Str ''='', Tokenizer (on_line 1 [''-5'', '';'']) 1) \<and>
   tn_next (Tokenizer (on_line 1 [''-5'', '';'']) 1) = (Str ''-5'', Tokenizer (on_line 1 ['';'']) 1) \<and>
   parseId (Tokenizer (on_line 1 ['';'']) 1) (Str ''-5'') False = Inl (Error ''Illegal ID at line 1: -5'') \<and>
   parseMessageField (Obj [(''name'', Str ''M''), (''fields'', Arr [])]) (Str ''optional'')
     (Tokenizer (on_line 1 [''int32'', ''x'', ''='', ''-5'', '';'']) 1) =
     Inl (Error ''Illegal field id value in message M#x at line 1: -5'') \<and>
   tn_next (Tokenizer (on_line 1 [''G'', ''='', ''-5'', ''{'', ''}'']) 1) =
     (Str ''G'', Tokenizer (on_line 1 [''='', ''-5'', ''{'', ''}'']) 1) \<and>
   test NAME (Str ''G'') \<and>
   parseMessage (Obj [(''name'', Str ''M''), (''messages'', Arr [])])
     (Obj [(''rule'', Str ''optional''), (''options'', Obj [])]) (Str ''group'')
     (Tokenizer (on_line 1 [''G'', ''='', ''-5'', ''{'', ''}'']) 1) =
     Inl (Error ''Illegal field id value for group G#undefined at line 1: -5'') \<and>
   parseId (Tokenizer (on_line 1 ['';'']) 1) (Str ''-5'') True = Inr (- 5) \<and>
   parseEnumValue (Obj [(''name'', Str ''E''), (''values'', Arr [])]) (Str ''A'')
     (Tokenizer (on_line 1 [''='', ''-5'', '';'']) 1) =
     Inr (Obj [(''name'', Str ''E''),
               (''values'', Arr [Obj [(''name'', Str ''A''), (''id'', Num (Fin (- 5)))]])],
          Tokenizer [] 1)"
  using parseId_truncates [where d = "''4294967297''" and tn = "Tokenizer [] 1", THEN conjunct1]
    parseId_truncates [where d = "''2147483648''" and tn = "Tokenizer [] 1", THEN conjunct1]
    parseId_truncates [where d = "''5''" and tn = "Tokenizer [] 1" and l = 1 and e = 1, THEN conjunct1]
    parseId_truncates [where d = "''5''"
      and ?f0.0 = "Tokenizer (on_line 1 [''int32'', ''x'', ''='', ''-5'', '';'']) 1"
      and ty = "Str ''int32''"
      and ?f1.0 = "Tokenizer (on_line 1 [''x'', ''='', ''-5'', '';'']) 1"
      and nm = "Str ''x''"
      and ?f2.0 = "Tokenizer (on_line 1 [''='', ''-5'', '';'']) 1"
      and ?f3.0 = "Tokenizer (on_line 1 [''-5'', '';'']) 1"
      and t = "Str ''-5''"
      and ?f4.0 = "Tokenizer (on_line 1 ['';'']) 1"
      and ?f5.0 = "Tokenizer [] 1"
      and msg = "Obj [(''name'', Str ''M''), (''fields'', Arr [])]"
      and rule = "Str ''optional''",
      THEN conjunct2, THEN conjunct2, THEN conjunct1]
    parseId_truncates [where d = "''5''"
      and ?g0.0 = "Tokenizer (on_line 1 [''G'', ''='', ''-5'', ''{'', ''}'']) 1"
      and gn = "Str ''G''"
      and ?g1.0 = "Tokenizer (on_line 1 [''='', ''-5'', ''{'', ''}'']) 1"
      and ?g2.0 = "Tokenizer (on_line 1 [''-5'', ''{'', ''}'']) 1"
      and gt = "Str ''-5''"
      and ?g3.0 = "Tokenizer (on_line 1 [''{'', ''}'']) 1"
      and ?g4.0 = "Tokenizer (on_line 1 [''}'']) 1"
      and ?g5.0 = "Tokenizer [] 1"
      and parent = "Obj [(''name'', Str ''M''), (''messages'', Arr [])]"
      and fld = "Obj [(''rule'', Str ''optional''), (''options'', Obj [])]",
      THEN conjunct2, THEN conjunct2, THEN conjunct2, THEN conjunct1]
    parseId_truncates [where d = "''5''"
      and ?v0.0 = "Tokenizer (on_line 1 [''='', ''-5'', '';'']) 1"
      and ?v1.0 = "Tokenizer (on_line 1 [''-5'', '';'']) 1"
      and vt = "Str ''-5''"
      and ?v2.0 = "Tokenizer (on_line 1 ['';'']) 1"
      and ?v3.0 = "Tokenizer [] 1"
      and enm = "Obj [(''name'', Str ''E''), (''values'', Arr [])]"
      and vn = "Str ''A''",
      THEN conjunct2, THEN conjunct2, THEN conjunct2, THEN conjunct2]
  by (simp add: full_eval)

section \<open>Properties of the parser\<close>

text \<open>
  Claim C8. \<^verbatim>\<open>import public "p";\<close> parses, and it gives the Schema that \<^verbatim>\<open>import "p";\<close> gives:
  the import entry is the path alone, with no trace of the \<^verbatim>\<open>public\<close> modifier. This holds
  for every path \<open>p\<close>, on every line.
\<close>

theorem import_public_dropped:
  "parse (Tokenizer (on_line l [''import'', ''public'', STRINGOPEN, p, STRINGOPEN, '';'']) e) =
     parse (Tokenizer (on_line l [''import'', STRINGOPEN, p, STRINGOPEN, '';'']) e) \<and>
   parse (Tokenizer (on_line l [''import'', ''public'', STRINGOPEN, p, STRINGOPEN, '';'']) e) =
     Inr (Obj [(''package'', Null), (''messages'', Arr []), (''enums'', Arr []),
               (''imports'', Arr [Str p]), (''options'', Obj []), (''services'', Arr [])]) \<and>
   parse (Tokenizer (on_line 1 [''import'', ''public'', STRINGOPEN, ''x.proto'', STRINGOPEN, '';'']) 1) =
     Inr (Obj [(''package'', Null), (''messages'', Arr []), (''enums'', Arr []),
               (''imports'', Arr [Str ''x.proto'']), (''options'', Obj []), (''services'', Arr [])])"
  by (simp add: full_eval)

text \<open>
  Claim C10. In \<^verbatim>\<open>service S { rpc M (Req) returns (X); }\<close> the response token \<open>X\<close> is stored as
  it is, whatever its text; a request token that is not a type reference fails the parse.
\<close>

theorem rpc_response_unchecked:
  "parse (Tokenizer (on_line l [''service'', ''S'', ''{'', ''rpc'', ''M'', ''('', ''Req'', '')'', ''returns'',
       ''('', X, '')'', '';'', ''}'']) e) =
     Inr (Obj [(''package'', Null), (''messages'', Arr []), (''enums'', Arr []), (''imports'', Arr []),
               (''options'', Obj []),
               (''services'',
                Arr [Obj [(''name'', Str ''S''),
                          (''rpc'', Obj [(''M'', Obj [(''request'', Str ''Req''), (''response'', Str X),
                                                      (''options'', Obj [])])]),
                          (''options'', Obj [])]])]) \<and>
   (\<not> TYPEREF R \<longrightarrow>
    parse (Tokenizer (on_line l [''service'', ''S'', ''{'', ''rpc'', ''M'', ''('', R, '')'', ''returns'',
       ''('', X, '')'', '';'', ''}'']) e) =
     Inl (Error (''Illegal request type in RPC service S#M at line '' @ show_nat l @ '': '' @ R)))"
proof (intro conjI impI)
  show "parse (Tokenizer (on_line l [''service'', ''S'', ''{'', ''rpc'', ''M'', ''('', ''Req'', '')'', ''returns'',
       ''('', X, '')'', '';'', ''}'']) e) =
     Inr (Obj [(''package'', Null), (''messages'', Arr []), (''enums'', Arr []), (''imports'', Arr []),
               (''options'', Obj []),
               (''services'',
                Arr [Obj [(''name'', Str ''S''),
                          (''rpc'', Obj [(''M'', Obj [(''request'', Str ''Req''), (''response'', Str X),
                                                      (''options'', Obj [])])]),
                          (''options'', Obj [])]])])"
    by (simp add: full_eval)
next
  assume "\<not> TYPEREF R"
  then show "parse (Tokenizer (on_line l [''service'', ''S'', ''{'', ''rpc'', ''M'', ''('', R, '')'', ''returns'',
       ''('', X, '')'', '';'', ''}'']) e) =
     Inl (Error (''Illegal request type in RPC service S#M at line '' @ show_nat l @ '': '' @ R))"
    by (simp add: parser_eval Lang_tokens test_def NAME_def is_name_start_def is_digit_def tn_eval js_eval
        Let_def throw_def)
qed

theorem rpc_response_unchecked_witness:
  "\<not> TYPEREF ''1#'' \<and>
   parse (Tokenizer (on_line 1 [''service'', ''S'', ''{'', ''rpc'', ''M'', ''('', ''1#'', '')'', ''returns'',
       ''('', ''1#'', '')'', '';'', ''}'']) 1) =
     Inl (Error ''Illegal request type in RPC service S#M at line 1: 1#'') \<and>
   parse (Tokenizer (on_line 1 [''service'', ''S'', ''{'', ''rpc'', ''M'', ''('', ''Req'', '')'', ''returns'',
       ''('', ''1#'', '')'', '';'', ''}'']) 1) =
     Inr (Obj [(''package'', Null), (''messages'', Arr []), (''enums'', Arr []), (''imports'', Arr []),
               (''options'', Obj []),
               (''services'',
                Arr [Obj [(''name'', Str ''S''),
                          (''rpc'', Obj [(''M'', Obj [(''request'', Str ''Req''), (''response'', Str ''1#''),
                                                      (''options'', Obj [])])]),
                          (''options'', Obj [])]])])"
  using rpc_response_unchecked [of 1 "''1#''" 1 "''1#''"]
  by (simp add: TYPEREF_def NAME_def is_name_start_def show_nat.simps)


lemma parseMessage_head_name:
  assumes "parseMessage_head parent fld token0 tn0 = Inr (fld', msg, tn')"
    and "tn_next tn0 = (t, tn)"
  shows "js_get msg ''name'' = t"
  using assms unfolding parseMessage_head_def Let_def throw_def
  by (auto split: prod.splits if_splits sum.splits)

lemma parseMessage_name:
  assumes "parseMessage parent fld token0 tn0 = Inr (parent', fld', msg, tn')"
    and "tn_next tn0 = (t, tn)"
  shows "js_get msg ''name'' = t"
proof -
  from assms(1) obtain f a ta where
    h: "parseMessage_head parent fld token0 tn0 = Inr (f, a, ta)"
    and l: "parseMessage_loop a ta = Inr (msg, tn')"
    unfolding parseMessage.simps [of parent fld token0 tn0]
    by (auto split: sum.splits)
  have "js_get msg ''name'' = js_get a ''name''"
    by (rule parseMessage_loop_keeps [OF l]) simp
  with parseMessage_head_name [OF h assms(2)] show ?thesis by simp
qed

text \<open>
  Claim C4. The field \<^verbatim>\<open>optional group Result = 1 { optional int32 x = 1; }\<close> of a message
  gives a nested message \<^verbatim>\<open>Result\<close> with \<^verbatim>\<open>isGroup\<close> set and, on the enclosing message, a
  field of type \<^verbatim>\<open>Result\<close>, name \<^verbatim>\<open>result\<close> and id 1. A group whose name does not start with
  an upper-case letter is rejected: the field fails with the error of the group's own
  parse, or else with the error about the capital letter.
\<close>

theorem group_desugaring:
  "parse (Tokenizer (on_line 1 [''message'', ''M'', ''{'',
       ''optional'', ''group'', ''Result'', ''='', ''1'', ''{'',
         ''optional'', ''int32'', ''x'', ''='', ''1'', '';'', ''}'', ''}'']) 1) =
     Inr (Obj [(''package'', Null),
               (''messages'',
                Arr [Obj [(''name'', Str ''M''),
                          (''fields'',
                           Arr [Obj [(''rule'', Str ''optional''), (''options'', Obj []),
                                     (''id'', Num (Fin 1)), (''type'', Str ''Result''),
                                     (''name'', Str ''result'')]]),
                          (''enums'', Arr []),
                          (''messages'',
                           Arr [Obj [(''name'', Str ''Result''), (''isGroup'', Bool True),
                                     (''fields'',
                                      Arr [Obj [(''rule'', Str ''optional''), (''options'', Obj []),
                                                (''type'', Str ''int32''), (''name'', Str ''x''),
                                                (''id'', Num (Fin 1))]]),
                                     (''enums'', Arr []), (''messages'', Arr []),
                                     (''options'', Obj [])]]),
                          (''options'', Obj [])]]),
               (''enums'', Arr []), (''imports'', Arr []), (''options'', Obj []),
               (''services'', Arr [])]) \<and>
   (tn_next tn0 = (Str ''group'', tn1) \<and> tn_next tn1 = (name, tn2) \<and> \<not> test starts_upper name \<longrightarrow>
    parseMessageField msg rule tn0 =
      (case parseMessage msg (Obj [(''rule'', rule), (''options'', Obj [])]) (Str ''group'') tn1 of
         Inl e \<Rightarrow> Inl e
       | Inr r \<Rightarrow> Inl (Error ''Group names must start with a capital letter'')))"
proof (intro conjI impI)
  show "parse (Tokenizer (on_line 1 [''message'', ''M'', ''{'',
       ''optional'', ''group'', ''Result'', ''='', ''1'', ''{'',
         ''optional'', ''int32'', ''x'', ''='', ''1'', '';'', ''}'', ''}'']) 1) =
     Inr (Obj [(''package'', Null),
               (''messages'',
                Arr [Obj [(''name'', Str ''M''),
                          (''fields'',
                           Arr [Obj [(''rule'', Str ''optional''), (''options'', Obj []),
                                     (''id'', Num (Fin 1)), (''type'', Str ''Result''),
                                     (''name'', Str ''result'')]]),
                          (''enums'', Arr []),
                          (''messages'',
                           Arr [Obj [(''name'', Str ''Result''), (''isGroup'', Bool True),
                                     (''fields'',
                                      Arr [Obj [(''rule'', Str ''optional''), (''options'', Obj []),
                                                (''type'', Str ''int32''), (''name'', Str ''x''),
                                                (''id'', Num (Fin 1))]]),
                                     (''enums'', Arr []), (''messages'', Arr []),
                                     (''options'', Obj [])]]),
                          (''options'', Obj [])]]),
               (''enums'', Arr []), (''imports'', Arr []), (''options'', Obj []),
               (''services'', Arr [])])"
    by (simp add: full_eval)
next
  assume a: "tn_next tn0 = (Str ''group'', tn1) \<and> tn_next tn1 = (name, tn2) \<and>
    \<not> test starts_upper name"
  let ?fld = "Obj [(''rule'', rule), (''options'', Obj [])]"
  show "parseMessageField msg rule tn0 =
      (case parseMessage msg ?fld (Str ''group'') tn1 of
         Inl e \<Rightarrow> Inl e
       | Inr r \<Rightarrow> Inl (Error ''Group names must start with a capital letter''))"
  proof (cases "parseMessage msg ?fld (Str ''group'') tn1")
    case (Inl e)
    with a show ?thesis
      by (simp add: parseMessageField.simps [of msg rule tn0])
  next
    case (Inr r)
    obtain m f g t where r: "r = (m, f, g, t)" by (cases r)
    from Inr r a have "js_get g ''name'' = name"
      by (auto dest: parseMessage_name)
    with Inr r a show ?thesis
      by (simp add: parseMessageField.simps [of msg rule tn0] throw_def)
  qed
qed

theorem group_desugaring_witness:
  "tn_next (Tokenizer (on_line 1 [''group'', ''result'', ''='', ''1'', ''{'', ''}'']) 1) =
     (Str ''group'', Tokenizer (on_line 1 [''result'', ''='', ''1'', ''{'', ''}'']) 1) \<and>
   \<not> test starts_upper (Str ''result'') \<and>
   parseMessageField (Obj [(''name'', Str ''M''), (''fields'', Arr []), (''messages'', Arr [])])
     (Str ''optional'') (Tokenizer (on_line 1 [''group'', ''result'', ''='', ''1'', ''{'', ''}'']) 1) =
     Inl (Error ''Group names must start with a capital letter'')"
  using group_desugaring [of "Tokenizer (on_line 1 [''group'', ''result'', ''='', ''1'', ''{'', ''}'']) 1"
      "Tokenizer (on_line 1 [''result'', ''='', ''1'', ''{'', ''}'']) 1"
      "Str ''result''" "Tokenizer (on_line 1 [''='', ''1'', ''{'', ''}'']) 1"
      "Obj [(''name'', Str ''M''), (''fields'', Arr []), (''messages'', Arr [])]" "Str ''optional''"]
  by (simp add: full_eval)

lemma TYPEREF_first: "TYPEREF s \<Longrightarrow> \<exists>c cs. s = c # cs \<and> is_name_start c"
  by (cases s) (auto simp: TYPEREF_def NAME_def split: list.splits if_splits)

lemma TYPEREF_not_quote: "TYPEREF s \<Longrightarrow> s \<noteq> STRINGOPEN \<and> s \<noteq> STRINGOPEN_SQ"
  by (auto dest!: TYPEREF_first simp: STRINGOPEN_def STRINGOPEN_SQ_def is_name_start_def)

lemma FQTYPEREF_not_quote: "FQTYPEREF s \<Longrightarrow> s \<noteq> STRINGOPEN \<and> s \<noteq> STRINGOPEN_SQ"
  by (auto simp: FQTYPEREF_def STRINGOPEN_def STRINGOPEN_SQ_def)

text \<open>
  A property \<open>k\<close> of the top-level object other than its messages, enums and services
  keeps its value to the end of a successful parse once the header is closed; the package
  does so already in the header, once it is set.
\<close>

lemma parse_loop_keeps:
  "parse_loop topLevel header tn0 = Inr r \<Longrightarrow>
   k \<notin> {''messages'', ''enums'', ''services''} \<Longrightarrow>
   (header \<longrightarrow> k = ''package'' \<and> js_get topLevel ''package'' \<noteq> Null) \<Longrightarrow>
   js_get r k = js_get topLevel k"
proof (induction "remaining tn0" arbitrary: topLevel header tn0 rule: less_induct)
  case less
  obtain token tn where nx: "tn_next tn0 = (token, tn)" by (cases "tn_next tn0")
  note eq = less.prems(1) [unfolded parse_loop.simps [of topLevel header tn0] nx Let_def prod.case]
  from less.prems(2) have k: "k \<noteq> ''messages''" "k \<noteq> ''enums''" "k \<noteq> ''services''"
    by auto
  note h = less.prems(3)
  consider (eof) "\<not> truthy token"
    | (is_package) "truthy token" "token = Str ''package''"
    | (is_import) "truthy token" "token = Str ''import''"
    | (is_message) "truthy token" "token = Str ''message''"
    | (is_enum) "truthy token" "token = Str ''enum''"
    | (is_option) "truthy token" "token = Str ''option''"
    | (is_service) "truthy token" "token = Str ''service''"
    | (is_extend) "truthy token" "token = Str ''extend''"
    | (is_syntax) "truthy token" "token = Str ''syntax''"
    | (other) "truthy token" "token \<noteq> Str ''package''" "token \<noteq> Str ''import''"
        "token \<noteq> Str ''message''" "token \<noteq> Str ''enum''" "token \<noteq> Str ''option''"
        "token \<noteq> Str ''service''" "token \<noteq> Str ''extend''" "token \<noteq> Str ''syntax''"
    by blast
  then show ?case
  proof cases
    case eof
    with eq show ?thesis by simp
  next
    case is_package
    with eq h show ?thesis by (auto simp: throw_def split: if_splits)
  next
    case is_import
    with eq h obtain imported ta a where hd: "header"
      and c: "parseImport token tn = Inr (imported, ta)"
      and p: "js_push topLevel ''imports'' imported = Inr a"
      and r: "parse_loop a header ta = Inr r"
      by (auto simp: throw_def split: sum.splits if_splits)
    from hd h have kp: "k = ''package''" by simp
    have lt: "remaining ta < remaining tn0"
      using parseImport_le [OF c] tn_next_less [OF nx] is_import by simp
    have keep: "js_get a ''package'' = js_get topLevel ''package''"
      by (rule js_push_other [OF p]) simp_all
    from less.hyps [OF lt r less.prems(2)] h hd keep kp show ?thesis by simp
  next
    case is_message
    with eq obtain a f m ta where c: "parseMessage topLevel Null token tn = Inr (a, f, m, ta)"
      and r: "parse_loop a False ta = Inr r"
      by (auto split: sum.splits)
    have lt: "remaining ta < remaining tn0"
      using parseMessage_le [OF c] tn_next_less [OF nx] is_message by simp
    from less.hyps [OF lt r less.prems(2)] parseMessage_keeps [OF c k(1)]
    show ?thesis by simp
  next
    case is_enum
    with eq obtain a ta where c: "parseEnum topLevel token tn = Inr (a, ta)"
      and r: "parse_loop a False ta = Inr r"
      by (auto split: sum.splits)
    have lt: "remaining ta < remaining tn0"
      using parseEnum_le [OF c] tn_next_less [OF nx] is_enum by simp
    from less.hyps [OF lt r less.prems(2)] parseEnum_keeps [OF c k(2)]
    show ?thesis by simp
  next
    case is_option
    with eq h obtain a ta where hd: "header"
      and c: "parseOption topLevel token tn = Inr (a, ta)"
      and r: "parse_loop a header ta = Inr r"
      by (auto simp: throw_def split: sum.splits if_splits)
    from hd h have kp: "k = ''package''" by simp
    have lt: "remaining ta < remaining tn0"
      using parseOption_less [OF c] tn_next_le [OF nx] by simp
    have keep: "js_get a ''package'' = js_get topLevel ''package''"
      by (rule parseOption_keeps [OF c]) simp
    from less.hyps [OF lt r less.prems(2)] h hd keep kp show ?thesis by simp
  next
    case is_service
    with eq obtain a ta where c: "parseService topLevel token tn = Inr (a, ta)"
      and r: "parse_loop a header ta = Inr r"
      by (auto split: sum.splits)
    have lt: "remaining ta < remaining tn0"
      using parseService_le [OF c] tn_next_less [OF nx] is_service by simp
    have keep: "js_get a ''package'' = js_get topLevel ''package''"
      by (rule parseService_keeps [OF c]) simp
    from less.hyps [OF lt r less.prems(2)] h keep parseService_keeps [OF c k(3)]
    show ?thesis by simp
  next
    case is_extend
    with eq obtain a ta where c: "parseExtend topLevel token tn = Inr (a, ta)"
      and r: "parse_loop a header ta = Inr r"
      by (auto split: sum.splits)
    have lt: "remaining ta < remaining tn0"
      using parseExtend_le [OF c] tn_next_less [OF nx] is_extend by simp
    have keep: "js_get a ''package'' = js_get topLevel ''package''"
      by (rule parseExtend_keeps [OF c]) simp
    from less.hyps [OF lt r less.prems(2)] h keep parseExtend_keeps [OF c k(1)]
    show ?thesis by simp
  next
    case is_syntax
    with eq obtain ta where c: "parseIgnoredStatement topLevel token tn = Inr ta"
      and r: "parse_loop topLevel header ta = Inr r"
      by (auto split: sum.splits)
    have lt: "remaining ta < remaining tn0"
      using parseIgnoredStatement_le [OF c] tn_next_less [OF nx] is_syntax by simp
    from less.hyps [OF lt r less.prems(2)] h show ?thesis by simp
  next
    case other
    with eq show ?thesis by (simp add: throw_def)
  qed
qed

lemma js_get_js_delete_other:
  "k \<noteq> k' \<Longrightarrow> k' \<noteq> ''__proto__'' \<Longrightarrow> js_get (js_delete obj k') k = js_get obj k"
  by (cases obj) (auto simp: delete_conv' split: option.splits)

text \<open>
  Claim C1, as the spec states it, fails: a \<^verbatim>\<open>service\<close>, an \<^verbatim>\<open>extend\<close> block or a \<^verbatim>\<open>syntax\<close>
  directive does not close the header. Each of the three sources below puts a header
  statement after one of them, and parses.
\<close>

theorem header_open_after_service_extend_syntax:
  "parse (Tokenizer (on_line 1 [''service'', ''S'', ''{'', ''}'', ''package'', ''p'', '';'']) 1) =
     Inr (Obj [(''package'', Str ''p''), (''messages'', Arr []), (''enums'', Arr []),
               (''imports'', Arr []), (''options'', Obj []),
               (''services'', Arr [Obj [(''name'', Str ''S''), (''rpc'', Obj []), (''options'', Obj [])]])]) \<and>
   parse (Tokenizer (on_line 1 [''extend'', ''Foo'', ''{'', ''}'',
                                ''import'', STRINGOPEN, ''x.proto'', STRINGOPEN, '';'']) 1) =
     Inr (Obj [(''package'', Null),
               (''messages'', Arr [Obj [(''ref'', Str ''Foo''), (''fields'', Arr [])]]),
               (''enums'', Arr []), (''imports'', Arr [Str ''x.proto'']), (''options'', Obj []),
               (''services'', Arr [])]) \<and>
   parse (Tokenizer (on_line 1 [''syntax'', ''='', STRINGOPEN, ''proto2'', STRINGOPEN, '';'',
                                ''option'', ''a'', ''='', ''1'', '';'']) 1) =
     Inr (Obj [(''package'', Null), (''messages'', Arr []), (''enums'', Arr []),
               (''imports'', Arr []), (''options'', Obj [(''a'', Num (Fin 1))]),
               (''services'', Arr [])])"
  by (simp add: full_eval)

text \<open>
  Claim C1, amended. The header closes on a top-level \<^verbatim>\<open>message\<close> or \<^verbatim>\<open>enum\<close> declaration
  only: after one has been parsed the loop goes on with the header closed, while a
  \<^verbatim>\<open>service\<close>, an \<^verbatim>\<open>extend\<close> block and a \<^verbatim>\<open>syntax\<close> directive leave the header as it was. With
  the header closed, a \<^verbatim>\<open>package\<close>, \<^verbatim>\<open>import\<close> or \<^verbatim>\<open>option\<close> token fails the parse with
  \<^verbatim>\<open>Illegal <keyword> at line <n>\<close>, and a parse that succeeds leaves the package, the imports
  and the options of the top level as they were when the header closed. In particular a
  header statement right after \<^verbatim>\<open>message M { }\<close> or \<^verbatim>\<open>enum E { }\<close> fails, whatever follows.
\<close>

theorem header_closes_on_message_or_enum:
  "(tn_next tn0 = (Str ''message'', tn) \<longrightarrow>
    parse_loop topLevel header tn0 =
      (case parseMessage topLevel Null (Str ''message'') tn of
         Inl e \<Rightarrow> Inl e
       | Inr (topLevel', fld, msg, tn') \<Rightarrow> parse_loop topLevel' False tn')) \<and>
   (tn_next tn0 = (Str ''enum'', tn) \<longrightarrow>
    parse_loop topLevel header tn0 =
      (case parseEnum topLevel (Str ''enum'') tn of
         Inl e \<Rightarrow> Inl e
       | Inr (topLevel', tn') \<Rightarrow> parse_loop topLevel' False tn')) \<and>
   (tn_next tn0 = (Str ''service'', tn) \<longrightarrow>
    parse_loop topLevel header tn0 =
      (case parseService topLevel (Str ''service'') tn of
         Inl e \<Rightarrow> Inl e
       | Inr (topLevel', tn') \<Rightarrow> parse_loop topLevel' header tn')) \<and>
   (tn_next tn0 = (Str ''extend'', tn) \<longrightarrow>
    parse_loop topLevel header tn0 =
      (case parseExtend topLevel (Str ''extend'') tn of
         Inl e \<Rightarrow> Inl e
       | Inr (topLevel', tn') \<Rightarrow> parse_loop topLevel' header tn')) \<and>
   (tn_next tn0 = (Str ''syntax'', tn) \<longrightarrow>
    parse_loop topLevel header tn0 =
      (case parseIgnoredStatement topLevel (Str ''syntax'') tn of
         Inl e \<Rightarrow> Inl e
       | Inr tn' \<Rightarrow> parse_loop topLevel header tn')) \<and>
   (tn_next tn0 = (Str kw, tn) \<and> kw \<in> {''package'', ''import'', ''option''} \<longrightarrow>
    parse_loop topLevel False tn0 =
      Inl (Error (''Illegal '' @ kw @ '' at line '' @ show_nat (line tn)))) \<and>
   (parse_loop topLevel False tn0 = Inr r \<and> k \<in> {''package'', ''imports'', ''options''} \<longrightarrow>
    js_get r k = js_get topLevel k) \<and>
   (kw \<in> {''package'', ''import'', ''option''} \<longrightarrow>
    parse (Tokenizer (on_line l ([''message'', ''M'', ''{'', ''}'', kw] @ rest)) e) =
      Inl (Error (''Illegal '' @ kw @ '' at line '' @ show_nat l)) \<and>
    parse (Tokenizer (on_line l ([''enum'', ''E'', ''{'', ''}'', kw] @ rest)) e) =
      Inl (Error (''Illegal '' @ kw @ '' at line '' @ show_nat l)))"
proof (intro conjI impI)
  assume "tn_next tn0 = (Str ''message'', tn)"
  then show "parse_loop topLevel header tn0 =
      (case parseMessage topLevel Null (Str ''message'') tn of
         Inl e \<Rightarrow> Inl e
       | Inr (topLevel', fld, msg, tn') \<Rightarrow> parse_loop topLevel' False tn')"
    by (simp add: parse_loop.simps [of topLevel header tn0])
next
  assume "tn_next tn0 = (Str ''enum'', tn)"
  then show "parse_loop topLevel header tn0 =
      (case parseEnum topLevel (Str ''enum'') tn of
         Inl e \<Rightarrow> Inl e
       | Inr (topLevel', tn') \<Rightarrow> parse_loop topLevel' False tn')"
    by (simp add: parse_loop.simps [of topLevel header tn0])
next
  assume "tn_next tn0 = (Str ''service'', tn)"
  then show "parse_loop topLevel header tn0 =
      (case parseService topLevel (Str ''service'') tn of
         Inl e \<Rightarrow> Inl e
       | Inr (topLevel', tn') \<Rightarrow> parse_loop topLevel' header tn')"
    by (simp add: parse_loop.simps [of topLevel header tn0])
next
  assume "tn_next tn0 = (Str ''extend'', tn)"
  then show "parse_loop topLevel header tn0 =
      (case parseExtend topLevel (Str ''extend'') tn of
         Inl e \<Rightarrow> Inl e
       | Inr (topLevel', tn') \<Rightarrow> parse_loop topLevel' header tn')"
    by (simp add: parse_loop.simps [of topLevel header tn0])
next
  assume "tn_next tn0 = (Str ''syntax'', tn)"
  then show "parse_loop topLevel header tn0 =
      (case parseIgnoredStatement topLevel (Str ''syntax'') tn of
         Inl e \<Rightarrow> Inl e
       | Inr tn' \<Rightarrow> parse_loop topLevel header tn')"
    by (simp add: parse_loop.simps [of topLevel header tn0])
next
  assume "tn_next tn0 = (Str kw, tn) \<and> kw \<in> {''package'', ''import'', ''option''}"
  then show "parse_loop topLevel False tn0 =
      Inl (Error (''Illegal '' @ kw @ '' at line '' @ show_nat (line tn)))"
    by (auto simp: parse_loop.simps [of topLevel False tn0] throw_def)
next
  assume "parse_loop topLevel False tn0 = Inr r \<and> k \<in> {''package'', ''imports'', ''options''}"
  then show "js_get r k = js_get topLevel k"
    by (intro parse_loop_keeps [of topLevel False tn0 r k]) auto
next
  assume "kw \<in> {''package'', ''import'', ''option''}"
  then show "parse (Tokenizer (on_line l ([''message'', ''M'', ''{'', ''}'', kw] @ rest)) e) =
      Inl (Error (''Illegal '' @ kw @ '' at line '' @ show_nat l))"
    by (elim insertE emptyE; simp add: full_eval)
next
  assume "kw \<in> {''package'', ''import'', ''option''}"
  then show "parse (Tokenizer (on_line l ([''enum'', ''E'', ''{'', ''}'', kw] @ rest)) e) =
      Inl (Error (''Illegal '' @ kw @ '' at line '' @ show_nat l))"
    by (elim insertE emptyE; simp add: full_eval)
qed

theorem header_closes_on_message_or_enum_witness:
  "tn_next (Tokenizer (on_line 3 [''option'', ''a'', ''='', ''1'', '';'']) 3) =
     (Str ''option'', (Tokenizer (on_line 3 [''a'', ''='', ''1'', '';'']) 3)\<lparr>line := 3\<rparr>) \<and>
   parse_loop topLevel_init False (Tokenizer (on_line 3 [''option'', ''a'', ''='', ''1'', '';'']) 3) =
     Inl (Error ''Illegal option at line 3'') \<and>
   parse (Tokenizer (on_line 2 ([''message'', ''M'', ''{'', ''}'', ''package''] @ [''p'', '';''])) 2) =
     Inl (Error ''Illegal package at line 2'') \<and>
   parse (Tokenizer (on_line 2 ([''enum'', ''E'', ''{'', ''}'', ''import''] @
                        [STRINGOPEN, ''x.proto'', STRINGOPEN, '';''])) 2) =
     Inl (Error ''Illegal import at line 2'') \<and>
   parse_loop topLevel_init False
     (Tokenizer (on_line 1 [''service'', ''S'', ''{'', ''}'', ''enum'', ''E'', ''{'', ''}'']) 1) =
     Inr (Obj [(''name'', Str ''[ROOT]''), (''package'', Null), (''messages'', Arr []),
               (''enums'', Arr [Obj [(''name'', Str ''E''), (''values'', Arr []), (''options'', Obj [])]]),
               (''imports'', Arr []), (''options'', Obj []),
               (''services'', Arr [Obj [(''name'', Str ''S''), (''rpc'', Obj []), (''options'', Obj [])]])])"
  using header_closes_on_message_or_enum
    [of "Tokenizer (on_line 3 [''option'', ''a'', ''='', ''1'', '';'']) 3"
      "(Tokenizer (on_line 3 [''a'', ''='', ''1'', '';'']) 3)\<lparr>line := 3\<rparr>"
      topLevel_init False "''option''"]
    header_closes_on_message_or_enum [of _ _ _ _ "''package''" _ _ 2 "[''p'', '';'']" 2]
    header_closes_on_message_or_enum
    [of _ _ _ _ "''import''" _ _ 2 "[STRINGOPEN, ''x.proto'', STRINGOPEN, '';'']" 2]
  by (simp add: full_eval)

lemma parse_package_step:
  assumes "TYPEREF p"
  shows "parse_loop topLevel_init True (Tokenizer (on_line l (''package'' # p # '';'' # rest)) e) =
     parse_loop (js_set topLevel_init ''package'' (Str p)) True
       ((Tokenizer (on_line l rest) e)\<lparr>line := l\<rparr>)"
  using assms TYPEREF_not_quote [OF assms]
  by (subst parse_loop.simps)
    (simp add: tn_eval parsePackage_def topLevel_init_def test_def Lang_tokens Let_def throw_def)

lemma js_get_js_set_same:
  "js_get obj k = Null \<Longrightarrow> k \<noteq> ''__proto__'' \<Longrightarrow> js_get (js_set obj k v) k = v"
  by (cases obj) (simp_all add: update_conv')

text \<open>
  The \<^verbatim>\<open>package\<close> branch of the loop in the header, from any top-level object whose package is
  still \<^verbatim>\<open>null\<close>: the name is stored, and it is the package of the result.
\<close>

lemma parse_loop_package:
  assumes "tn_next t0 = (Str ''package'', t1)" and "js_get root ''package'' = Null"
    and "tn_next t1 = (Str q, t2)" and "TYPEREF q" and "tn_next t2 = (Str '';'', t3)"
  shows "parse_loop root True t0 = parse_loop (js_set root ''package'' (Str q)) True t3"
    and "js_get (js_set root ''package'' (Str q)) ''package'' = Str q"
    and "parse_loop root True t0 = Inr r \<Longrightarrow> js_get r ''package'' = Str q"
proof -
  show step: "parse_loop root True t0 = parse_loop (js_set root ''package'' (Str q)) True t3"
    using assms
    by (simp add: parse_loop.simps [of root True t0] parsePackage_def test_def END_def Let_def)
  show set: "js_get (js_set root ''package'' (Str q)) ''package'' = Str q"
    using assms(2) by (simp add: js_get_js_set_same)
  assume "parse_loop root True t0 = Inr r"
  with step have "parse_loop (js_set root ''package'' (Str q)) True t3 = Inr r" by simp
  from parse_loop_keeps [OF this, of "''package''"] set show "js_get r ''package'' = Str q"
    by simp
qed

text \<open>
  Claim C9. A \<^verbatim>\<open>package\<close> statement met when the package is already set fails the parse
  with \<^verbatim>\<open>Illegal package at line <n>\<close>, in the header as well; and a package that is set
  is still the package of the Schema when the parse succeeds, so no later statement
  replaces it. A statement \<^verbatim>\<open>package q;\<close> with a qualified name \<open>q\<close>, met in the header while the
  package is unset, is recorded whatever the header has read before: the loop goes on
  with the package \<open>q\<close>, and \<open>q\<close> is the package of the result when the parse succeeds. In
  particular the Schema of every source that starts with \<^verbatim>\<open>package p;\<close> and parses has the
  package \<open>p\<close>, the source that holds nothing else parses, and so does a package after an
  import, while a second package after it fails.
\<close>

theorem package_at_most_once:
  "(tn_next tn0 = (Str ''package'', tn) \<and> js_get topLevel ''package'' \<noteq> Null \<longrightarrow>
    parse_loop topLevel header tn0 =
      Inl (Error (''Illegal package at line '' @ show_nat (line tn)))) \<and>
   (parse_loop topLevel header tn0 = Inr r \<and> js_get topLevel ''package'' \<noteq> Null \<longrightarrow>
    js_get r ''package'' = js_get topLevel ''package'') \<and>
   (TYPEREF p \<and> parse (Tokenizer (on_line l ([''package'', p, '';''] @ rest)) e) = Inr s \<longrightarrow>
    js_get s ''package'' = Str p) \<and>
   (TYPEREF p \<longrightarrow>
    parse (Tokenizer (on_line l [''package'', p, '';'']) e) =
      Inr (Obj [(''package'', Str p), (''messages'', Arr []), (''enums'', Arr []),
                (''imports'', Arr []), (''options'', Obj []), (''services'', Arr [])]) \<and>
    parse (Tokenizer (on_line l ([''package'', p, '';'', ''package''] @ rest)) e) =
      Inl (Error (''Illegal package at line '' @ show_nat l))) \<and>
   (tn_next t0 = (Str ''package'', t1) \<and> js_get root ''package'' = Null \<and>
    tn_next t1 = (Str q, t2) \<and> TYPEREF q \<and> tn_next t2 = (Str '';'', t3) \<longrightarrow>
    parse_loop root True t0 = parse_loop (js_set root ''package'' (Str q)) True t3 \<and>
    js_get (js_set root ''package'' (Str q)) ''package'' = Str q \<and>
    (parse_loop root True t0 = Inr r' \<longrightarrow> js_get r' ''package'' = Str q)) \<and>
   parse (Tokenizer (on_line 1 [''import'', STRINGOPEN, ''x.proto'', STRINGOPEN, '';'',
                                ''package'', ''p'', '';'']) 1) =
     Inr (Obj [(''package'', Str ''p''), (''messages'', Arr []), (''enums'', Arr []),
               (''imports'', Arr [Str ''x.proto'']), (''options'', Obj []), (''services'', Arr [])]) \<and>
   parse (Tokenizer (on_line 1 [''import'', STRINGOPEN, ''x.proto'', STRINGOPEN, '';'',
                                ''package'', ''p'', '';'', ''package'', ''q'', '';'']) 1) =
     Inl (Error ''Illegal package at line 1'')"
proof (intro conjI impI)
  assume "tn_next tn0 = (Str ''package'', tn) \<and> js_get topLevel ''package'' \<noteq> Null"
  then show "parse_loop topLevel header tn0 =
      Inl (Error (''Illegal package at line '' @ show_nat (line tn)))"
    by (simp add: parse_loop.simps [of topLevel header tn0] throw_def)
next
  assume "parse_loop topLevel header tn0 = Inr r \<and> js_get topLevel ''package'' \<noteq> Null"
  then show "js_get r ''package'' = js_get topLevel ''package''"
    by (intro parse_loop_keeps [of topLevel header tn0 r]) auto
next
  assume a: "TYPEREF p \<and> parse (Tokenizer (on_line l ([''package'', p, '';''] @ rest)) e) = Inr s"
  define tn' where "tn' = (Tokenizer (on_line l rest) e)\<lparr>line := l\<rparr>"
  from a parse_package_step [of p l rest e] have
    st: "parse_loop topLevel_init True (Tokenizer (on_line l (''package'' # p # '';'' # rest)) e) =
      parse_loop (js_set topLevel_init ''package'' (Str p)) True tn'"
    by (simp add: tn'_def)
  from a obtain r where r: "parse_loop (js_set topLevel_init ''package'' (Str p)) True tn' = Inr r"
    and s: "s = js_delete r ''name''"
    by (auto simp: parse_def st split: sum.splits)
  have "js_get r ''package'' = js_get (js_set topLevel_init ''package'' (Str p)) ''package''"
    by (rule parse_loop_keeps [OF r]) (simp_all add: topLevel_init_def)
  then show "js_get s ''package'' = Str p"
    by (simp add: s js_get_js_delete_other topLevel_init_def)
next
  assume t: "TYPEREF p"
  show "parse (Tokenizer (on_line l [''package'', p, '';'']) e) =
      Inr (Obj [(''package'', Str p), (''messages'', Arr []), (''enums'', Arr []),
                (''imports'', Arr []), (''options'', Obj []), (''services'', Arr [])])"
    unfolding parse_def append.simps parse_package_step [OF t]
    by (subst parse_loop.simps) (simp add: tn_eval topLevel_init_def js_eval)
next
  assume t: "TYPEREF p"
  show "parse (Tokenizer (on_line l ([''package'', p, '';'', ''package''] @ rest)) e) =
      Inl (Error (''Illegal package at line '' @ show_nat l))"
    unfolding parse_def append.simps parse_package_step [OF t]
    by (subst parse_loop.simps) (simp add: tn_eval topLevel_init_def throw_def)
next
  assume "tn_next t0 = (Str ''package'', t1) \<and> js_get root ''package'' = Null \<and>
    tn_next t1 = (Str q, t2) \<and> TYPEREF q \<and> tn_next t2 = (Str '';'', t3)"
  then show "parse_loop root True t0 = parse_loop (js_set root ''package'' (Str q)) True t3"
    by (intro parse_loop_package(1) [of t0 t1 root q t2 t3]) simp_all
next
  assume "tn_next t0 = (Str ''package'', t1) \<and> js_get root ''package'' = Null \<and>
    tn_next t1 = (Str q, t2) \<and> TYPEREF q \<and> tn_next t2 = (Str '';'', t3)"
  then show "js_get (js_set root ''package'' (Str q)) ''package'' = Str q"
    by (intro parse_loop_package(2) [of t0 t1 root q t2 t3]) simp_all
next
  assume "tn_next t0 = (Str ''package'', t1) \<and> js_get root ''package'' = Null \<and>
    tn_next t1 = (Str q, t2) \<and> TYPEREF q \<and> tn_next t2 = (Str '';'', t3)"
    and "parse_loop root True t0 = Inr r'"
  then show "js_get r' ''package'' = Str q"
    by (intro parse_loop_package(3) [of t0 t1 root q t2 t3 r']) simp_all
next
  show "parse (Tokenizer (on_line 1 [''import'', STRINGOPEN, ''x.proto'', STRINGOPEN, '';'',
                                ''package'', ''p'', '';'']) 1) =
     Inr (Obj [(''package'', Str ''p''), (''messages'', Arr []), (''enums'', Arr []),
               (''imports'', Arr [Str ''x.proto'']), (''options'', Obj []), (''services'', Arr [])])"
    by (simp add: full_eval)
next
  show "parse (Tokenizer (on_line 1 [''import'', STRINGOPEN, ''x.proto'', STRINGOPEN, '';'',
                                ''package'', ''p'', '';'', ''package'', ''q'', '';'']) 1) =
     Inl (Error ''Illegal package at line 1'')"
    by (simp add: full_eval)
qed

theorem package_at_most_once_witness:
  "TYPEREF ''foo.bar'' \<and>
   parse (Tokenizer (on_line 1 [''package'', ''foo.bar'', '';'']) 1) =
     Inr (Obj [(''package'', Str ''foo.bar''), (''messages'', Arr []), (''enums'', Arr []),
               (''imports'', Arr []), (''options'', Obj []), (''services'', Arr [])]) \<and>
   js_get (Obj [(''package'', Str ''foo.bar''), (''messages'', Arr []), (''enums'', Arr []),
               (''imports'', Arr []), (''options'', Obj []), (''services'', Arr [])]) ''package'' =
     Str ''foo.bar'' \<and>
   parse (Tokenizer (on_line 1 ([''package'', ''foo.bar'', '';'', ''package''] @ [''q'', '';''])) 1) =
     Inl (Error ''Illegal package at line 1'') \<and>
   tn_next (Tokenizer (on_line 2 [''package'', ''q'', '';'']) 2) =
     (Str ''package'', (Tokenizer (on_line 2 [''q'', '';'']) 2)\<lparr>line := 2\<rparr>) \<and>
   js_get (js_set topLevel_init ''package'' (Str ''p'')) ''package'' \<noteq> Null \<and>
   parse_loop (js_set topLevel_init ''package'' (Str ''p'')) True
     (Tokenizer (on_line 2 [''package'', ''q'', '';'']) 2) =
     Inl (Error ''Illegal package at line 2'') \<and>
   parse_loop (js_set topLevel_init ''package'' (Str ''p'')) True
     (Tokenizer (on_line 2 [''enum'', ''E'', ''{'', ''}'']) 2) =
     Inr (Obj [(''name'', Str ''[ROOT]''), (''package'', Str ''p''), (''messages'', Arr []),
               (''enums'', Arr [Obj [(''name'', Str ''E''), (''values'', Arr []), (''options'', Obj [])]]),
               (''imports'', Arr []), (''options'', Obj []), (''services'', Arr [])]) \<and>
   tn_next (Tokenizer (on_line 1 [''package'', ''p'', '';'', ''enum'', ''E'', ''{'', ''}'']) 1) =
     (Str ''package'', Tokenizer (on_line 1 [''p'', '';'', ''enum'', ''E'', ''{'', ''}'']) 1) \<and>
   js_get (Obj [(''name'', Str ''[ROOT]''), (''package'', Null), (''messages'', Arr []),
                (''enums'', Arr []), (''imports'', Arr [Str ''x.proto'']),
                (''options'', Obj [(''a'', Num (Fin 1))]), (''services'', Arr [])]) ''package'' = Null \<and>
   tn_next (Tokenizer (on_line 1 [''p'', '';'', ''enum'', ''E'', ''{'', ''}'']) 1) =
     (Str ''p'', Tokenizer (on_line 1 ['';'', ''enum'', ''E'', ''{'', ''}'']) 1) \<and>
   TYPEREF ''p'' \<and>
   tn_next (Tokenizer (on_line 1 ['';'', ''enum'', ''E'', ''{'', ''}'']) 1) =
     (Str '';'', Tokenizer (on_line 1 [''enum'', ''E'', ''{'', ''}'']) 1) \<and>
   parse_loop (Obj [(''name'', Str ''[ROOT]''), (''package'', Null), (''messages'', Arr []),
                    (''enums'', Arr []), (''imports'', Arr [Str ''x.proto'']),
                    (''options'', Obj [(''a'', Num (Fin 1))]), (''services'', Arr [])]) True
     (Tokenizer (on_line 1 [''package'', ''p'', '';'', ''enum'', ''E'', ''{'', ''}'']) 1) =
     Inr (Obj [(''name'', Str ''[ROOT]''), (''package'', Str ''p''), (''messages'', Arr []),
               (''enums'', Arr [Obj [(''name'', Str ''E''), (''values'', Arr []), (''options'', Obj [])]]),
               (''imports'', Arr [Str ''x.proto'']), (''options'', Obj [(''a'', Num (Fin 1))]),
               (''services'', Arr [])])"
  using package_at_most_once [where p = "''foo.bar''" and l = 1 and rest = "[''q'', '';'']" and e = 1,
      THEN conjunct2, THEN conjunct2, THEN conjunct2, THEN conjunct1]
    package_at_most_once [where p = "''foo.bar''" and l = 1 and rest = "[]" and e = 1
      and s = "Obj [(''package'', Str ''foo.bar''), (''messages'', Arr []), (''enums'', Arr []),
                    (''imports'', Arr []), (''options'', Obj []), (''services'', Arr [])]",
      THEN conjunct2, THEN conjunct2, THEN conjunct1]
    package_at_most_once [where ?tn0.0 = "Tokenizer (on_line 2 [''package'', ''q'', '';'']) 2"
      and tn = "(Tokenizer (on_line 2 [''q'', '';'']) 2)\<lparr>line := 2\<rparr>"
      and topLevel = "js_set topLevel_init ''package'' (Str ''p'')" and header = True,
      THEN conjunct1]
    package_at_most_once [where ?tn0.0 = "Tokenizer (on_line 2 [''enum'', ''E'', ''{'', ''}'']) 2"
      and topLevel = "js_set topLevel_init ''package'' (Str ''p'')" and header = True
      and r = "Obj [(''name'', Str ''[ROOT]''), (''package'', Str ''p''), (''messages'', Arr []),
            (''enums'', Arr [Obj [(''name'', Str ''E''), (''values'', Arr []), (''options'', Obj [])]]),
            (''imports'', Arr []), (''options'', Obj []), (''services'', Arr [])]",
      THEN conjunct2, THEN conjunct1]
    package_at_most_once
      [where ?t0.0 = "Tokenizer (on_line 1 [''package'', ''p'', '';'', ''enum'', ''E'', ''{'', ''}'']) 1"
      and ?t1.0 = "Tokenizer (on_line 1 [''p'', '';'', ''enum'', ''E'', ''{'', ''}'']) 1"
      and ?t2.0 = "Tokenizer (on_line 1 ['';'', ''enum'', ''E'', ''{'', ''}'']) 1"
      and ?t3.0 = "Tokenizer (on_line 1 [''enum'', ''E'', ''{'', ''}'']) 1"
      and q = "''p''"
      and root = "Obj [(''name'', Str ''[ROOT]''), (''package'', Null), (''messages'', Arr []),
                    (''enums'', Arr []), (''imports'', Arr [Str ''x.proto'']),
                    (''options'', Obj [(''a'', Num (Fin 1))]), (''services'', Arr [])]"
      and r' = "Obj [(''name'', Str ''[ROOT]''), (''package'', Str ''p''), (''messages'', Arr []),
               (''enums'', Arr [Obj [(''name'', Str ''E''), (''values'', Arr []), (''options'', Obj [])]]),
               (''imports'', Arr [Str ''x.proto'']), (''options'', Obj [(''a'', Num (Fin 1))]),
               (''services'', Arr [])]",
      THEN conjunct2, THEN conjunct2, THEN conjunct2, THEN conjunct2, THEN conjunct1]
  by (simp add: full_eval)

text \<open>
  Claim C7, as the spec states it, fails: the loop of \<^verbatim>\<open>_parseFieldOptions\<close> takes an option
  after an option with no continuation token between them, and it takes the closing
  bracket right after the opening one. The first source below has two adjacent options and
  no comma, the second has no option at all; both parse.
\<close>

theorem field_options_separator_optional:
  "parse (Tokenizer (on_line 1 [''message'', ''M'', ''{'', ''optional'', ''int32'', ''x'', ''='', ''1'',
       ''['', ''a'', ''='', ''1'', ''d'', ''='', ''true'', '']'', '';'', ''}'']) 1) =
     Inr (Obj [(''package'', Null),
               (''messages'',
                Arr [Obj [(''name'', Str ''M''),
                          (''fields'',
                           Arr [Obj [(''rule'', Str ''optional''),
                                     (''options'', Obj [(''a'', Num (Fin 1)), (''d'', Bool True)]),
                                     (''type'', Str ''int32''), (''name'', Str ''x''),
                                     (''id'', Num (Fin 1))]]),
                          (''enums'', Arr []), (''messages'', Arr []), (''options'', Obj [])]]),
               (''enums'', Arr []), (''imports'', Arr []), (''options'', Obj []),
               (''services'', Arr [])]) \<and>
   parse (Tokenizer (on_line 1 [''message'', ''M'', ''{'', ''optional'', ''int32'', ''x'', ''='', ''1'',
       ''['', '']'', '';'', ''}'']) 1) =
     Inr (Obj [(''package'', Null),
               (''messages'',
                Arr [Obj [(''name'', Str ''M''),
                          (''fields'',
                           Arr [Obj [(''rule'', Str ''optional''), (''options'', Obj []),
                                     (''type'', Str ''int32''), (''name'', Str ''x''),
                                     (''id'', Num (Fin 1))]]),
                          (''enums'', Arr []), (''messages'', Arr []), (''options'', Obj [])]]),
               (''enums'', Arr []), (''imports'', Arr []), (''options'', Obj []),
               (''services'', Arr [])])"
  by (simp add: full_eval)

text \<open>
  Claim C7, amended. A bracketed field-options list is zero or more options closed by the
  bracket-close token. A continuation token before the first option is rejected; after an
  option, the next option may follow with a continuation token before it or without one;
  the token after a continuation token must start an option, so a continuation token
  before the closing bracket is rejected. With and without the comma the list
  \<^verbatim>\<open>[a = 1, d = true]\<close> gives the same field.
\<close>

theorem field_options_list:
  "(tn_next tn0 = (Str '']'', tn) \<longrightarrow> parseFieldOptions_loop msg fld first tn0 = Inr (fld, tn)) \<and>
   (tn_next tn0 = (Str '','', tn) \<longrightarrow>
    parseFieldOptions msg fld token0 tn0 =
      Inl (Error (''Illegal start of message field options in message '' @
                  ToString (js_get msg ''name'') @ ''#'' @ ToString (js_get fld ''name'') @
                  '' at line '' @ show_nat (line tn) @ '': ,''))) \<and>
   (tn_next tn0 = (Str '','', tn) \<and> tn_next tn = (token, tn1) \<longrightarrow>
    parseFieldOptions_loop msg fld False tn0 =
      (case parseFieldOption msg fld token tn1 of
         Inl e \<Rightarrow> Inl e
       | Inr (fld', tn') \<Rightarrow> parseFieldOptions_loop msg fld' False tn')) \<and>
   (tn_next tn0 = (token, tn) \<and> token \<noteq> Str '']'' \<and> token \<noteq> Str '','' \<longrightarrow>
    parseFieldOptions_loop msg fld first tn0 =
      (case parseFieldOption msg fld token tn of
         Inl e \<Rightarrow> Inl e
       | Inr (fld', tn') \<Rightarrow> parseFieldOptions_loop msg fld' False tn')) \<and>
   parse (Tokenizer (on_line 1 [''message'', ''M'', ''{'', ''optional'', ''int32'', ''x'', ''='', ''1'',
       ''['', ''a'', ''='', ''1'', '','', ''d'', ''='', ''true'', '']'', '';'', ''}'']) 1) =
     parse (Tokenizer (on_line 1 [''message'', ''M'', ''{'', ''optional'', ''int32'', ''x'', ''='', ''1'',
       ''['', ''a'', ''='', ''1'', ''d'', ''='', ''true'', '']'', '';'', ''}'']) 1) \<and>
   parse (Tokenizer (on_line 1 [''message'', ''M'', ''{'', ''optional'', ''int32'', ''x'', ''='', ''1'',
       ''['', '','', ''d'', ''='', ''true'', '']'', '';'', ''}'']) 1) =
     Inl (Error ''Illegal start of message field options in message M#x at line 1: ,'') \<and>
   parse (Tokenizer (on_line 1 [''message'', ''M'', ''{'', ''optional'', ''int32'', ''x'', ''='', ''1'',
       ''['', ''a'', ''='', ''1'', '','', '']'', '';'', ''}'']) 1) =
     Inl (Error ''Illegal field option in message M#x at line 1: ]'')"
proof (intro conjI impI)
  assume "tn_next tn0 = (Str '']'', tn)"
  then show "parseFieldOptions_loop msg fld first tn0 = Inr (fld, tn)"
    by (simp add: parseFieldOptions_loop.simps [of msg fld first tn0] OPTCLOSE_def)
next
  assume "tn_next tn0 = (Str '','', tn)"
  then show "parseFieldOptions msg fld token0 tn0 =
      Inl (Error (''Illegal start of message field options in message '' @
                  ToString (js_get msg ''name'') @ ''#'' @ ToString (js_get fld ''name'') @
                  '' at line '' @ show_nat (line tn) @ '': ,''))"
    by (simp add: parseFieldOptions_def parseFieldOptions_loop.simps [of msg fld True tn0]
        OPTCLOSE_def OPTEND_def throw_def)
next
  assume "tn_next tn0 = (Str '','', tn) \<and> tn_next tn = (token, tn1)"
  then show "parseFieldOptions_loop msg fld False tn0 =
      (case parseFieldOption msg fld token tn1 of
         Inl e \<Rightarrow> Inl e
       | Inr (fld', tn') \<Rightarrow> parseFieldOptions_loop msg fld' False tn')"
    by (simp add: parseFieldOptions_loop.simps [of msg fld False tn0] OPTCLOSE_def OPTEND_def)
next
  assume "tn_next tn0 = (token, tn) \<and> token \<noteq> Str '']'' \<and> token \<noteq> Str '','' "
  then show "parseFieldOptions_loop msg fld first tn0 =
      (case parseFieldOption msg fld token tn of
         Inl e \<Rightarrow> Inl e
       | Inr (fld', tn') \<Rightarrow> parseFieldOptions_loop msg fld' False tn')"
    by (simp add: parseFieldOptions_loop.simps [of msg fld first tn0] OPTCLOSE_def OPTEND_def)
next
  show "parse (Tokenizer (on_line 1 [''message'', ''M'', ''{'', ''optional'', ''int32'', ''x'', ''='', ''1'',
       ''['', ''a'', ''='', ''1'', '','', ''d'', ''='', ''true'', '']'', '';'', ''}'']) 1) =
     parse (Tokenizer (on_line 1 [''message'', ''M'', ''{'', ''optional'', ''int32'', ''x'', ''='', ''1'',
       ''['', ''a'', ''='', ''1'', ''d'', ''='', ''true'', '']'', '';'', ''}'']) 1)"
    by (simp add: full_eval)
next
  show "parse (Tokenizer (on_line 1 [''message'', ''M'', ''{'', ''optional'', ''int32'', ''x'', ''='', ''1'',
       ''['', '','', ''d'', ''='', ''true'', '']'', '';'', ''}'']) 1) =
     Inl (Error ''Illegal start of message field options in message M#x at line 1: ,'')"
    by (simp add: full_eval)
next
  show "parse (Tokenizer (on_line 1 [''message'', ''M'', ''{'', ''optional'', ''int32'', ''x'', ''='', ''1'',
       ''['', ''a'', ''='', ''1'', '','', '']'', '';'', ''}'']) 1) =
     Inl (Error ''Illegal field option in message M#x at line 1: ]'')"
    by (simp add: full_eval)
qed

theorem field_options_list_witness:
  "tn_next (Tokenizer (on_line 1 ['']'', '';'']) 1) =
     (Str '']'', (Tokenizer (on_line 1 ['';'']) 1)\<lparr>line := 1\<rparr>) \<and>
   parseFieldOptions_loop (Obj [(''name'', Str ''M'')]) (Obj [(''name'', Str ''x''), (''options'', Obj [])])
     True (Tokenizer (on_line 1 ['']'', '';'']) 1) =
     Inr (Obj [(''name'', Str ''x''), (''options'', Obj [])],
          (Tokenizer (on_line 1 ['';'']) 1)\<lparr>line := 1\<rparr>) \<and>
   tn_next (Tokenizer (on_line 1 ['','', ''d'', ''='', ''true'', '']'']) 1) =
     (Str '','', (Tokenizer (on_line 1 [''d'', ''='', ''true'', '']'']) 1)\<lparr>line := 1\<rparr>) \<and>
   parseFieldOptions (Obj [(''name'', Str ''M'')]) (Obj [(''name'', Str ''x''), (''options'', Obj [])])
     (Str ''['') (Tokenizer (on_line 1 ['','', ''d'', ''='', ''true'', '']'']) 1) =
     Inl (Error ''Illegal start of message field options in message M#x at line 1: ,'') \<and>
   parseFieldOptions_loop (Obj [(''name'', Str ''M'')]) (Obj [(''name'', Str ''x''), (''options'', Obj [])])
     False (Tokenizer (on_line 1 ['','', ''d'', ''='', ''true'', '']'']) 1) =
     Inr (Obj [(''name'', Str ''x''), (''options'', Obj [(''d'', Bool True)])],
          (Tokenizer [] 1)\<lparr>line := 1\<rparr>) \<and>
   parseFieldOptions_loop (Obj [(''name'', Str ''M'')]) (Obj [(''name'', Str ''x''), (''options'', Obj [])])
     True (Tokenizer (on_line 1 [''a'', ''='', ''1'', ''d'', ''='', ''true'', '']'']) 1) =
     Inr (Obj [(''name'', Str ''x''), (''options'', Obj [(''a'', Num (Fin 1)), (''d'', Bool True)])],
          (Tokenizer [] 1)\<lparr>line := 1\<rparr>)"
  using field_options_list [of "Tokenizer (on_line 1 ['']'', '';'']) 1"
      "(Tokenizer (on_line 1 ['';'']) 1)\<lparr>line := 1\<rparr>"
      "Obj [(''name'', Str ''M'')]" "Obj [(''name'', Str ''x''), (''options'', Obj [])]" True,
      THEN conjunct1]
    field_options_list [of "Tokenizer (on_line 1 ['','', ''d'', ''='', ''true'', '']'']) 1"
      "(Tokenizer (on_line 1 [''d'', ''='', ''true'', '']'']) 1)\<lparr>line := 1\<rparr>"
      "Obj [(''name'', Str ''M'')]" "Obj [(''name'', Str ''x''), (''options'', Obj [])]" _ "Str ''[''",
      THEN conjunct2, THEN conjunct1]
    field_options_list [of "Tokenizer (on_line 1 ['','', ''d'', ''='', ''true'', '']'']) 1"
      "(Tokenizer (on_line 1 [''d'', ''='', ''true'', '']'']) 1)\<lparr>line := 1\<rparr>"
      "Obj [(''name'', Str ''M'')]" "Obj [(''name'', Str ''x''), (''options'', Obj [])]" _ _
      "Str ''d''" "(Tokenizer (on_line 1 [''='', ''true'', '']'']) 1)\<lparr>line := 1\<rparr>",
      THEN conjunct2, THEN conjunct2, THEN conjunct1]
    field_options_list [of "Tokenizer (on_line 1 [''a'', ''='', ''1'', ''d'', ''='', ''true'', '']'']) 1"
      "(Tokenizer (on_line 1 [''='', ''1'', ''d'', ''='', ''true'', '']'']) 1)\<lparr>line := 1\<rparr>"
      "Obj [(''name'', Str ''M'')]" "Obj [(''name'', Str ''x''), (''options'', Obj [])]" True _
      "Str ''a''" _,
      THEN conjunct2, THEN conjunct2, THEN conjunct2, THEN conjunct1]
  by (simp add: full_eval)

text \<open>
  Claim C5. A custom option name keeps its parentheses and the dotted continuation that
  follows the closing parenthesis: for every qualified name \<open>n\<close> and every continuation \<open>c\<close>
  (a dot and a qualified name), \<^verbatim>\<open>option (n) = "v";\<close> stores \<open>v\<close> under the key \<^verbatim>\<open>(n)\<close> and
  \<^verbatim>\<open>option (n)c = 1;\<close> stores 1 under the key \<^verbatim>\<open>(n)c\<close>; a bracketed field option stores its
  value under the same keys. The instances are the keys \<^verbatim>\<open>(foo.bar)\<close> and \<^verbatim>\<open>(foo.bar).baz\<close>.
\<close>

theorem custom_option_key:
  "(TYPEREF n \<longrightarrow>
    parse (Tokenizer (on_line l [''option'', ''('', n, '')'', ''='', STRINGOPEN, v, STRINGOPEN, '';'']) e) =
      Inr (Obj [(''package'', Null), (''messages'', Arr []), (''enums'', Arr []), (''imports'', Arr []),
                (''options'', Obj [(''('' @ n @ '')'', Str v)]), (''services'', Arr [])])) \<and>
   (TYPEREF n \<and> FQTYPEREF c \<longrightarrow>
    parse (Tokenizer (on_line l [''option'', ''('', n, '')'', c, ''='', ''1'', '';'']) e) =
      Inr (Obj [(''package'', Null), (''messages'', Arr []), (''enums'', Arr []), (''imports'', Arr []),
                (''options'', Obj [(''('' @ n @ '')'' @ c, Num (Fin 1))]), (''services'', Arr [])])) \<and>
   (TYPEREF n \<longrightarrow>
    parseFieldOptions (Obj [(''name'', Str ''M'')]) (Obj [(''name'', Str ''x''), (''options'', Obj [])])
      (Str ''['') (Tokenizer (on_line l [''('', n, '')'', ''='', STRINGOPEN, v, STRINGOPEN, '']'']) e) =
      Inr (Obj [(''name'', Str ''x''), (''options'', Obj [(''('' @ n @ '')'', Str v)])],
           \<lparr>source = [], line = l, stringEndsWith = STRINGOPEN, readingString = 0, eof_line = e\<rparr>)) \<and>
   (TYPEREF n \<and> FQTYPEREF c \<longrightarrow>
    parseFieldOptions (Obj [(''name'', Str ''M'')]) (Obj [(''name'', Str ''x''), (''options'', Obj [])])
      (Str ''['') (Tokenizer (on_line l [''('', n, '')'', c, ''='', ''1'', '']'']) e) =
      Inr (Obj [(''name'', Str ''x''), (''options'', Obj [(''('' @ n @ '')'' @ c, Num (Fin 1))])],
           \<lparr>source = [], line = l, stringEndsWith = STRINGOPEN, readingString = 0, eof_line = e\<rparr>))"
proof (intro conjI impI)
  assume n: "TYPEREF n"
  with TYPEREF_not_quote [OF n]
  show "parse (Tokenizer (on_line l [''option'', ''('', n, '')'', ''='', STRINGOPEN, v, STRINGOPEN, '';'']) e) =
      Inr (Obj [(''package'', Null), (''messages'', Arr []), (''enums'', Arr []), (''imports'', Arr []),
                (''options'', Obj [(''('' @ n @ '')'', Str v)]), (''services'', Arr [])])"
    by (simp add: parse_def topLevel_init_def parse_loop.simps parseOption_def tn_eval js_eval
        Lang_tokens test_def FQTYPEREF_def Let_def throw_def)
next
  assume a: "TYPEREF n \<and> FQTYPEREF c"
  with TYPEREF_not_quote [of n] FQTYPEREF_not_quote [of c]
  show "parse (Tokenizer (on_line l [''option'', ''('', n, '')'', c, ''='', ''1'', '';'']) e) =
      Inr (Obj [(''package'', Null), (''messages'', Arr []), (''enums'', Arr []), (''imports'', Arr []),
                (''options'', Obj [(''('' @ n @ '')'' @ c, Num (Fin 1))]), (''services'', Arr [])])"
    by (simp add: parse_def topLevel_init_def parse_loop.simps parseOption_def tn_eval js_eval
        Lang_tokens test_def NUMBER_def num_eval)
next
  assume n: "TYPEREF n"
  with TYPEREF_not_quote [OF n]
  show "parseFieldOptions (Obj [(''name'', Str ''M'')]) (Obj [(''name'', Str ''x''), (''options'', Obj [])])
      (Str ''['') (Tokenizer (on_line l [''('', n, '')'', ''='', STRINGOPEN, v, STRINGOPEN, '']'']) e) =
      Inr (Obj [(''name'', Str ''x''), (''options'', Obj [(''('' @ n @ '')'', Str v)])],
           \<lparr>source = [], line = l, stringEndsWith = STRINGOPEN, readingString = 0, eof_line = e\<rparr>)"
    by (simp add: parseFieldOptions_def parseFieldOptions_loop.simps parseFieldOption_def tn_eval js_eval
        Lang_tokens test_def FQTYPEREF_def Let_def throw_def)
next
  assume a: "TYPEREF n \<and> FQTYPEREF c"
  with TYPEREF_not_quote [of n] FQTYPEREF_not_quote [of c]
  show "parseFieldOptions (Obj [(''name'', Str ''M'')]) (Obj [(''name'', Str ''x''), (''options'', Obj [])])
      (Str ''['') (Tokenizer (on_line l [''('', n, '')'', c, ''='', ''1'', '']'']) e) =
      Inr (Obj [(''name'', Str ''x''), (''options'', Obj [(''('' @ n @ '')'' @ c, Num (Fin 1))])],
           \<lparr>source = [], line = l, stringEndsWith = STRINGOPEN, readingString = 0, eof_line = e\<rparr>)"
    by (simp add: parseFieldOptions_def parseFieldOptions_loop.simps parseFieldOption_def tn_eval js_eval
        Lang_tokens test_def NUMBER_def num_eval)
qed

theorem custom_option_key_witness:
  "TYPEREF ''foo.bar'' \<and> FQTYPEREF ''.baz'' \<and>
   parse (Tokenizer (on_line 1 [''option'', ''('', ''foo.bar'', '')'', ''='',
                                STRINGOPEN, ''v'', STRINGOPEN, '';'']) 1) =
     Inr (Obj [(''package'', Null), (''messages'', Arr []), (''enums'', Arr []), (''imports'', Arr []),
               (''options'', Obj [(''(foo.bar)'', Str ''v'')]), (''services'', Arr [])]) \<and>
   parse (Tokenizer (on_line 1 [''option'', ''('', ''foo.bar'', '')'', ''.baz'', ''='', ''1'', '';'']) 1) =
     Inr (Obj [(''package'', Null), (''messages'', Arr []), (''enums'', Arr []), (''imports'', Arr []),
               (''options'', Obj [(''(foo.bar).baz'', Num (Fin 1))]), (''services'', Arr [])]) \<and>
   parse (Tokenizer (on_line 1 [''message'', ''M'', ''{'', ''optional'', ''int32'', ''x'', ''='', ''1'',
       ''['', ''('', ''foo.bar'', '')'', ''.baz'', ''='', ''1'', '']'', '';'', ''}'']) 1) =
     Inr (Obj [(''package'', Null),
               (''messages'',
                Arr [Obj [(''name'', Str ''M''),
                          (''fields'',
                           Arr [Obj [(''rule'', Str ''optional''),
                                     (''options'', Obj [(''(foo.bar).baz'', Num (Fin 1))]),
                                     (''type'', Str ''int32''), (''name'', Str ''x''),
                                     (''id'', Num (Fin 1))]]),
                          (''enums'', Arr []), (''messages'', Arr []), (''options'', Obj [])]]),
               (''enums'', Arr []), (''imports'', Arr []), (''options'', Obj []),
               (''services'', Arr [])])"
  using custom_option_key [of "''foo.bar''" 1 "''v''" 1 "''.baz''"]
  by (simp add: full_eval)

text \<open>
  Claim C6 fails on the source \<^verbatim>\<open>message M { optional group result = 1 { } }\<close>: the group
  name is rejected with a message that cites no line. A source that ends inside an RPC
  declaration, or after \<^verbatim>\<open>extensions\<close>, or that holds a group in an \<^verbatim>\<open>extend\<close> block, fails
  with a \<^verbatim>\<open>TypeError\<close> of the runtime and not with an error of the parser.
\<close>

theorem error_without_line:
  "parse (Tokenizer (on_line 1 [''message'', ''M'', ''{'', ''optional'', ''group'', ''result'', ''='', ''1'',
       ''{'', ''}'', ''}'']) 1) =
     Inl (Error ''Group names must start with a capital letter'') \<and>
   parse (Tokenizer (on_line 1 [''service'', ''S'', ''{'', ''rpc'', ''M'', ''('', ''Req'', '')'']) 1) =
     Inl TypeError \<and>
   parse (Tokenizer (on_line 1 [''message'', ''M'', ''{'', ''extensions'']) 1) = Inl TypeError \<and>
   parse (Tokenizer (on_line 1 [''extend'', ''Foo'', ''{'', ''optional'', ''group'', ''G'', ''='', ''1'',
       ''{'', ''}'', ''}'']) 1) = Inl TypeError"
  by (simp add: full_eval)

end
